(* ===== verification/Go_Prelude.thy ===== *)
theory Go_Prelude
  imports Main "HOL-Library.Word"
begin

text \<open>
  Shared vocabulary of the development: the Go integer and byte types at their widths, Go
  strings (byte sequences, modelled as \<open>string\<close>), panics as values of \<open>outcome\<close>, and the
  error-returning style of Go as a sum type with the bind \<open>bindE\<close>. The named collections
  gather the rewrite rules that the component theories contribute:
  \<open>go_simps\<close> for the two monads, \<open>wire_simps\<close> for the little-endian codec.
\<close>

unbundle bit_operations_syntax

named_theorems go_simps
named_theorems wire_simps

section \<open>Types of the Go language\<close>

type_synonym uint8 = "8 word"
type_synonym uint16 = "16 word"
type_synonym uint32 = "32 word"
type_synonym uint64 = "64 word"
type_synonym bytes = "uint8 list"

text \<open>Durations and Unix times are Go's \<open>int64\<close>, on which the code only compares.\<close>

type_synonym duration = int

text \<open>The conversions \<open>[]byte(s)\<close> and \<open>string(b)\<close>: one byte per character.\<close>

definition bytes_of_string :: "string \<Rightarrow> bytes" where
  "bytes_of_string s = map (\<lambda>c. of_nat (of_char c)) s"

definition string_of_bytes :: "bytes \<Rightarrow> string" where
  "string_of_bytes b = map (\<lambda>w. char_of (unat w)) b"

lemma length_bytes_of_string [simp]: "length (bytes_of_string s) = length s"
  by (simp add: bytes_of_string_def)

lemma length_string_of_bytes [simp]: "length (string_of_bytes b) = length b"
  by (simp add: string_of_bytes_def)

lemma string_of_bytes_of_string [simp]: "string_of_bytes (bytes_of_string s) = s"
proof -
  have "char_of (unat (of_nat (of_char c) :: uint8)) = c" for c :: char
    by (simp add: unat_of_nat take_bit_eq_mod [symmetric])
  then show ?thesis
    by (simp add: string_of_bytes_def bytes_of_string_def comp_def)
qed

lemma bytes_of_string_of_bytes [simp]: "bytes_of_string (string_of_bytes b) = b"
proof -
  have "of_nat (of_char (char_of (unat w) :: char)) = w" for w :: uint8
    using unsigned_less [of w, where ?'a = nat] by simp
  then show ?thesis
    by (simp add: string_of_bytes_def bytes_of_string_def comp_def)
qed

lemma bytes_of_string_inject [simp]:
  "bytes_of_string s = bytes_of_string t \<longleftrightarrow> s = t"
  by (metis string_of_bytes_of_string)

section \<open>Panics\<close>

text \<open>
  A Go call either returns or panics. A panic unwinds to the nearest \<open>recover\<close>; in a goroutine
  without one it ends the process, so the models keep it apart from every returned error.
\<close>

datatype 'a outcome = Val 'a | Panic string

fun bindO :: "'a outcome \<Rightarrow> ('a \<Rightarrow> 'b outcome) \<Rightarrow> 'b outcome" where
  "bindO (Val a) f = f a"
| "bindO (Panic msg) f = Panic msg"

fun returns :: "'a outcome \<Rightarrow> bool" where
  "returns (Val a) = True"
| "returns (Panic msg) = False"

lemma bindO_eq_Val [go_simps]: "bindO x f = Val b \<longleftrightarrow> (\<exists>a. x = Val a \<and> f a = Val b)"
  by (cases x) auto

lemma bindO_assoc: "bindO (bindO x f) g = bindO x (\<lambda>a. bindO (f a) g)"
  by (cases x) auto

lemma returns_iff: "returns x \<longleftrightarrow> (\<exists>a. x = Val a)"
  by (cases x) auto

section \<open>Errors as values\<close>

fun bindE :: "'e + 'a \<Rightarrow> ('a \<Rightarrow> 'e + 'b) \<Rightarrow> 'e + 'b" where
  "bindE (Inl e) f = Inl e"
| "bindE (Inr a) f = f a"

lemma bindE_eq_Inr [go_simps]: "bindE x f = Inr b \<longleftrightarrow> (\<exists>a. x = Inr a \<and> f a = Inr b)"
  by (cases x) auto

section \<open>Lists\<close>

lemma take_append_length [simp]: "take (length xs) (xs @ ys) = xs"
  by simp

lemma drop_append_length [simp]: "drop (length xs) (xs @ ys) = ys"
  by simp

text \<open>Reading a segment in the middle of a buffer, as \<open>data[i : i+n]\<close> does.\<close>

definition subslice :: "nat \<Rightarrow> nat \<Rightarrow> 'a list \<Rightarrow> 'a list" where
  "subslice i n xs = take n (drop i xs)"

lemma subslice_append: "i = length pre \<Longrightarrow> n = length mid \<Longrightarrow> subslice i n (pre @ mid @ post) = mid"
  by (simp add: subslice_def)

lemma length_subslice [simp]: "i + n \<le> length xs \<Longrightarrow> length (subslice i n xs) = n"
  by (simp add: subslice_def)

text \<open>Decimal notation of an unsigned integer, as \<open>strconv.FormatUint(i, 10)\<close> gives it.\<close>

fun format_nat :: "nat \<Rightarrow> string" where
  "format_nat n = (if n < 10 then [char_of (48 + n)]
                   else format_nat (n div 10) @ [char_of (48 + n mod 10)])"

declare format_nat.simps [simp del]

definition FormatUint :: "uint64 \<Rightarrow> string" where
  "FormatUint w = format_nat (unat w)"

fun parse_nat :: "nat \<Rightarrow> string \<Rightarrow> nat" where
  "parse_nat acc [] = acc"
| "parse_nat acc (c # cs) = parse_nat (10 * acc + (of_char c - 48)) cs"

lemma parse_nat_append: "parse_nat acc (s @ t) = parse_nat (parse_nat acc s) t"
  by (induction s arbitrary: acc) auto

lemma digit_value: "d < 10 \<Longrightarrow> of_char (char_of (48 + d) :: char) = 48 + (d :: nat)"
  by simp

lemma parse_format_nat: "parse_nat 0 (format_nat n) = n"
proof (induction n rule: format_nat.induct)
  case (1 n)
  show ?case
  proof (cases "n < 10")
    case True
    then show ?thesis
      by (simp add: format_nat.simps [of n] digit_value)
  next
    case False
    with "1" have "parse_nat 0 (format_nat (n div 10)) = n div 10" by simp
    with False show ?thesis
      by (simp add: format_nat.simps [of n] parse_nat_append digit_value)
  qed
qed

lemma FormatUint_inject [simp]: "FormatUint a = FormatUint b \<longleftrightarrow> a = b"
  by (metis FormatUint_def parse_format_nat word_unat_eq_iff)

end
