(* ===== verification/Wire.thy ===== *)
theory Wire
  imports Go_Prelude
begin

text \<open>
  The primitives of the wire codec in \<^verbatim>\<open>protocol/schema_gen.go\<close>: little-endian integers as
  \<^verbatim>\<open>encoding/binary\<close> writes them, the length guard \<open>arpackEnsureUint16Length\<close>, the string
  comparison \<open>arpackStringEqualBytes\<close>, and one reader per kind of field. A reader models the
  repeated pattern of the generated code: check the remaining length, read at \<open>offset\<close>, and
  advance \<open>offset\<close>. The locale \<open>wire_message\<close> states what a message type promises.
\<close>

declare add_2_eq_Suc [simp del] add_2_eq_Suc' [simp del]

section \<open>Little-endian integers\<close>

definition le16 :: "uint16 \<Rightarrow> bytes" where
  "le16 v = [ucast v, ucast (drop_bit 8 v)]"

definition le32 :: "uint32 \<Rightarrow> bytes" where
  "le32 v = [ucast v, ucast (drop_bit 8 v), ucast (drop_bit 16 v), ucast (drop_bit 24 v)]"

definition le64 :: "uint64 \<Rightarrow> bytes" where
  "le64 v = [ucast v, ucast (drop_bit 8 v), ucast (drop_bit 16 v), ucast (drop_bit 24 v),
             ucast (drop_bit 32 v), ucast (drop_bit 40 v), ucast (drop_bit 48 v),
             ucast (drop_bit 56 v)]"

text \<open>\<open>binary.LittleEndian.AppendUint16\<close> and its companions.\<close>

definition AppendUint16 :: "bytes \<Rightarrow> uint16 \<Rightarrow> bytes" where
  "AppendUint16 buf v = buf @ le16 v"

definition AppendUint32 :: "bytes \<Rightarrow> uint32 \<Rightarrow> bytes" where
  "AppendUint32 buf v = buf @ le32 v"

definition AppendUint64 :: "bytes \<Rightarrow> uint64 \<Rightarrow> bytes" where
  "AppendUint64 buf v = buf @ le64 v"

text \<open>\<open>binary.LittleEndian.Uint16\<close> and its companions, on a slice that is long enough.\<close>

definition Uint16 :: "bytes \<Rightarrow> uint16" where
  "Uint16 b = ucast (b ! 0) OR push_bit 8 (ucast (b ! 1))"

definition Uint32 :: "bytes \<Rightarrow> uint32" where
  "Uint32 b = ucast (b ! 0) OR push_bit 8 (ucast (b ! 1)) OR push_bit 16 (ucast (b ! 2))
      OR push_bit 24 (ucast (b ! 3))"

definition Uint64 :: "bytes \<Rightarrow> uint64" where
  "Uint64 b = ucast (b ! 0) OR push_bit 8 (ucast (b ! 1)) OR push_bit 16 (ucast (b ! 2))
      OR push_bit 24 (ucast (b ! 3)) OR push_bit 32 (ucast (b ! 4)) OR push_bit 40 (ucast (b ! 5))
      OR push_bit 48 (ucast (b ! 6)) OR push_bit 56 (ucast (b ! 7))"

lemma length_le16 [simp]: "length (le16 v) = 2"
  and length_le32 [simp]: "length (le32 w) = 4"
  and length_le64 [simp]: "length (le64 x) = 8"
  by (simp_all add: le16_def le32_def le64_def)

text \<open>The bits of one octet, cut out of a word and put back in place.\<close>

lemma bit_octet:
  "bit (push_bit k (ucast (ucast (drop_bit k v) :: uint8)) :: 'a::len word) n \<longleftrightarrow>
     k \<le> n \<and> n < k + 8 \<and> bit v n" for v :: "'a::len word"
  using bit_imp_le_length [of v n] by (auto simp: bit_simps)

lemma bit_octet_0:
  "bit (ucast (ucast v :: uint8) :: 'a::len word) n \<longleftrightarrow> n < 8 \<and> bit v n"
  for v :: "'a::len word"
  using bit_imp_le_length [of v n] by (auto simp: bit_simps)

lemma Uint16_le16: "Uint16 (le16 v @ rest) = v"
  unfolding Uint16_def le16_def
  by (rule bit_word_eqI) (simp add: bit_octet bit_octet_0 bit_or_iff; linarith)

lemma Uint32_le32: "Uint32 (le32 v @ rest) = v"
  unfolding Uint32_def le32_def
  by (rule bit_word_eqI) (simp add: bit_octet bit_octet_0 bit_or_iff; linarith)

lemma Uint64_le64: "Uint64 (le64 v @ rest) = v"
  unfolding Uint64_def le64_def
  by (rule bit_word_eqI) (simp add: bit_octet bit_octet_0 bit_or_iff; linarith)

text \<open>The converse: an octet read back from the assembled word.\<close>

lemma byte_bit_high [simp]: "8 \<le> n \<Longrightarrow> \<not> bit (b :: uint8) n"
  using bit_imp_le_length [of b n] by auto

lemma le16_Uint16: "le16 (Uint16 [a, b]) = [a, b]"
  unfolding Uint16_def le16_def
  by (auto intro!: bit_word_eqI simp: bit_simps)

lemma le32_Uint32: "le32 (Uint32 [a, b, c, d]) = [a, b, c, d]"
  unfolding Uint32_def le32_def
  by (auto intro!: bit_word_eqI simp: bit_simps)

lemma le64_Uint64: "le64 (Uint64 [a, b, c, d, e, f, g, h]) = [a, b, c, d, e, f, g, h]"
  unfolding Uint64_def le64_def
  by (auto intro!: bit_word_eqI simp: bit_simps)

section \<open>Length guards and writers\<close>

definition arpackEnsureUint16Length :: "nat \<Rightarrow> string \<Rightarrow> uint16 outcome" where
  "arpackEnsureUint16Length len context =
     (if len > 65535 then Panic (''arpack: '' @ context @ '' exceeds uint16 limit'')
      else Val (of_nat len))"

text \<open>
  A string field: its length, then its bytes. A byte-slice field: its length, then its bytes
  appended one at a time.
\<close>

definition append_string :: "bytes \<Rightarrow> string \<Rightarrow> string \<Rightarrow> bytes outcome" where
  "append_string buf s name =
     bindO (arpackEnsureUint16Length (length s) (''string length for '' @ name))
       (\<lambda>n. Val (AppendUint16 buf n @ bytes_of_string s))"

definition append_bytes :: "bytes \<Rightarrow> bytes \<Rightarrow> string \<Rightarrow> bytes outcome" where
  "append_bytes buf p name =
     bindO (arpackEnsureUint16Length (length p) (''slice length for '' @ name))
       (\<lambda>n. Val (fold (\<lambda>b buf. buf @ [b]) p (AppendUint16 buf n)))"

text \<open>What the writers append, and when they return.\<close>

definition fits16 :: "'a list \<Rightarrow> bool" where
  "fits16 xs \<longleftrightarrow> length xs \<le> 65535"

definition enc_string :: "string \<Rightarrow> bytes" where
  "enc_string s = le16 (of_nat (length s)) @ bytes_of_string s"

definition enc_bytes :: "bytes \<Rightarrow> bytes" where
  "enc_bytes p = le16 (of_nat (length p)) @ p"

lemma fold_append_one: "fold (\<lambda>b buf. buf @ [b]) p buf = buf @ p"
  by (induction p arbitrary: buf) auto

lemma append_string_eq [wire_simps]:
  "append_string buf s name =
     (if fits16 s then Val (buf @ enc_string s)
      else Panic (''arpack: string length for '' @ name @ '' exceeds uint16 limit''))"
  by (simp add: append_string_def arpackEnsureUint16Length_def fits16_def enc_string_def
      AppendUint16_def)

lemma append_bytes_eq [wire_simps]:
  "append_bytes buf p name =
     (if fits16 p then Val (buf @ enc_bytes p)
      else Panic (''arpack: slice length for '' @ name @ '' exceeds uint16 limit''))"
  by (simp add: append_bytes_def arpackEnsureUint16Length_def fits16_def enc_bytes_def
      AppendUint16_def fold_append_one)

lemma length_enc_string [simp]: "length (enc_string s) = 2 + length s"
  by (simp add: enc_string_def)

lemma length_enc_bytes [simp]: "length (enc_bytes p) = 2 + length p"
  by (simp add: enc_bytes_def)

section \<open>Readers\<close>

definition err_short :: string where
  "err_short = ''arpack: buffer too short''"

definition arpackStringEqualBytes :: "string \<Rightarrow> bytes \<Rightarrow> bool" where
  "arpackStringEqualBytes s data =
     (if length s \<noteq> length data then False
      else list_all (\<lambda>i. bytes_of_string s ! i = data ! i) [0..<length s])"

definition get_uint8 :: "bytes \<Rightarrow> nat \<Rightarrow> string + (uint8 \<times> nat)" where
  "get_uint8 data offset =
     (if length data < offset + 1 then Inl err_short else Inr (data ! offset, offset + 1))"

definition get_uint16 :: "bytes \<Rightarrow> nat \<Rightarrow> string + (uint16 \<times> nat)" where
  "get_uint16 data offset =
     (if length data < offset + 2 then Inl err_short
      else Inr (Uint16 (drop offset data), offset + 2))"

definition get_uint32 :: "bytes \<Rightarrow> nat \<Rightarrow> string + (uint32 \<times> nat)" where
  "get_uint32 data offset =
     (if length data < offset + 4 then Inl err_short
      else Inr (Uint32 (drop offset data), offset + 4))"

definition get_uint64 :: "bytes \<Rightarrow> nat \<Rightarrow> string + (uint64 \<times> nat)" where
  "get_uint64 data offset =
     (if length data < offset + 8 then Inl err_short
      else Inr (Uint64 (drop offset data), offset + 8))"

text \<open>A string field is assigned only when it differs from what the receiver \<open>old\<close> holds.\<close>

definition get_string :: "string \<Rightarrow> bytes \<Rightarrow> nat \<Rightarrow> string + (string \<times> nat)" where
  "get_string old data offset =
     bindE (get_uint16 data offset) (\<lambda>(n, offset).
       if length data < offset + unat n then Inl err_short
       else let b = subslice offset (unat n) data
            in Inr (if \<not> arpackStringEqualBytes old b then string_of_bytes b else old,
                    offset + unat n))"

fun copy_bytes :: "nat \<Rightarrow> bytes \<Rightarrow> nat \<Rightarrow> bytes \<times> nat" where
  "copy_bytes 0 data offset = ([], offset)"
| "copy_bytes (Suc n) data offset =
     (let (rest, offset') = copy_bytes n data (offset + 1) in (data ! offset # rest, offset'))"

definition get_bytes :: "bytes \<Rightarrow> nat \<Rightarrow> string + (bytes \<times> nat)" where
  "get_bytes data offset =
     bindE (get_uint16 data offset) (\<lambda>(n, offset).
       if offset > length data \<or> unat n > (length data - offset) div 1 then Inl err_short
       else Inr (copy_bytes (unat n) data offset))"

subsection \<open>The loops against their specifications\<close>

lemma arpackStringEqualBytes_iff: "arpackStringEqualBytes s data \<longleftrightarrow> bytes_of_string s = data"
proof (cases "length s = length data")
  case True
  then show ?thesis
    by (auto simp: arpackStringEqualBytes_def list_all_iff intro: nth_equalityI)
next
  case False
  then show ?thesis
    by (auto simp: arpackStringEqualBytes_def)
qed

lemma assigned_string:
  "(if \<not> arpackStringEqualBytes old b then string_of_bytes b else old) = string_of_bytes b"
  by (auto simp: arpackStringEqualBytes_iff)

lemma copy_bytes_eq:
  "offset + n \<le> length data \<Longrightarrow> copy_bytes n data offset = (subslice offset n data, offset + n)"
proof (induction n arbitrary: offset)
  case 0
  then show ?case by (simp add: subslice_def)
next
  case (Suc n)
  then have "copy_bytes n data (offset + 1) = (subslice (offset + 1) n data, offset + 1 + n)"
    by simp
  moreover have "subslice offset (Suc n) data = data ! offset # subslice (offset + 1) n data"
    using Suc.prems by (simp add: subslice_def Cons_nth_drop_Suc [symmetric])
  ultimately show ?case by simp
qed

subsection \<open>Reading what was written\<close>

text \<open>\<open>at data offset rest\<close>: the bytes of the buffer from \<open>offset\<close> on are \<open>rest\<close>.\<close>

definition at :: "bytes \<Rightarrow> nat \<Rightarrow> bytes \<Rightarrow> bool" where
  "at data offset rest \<longleftrightarrow> offset \<le> length data \<and> drop offset data = rest"

lemma at_start [simp]: "at data 0 data"
  by (simp add: at_def)

lemma at_advance: "at data offset (xs @ rest) \<Longrightarrow> at data (offset + length xs) rest"
proof -
  assume h: "at data offset (xs @ rest)"
  then have "length data - offset = length xs + length rest"
    by (metis at_def length_append length_drop)
  with h show ?thesis
    by (auto simp: at_def drop_drop [symmetric] add.commute [of offset])
qed

lemma at_bound: "at data offset rest \<Longrightarrow> length data = offset + length rest"
  by (auto simp: at_def)

lemma at_subslice: "at data offset (xs @ rest) \<Longrightarrow> subslice offset (length xs) data = xs"
  by (simp add: at_def subslice_def)

lemma get_uint8_at:
  assumes "at data offset (v # rest)"
  shows "get_uint8 data offset = Inr (v, offset + 1)" and "at data (offset + 1) rest"
proof -
  show "get_uint8 data offset = Inr (v, offset + 1)"
    using assms at_bound [OF assms]
    by (simp add: get_uint8_def at_def) (metis nth_via_drop)
  show "at data (offset + 1) rest"
    using at_advance [of data offset "[v]"] assms by simp
qed

lemma get_uint16_at:
  assumes "at data offset (le16 v @ rest)"
  shows "get_uint16 data offset = Inr (v, offset + 2)" and "at data (offset + 2) rest"
  using at_bound [OF assms] assms at_advance [OF assms]
  by (simp_all add: get_uint16_def at_def Uint16_le16)

lemma get_uint32_at:
  assumes "at data offset (le32 v @ rest)"
  shows "get_uint32 data offset = Inr (v, offset + 4)" and "at data (offset + 4) rest"
  using at_bound [OF assms] assms at_advance [OF assms]
  by (simp_all add: get_uint32_def at_def Uint32_le32)

lemma get_uint64_at:
  assumes "at data offset (le64 v @ rest)"
  shows "get_uint64 data offset = Inr (v, offset + 8)" and "at data (offset + 8) rest"
  using at_bound [OF assms] assms at_advance [OF assms]
  by (simp_all add: get_uint64_def at_def Uint64_le64)

lemma unat_length16: "fits16 xs \<Longrightarrow> unat (of_nat (length xs) :: uint16) = length xs"
  by (simp add: fits16_def unat_of_nat)

lemma get_string_at:
  assumes "at data offset (enc_string s @ rest)" and "fits16 s"
  shows "get_string old data offset = Inr (s, offset + 2 + length s)"
    and "at data (offset + 2 + length s) rest"
proof -
  have h: "at data offset (le16 (of_nat (length s)) @ bytes_of_string s @ rest)"
    using assms(1) by (simp add: enc_string_def)
  note n = get_uint16_at [OF h]
  have b: "subslice (offset + 2) (length s) data = bytes_of_string s"
    using at_subslice [OF n(2)] by simp
  show "get_string old data offset = Inr (s, offset + 2 + length s)"
    using at_bound [OF n(2)]
    by (simp add: get_string_def n(1) unat_length16 [OF assms(2)] b arpackStringEqualBytes_iff
        Let_def)
  show "at data (offset + 2 + length s) rest"
    using at_advance [OF n(2)] by simp
qed

lemma get_bytes_at:
  assumes "at data offset (enc_bytes p @ rest)" and "fits16 p"
  shows "get_bytes data offset = Inr (p, offset + 2 + length p)"
    and "at data (offset + 2 + length p) rest"
proof -
  have h: "at data offset (le16 (of_nat (length p)) @ p @ rest)"
    using assms(1) by (simp add: enc_bytes_def)
  note n = get_uint16_at [OF h]
  show "get_bytes data offset = Inr (p, offset + 2 + length p)"
    using at_bound [OF n(2)]
    by (simp add: get_bytes_def n(1) unat_length16 [OF assms(2)] at_subslice [OF n(2)]
        copy_bytes_eq)
  show "at data (offset + 2 + length p) rest"
    using at_advance [OF n(2)] by simp
qed

lemmas get_at = get_uint8_at get_uint16_at get_uint32_at get_uint64_at get_string_at get_bytes_at

subsection \<open>What was read was written\<close>

text \<open>
  A successful read stays inside the buffer, and the bytes it has consumed are the encoding of
  the value it returns.
\<close>

lemma take_add_subslice: "take (i + n) xs = take i xs @ subslice i n xs"
  by (simp add: subslice_def take_add)

lemma get_uint8_D:
  "get_uint8 data offset = Inr (v, off) \<Longrightarrow>
     off = offset + 1 \<and> off \<le> length data \<and> take off data = take offset data @ [v]"
  by (auto simp: get_uint8_def take_Suc_conv_app_nth split: if_splits)

lemma subslice_2: "i + 2 \<le> length xs \<Longrightarrow> subslice i 2 xs = [drop i xs ! 0, drop i xs ! 1]"
  by (rule nth_equalityI) (auto simp: subslice_def less_2_cases_iff)

lemma subslice_4:
  "i + 4 \<le> length xs \<Longrightarrow>
     subslice i 4 xs = [drop i xs ! 0, drop i xs ! 1, drop i xs ! 2, drop i xs ! 3]"
  by (rule nth_equalityI) (auto simp: subslice_def less_Suc_eq numeral_eq_Suc)

lemma subslice_8:
  "i + 8 \<le> length xs \<Longrightarrow>
     subslice i 8 xs = [drop i xs ! 0, drop i xs ! 1, drop i xs ! 2, drop i xs ! 3,
       drop i xs ! 4, drop i xs ! 5, drop i xs ! 6, drop i xs ! 7]"
  by (rule nth_equalityI) (auto simp: subslice_def less_Suc_eq numeral_eq_Suc)

lemma get_uint16_D:
  "get_uint16 data offset = Inr (v, off) \<Longrightarrow>
     off = offset + 2 \<and> off \<le> length data \<and> take off data = take offset data @ le16 v"
  using le16_Uint16 [of "drop offset data ! 0" "drop offset data ! 1"]
  by (auto simp: get_uint16_def take_add_subslice subslice_2 Uint16_def split: if_splits)

lemma get_uint32_D:
  "get_uint32 data offset = Inr (v, off) \<Longrightarrow>
     off = offset + 4 \<and> off \<le> length data \<and> take off data = take offset data @ le32 v"
  using le32_Uint32 [of "drop offset data ! 0" "drop offset data ! 1" "drop offset data ! 2"
      "drop offset data ! 3"]
  by (auto simp: get_uint32_def take_add_subslice subslice_4 Uint32_def split: if_splits)

lemma get_uint64_D:
  "get_uint64 data offset = Inr (v, off) \<Longrightarrow>
     off = offset + 8 \<and> off \<le> length data \<and> take off data = take offset data @ le64 v"
  using le64_Uint64 [of "drop offset data ! 0" "drop offset data ! 1" "drop offset data ! 2"
      "drop offset data ! 3" "drop offset data ! 4" "drop offset data ! 5" "drop offset data ! 6"
      "drop offset data ! 7"]
  by (auto simp: get_uint64_def take_add_subslice subslice_8 Uint64_def split: if_splits)

lemma unat_uint16_le: "unat (n :: uint16) \<le> 65535"
  using unsigned_less [of n, where ?'a = nat] by simp

lemma get_string_D:
  assumes "get_string old data offset = Inr (s, off)"
  shows "fits16 s \<and> off = offset + 2 + length s \<and> off \<le> length data \<and>
         take off data = take offset data @ enc_string s"
proof -
  obtain n where n: "get_uint16 data offset = Inr (n, offset + 2)"
    and off: "off = offset + 2 + unat n" "off \<le> length data"
    and s: "s = string_of_bytes (subslice (offset + 2) (unat n) data)"
    using assms unfolding get_string_def assigned_string
    by (cases "get_uint16 data offset")
       (auto simp: Let_def not_less split: if_splits dest: get_uint16_D)
  have "length s = unat n" using s off by simp
  then show ?thesis
    using get_uint16_D [OF n] off s unat_uint16_le [of n] take_add_subslice [of "offset + 2" "unat n" data]
    by (simp add: fits16_def enc_string_def)
qed

lemma get_bytes_D:
  assumes "get_bytes data offset = Inr (p, off)"
  shows "fits16 p \<and> off = offset + 2 + length p \<and> off \<le> length data \<and>
         take off data = take offset data @ enc_bytes p"
proof -
  obtain n where n: "get_uint16 data offset = Inr (n, offset + 2)"
    and g: "offset + 2 + unat n \<le> length data"
    and c: "copy_bytes (unat n) data (offset + 2) = (p, off)"
    using assms unfolding get_bytes_def
    by (cases "get_uint16 data offset") (auto split: if_splits dest: get_uint16_D)
  then have off: "off = offset + 2 + unat n"
    and p: "p = subslice (offset + 2) (unat n) data"
    by (auto simp: copy_bytes_eq)
  have "length p = unat n" using p g by simp
  then show ?thesis
    using get_uint16_D [OF n] g off p unat_uint16_le [of n] take_add_subslice [of "offset + 2" "unat n" data]
    by (simp add: fits16_def enc_bytes_def)
qed

lemmas get_D = get_uint8_D get_uint16_D get_uint32_D get_uint64_D get_string_D get_bytes_D

section \<open>Slices of messages\<close>

text \<open>
  The loops over a slice of nested messages: every element is marshalled onto the buffer, and
  every element of the receiver's slice is unmarshalled from \<open>data[offset:]\<close>.
\<close>

fun marshal_all :: "('m \<Rightarrow> bytes \<Rightarrow> bytes outcome) \<Rightarrow> 'm list \<Rightarrow> bytes \<Rightarrow> bytes outcome" where
  "marshal_all f [] buf = Val buf"
| "marshal_all f (x # xs) buf = bindO (f x buf) (marshal_all f xs)"

fun unmarshal_all ::
  "('m \<Rightarrow> bytes \<Rightarrow> string + ('m \<times> nat)) \<Rightarrow> 'm list \<Rightarrow> bytes \<Rightarrow> nat \<Rightarrow> string + ('m list \<times> nat)" where
  "unmarshal_all f [] data offset = Inr ([], offset)"
| "unmarshal_all f (r # rs) data offset =
     bindE (f r (drop offset data)) (\<lambda>(x, n).
       bindE (unmarshal_all f rs data (offset + n)) (\<lambda>(xs, offset). Inr (x # xs, offset)))"

text \<open>
  The receiver's slice resized to \<open>n\<close> elements: a fresh zeroed one when the old one is too
  short, otherwise its first \<open>n\<close> elements. (A slice is modelled with its capacity equal to its
  length, as every slice made by this code has it.)
\<close>

definition resize :: "'m \<Rightarrow> nat \<Rightarrow> 'm list \<Rightarrow> 'm list" where
  "resize zero n old = (if length old < n then replicate n zero else take n old)"

lemma length_resize [simp]: "length (resize zero n old) = n"
  by (simp add: resize_def)

section \<open>The contract of a message type\<close>

text \<open>
  What \<open>Marshal\<close> and \<open>Unmarshal\<close> of one message type promise: \<open>Marshal\<close> appends the encoding
  of a message whose variable-length fields fit their prefixes and panics on any other;
  \<open>Unmarshal\<close> recovers the message from any buffer that starts with its encoding, whatever the
  receiver held before, reports how many bytes it used, and never reads past the buffer.
\<close>

locale wire_message =
  fixes marshal :: "'m \<Rightarrow> bytes \<Rightarrow> bytes outcome"
    and unmarshal :: "'m \<Rightarrow> bytes \<Rightarrow> string + ('m \<times> nat)"
    and fits :: "'m \<Rightarrow> bool"
    and enc :: "'m \<Rightarrow> bytes"
  assumes marshal_fits: "fits m \<Longrightarrow> marshal m buf = Val (buf @ enc m)"
    and marshal_unfit: "\<not> fits m \<Longrightarrow> \<not> returns (marshal m buf)"
    and unmarshal_enc: "fits m \<Longrightarrow> unmarshal r (enc m @ rest) = Inr (m, length (enc m))"
    and unmarshal_bound: "unmarshal r data = Inr (m, n) \<Longrightarrow> n \<le> length data \<and> fits m"
    and enc_nonempty: "enc m \<noteq> []"
begin

lemma marshal_returns_iff: "returns (marshal m buf) \<longleftrightarrow> fits m"
  using marshal_fits marshal_unfit by fastforce

lemma marshal_Val_iff: "marshal m buf = Val out \<longleftrightarrow> fits m \<and> out = buf @ enc m"
  using marshal_fits [of m buf] marshal_unfit [of m buf] by (cases "fits m") auto

lemma roundtrip:
  "marshal m buf = Val out \<Longrightarrow> unmarshal r (drop (length buf) out @ rest) = Inr (m, length out - length buf)"
  by (auto simp: marshal_Val_iff unmarshal_enc)

lemma enc_prefix_free:
  assumes "fits m" "fits m'" "enc m @ rest = enc m' @ rest'"
  shows "m = m' \<and> rest = rest'"
proof -
  have "Inr (m, length (enc m)) = (Inr (m', length (enc m')) :: string + ('m \<times> nat))"
    using unmarshal_enc [OF assms(1), of m rest] unmarshal_enc [OF assms(2), of m rest'] assms(3)
    by simp
  with assms(3) show ?thesis by simp
qed

lemma marshal_all_Val:
  "list_all fits xs \<Longrightarrow> marshal_all marshal xs buf = Val (buf @ concat (map enc xs))"
  by (induction xs arbitrary: buf) (auto simp: marshal_fits)

lemma marshal_all_unfit: "\<not> list_all fits xs \<Longrightarrow> \<not> returns (marshal_all marshal xs buf)"
proof (induction xs arbitrary: buf)
  case (Cons x xs)
  show ?case
  proof (cases "fits x")
    case True
    with Cons show ?thesis by (simp add: marshal_fits)
  next
    case False
    then have "\<not> returns (marshal x buf)" by (rule marshal_unfit)
    then show ?thesis by (cases "marshal x buf") auto
  qed
qed simp

lemma unmarshal_all_at:
  assumes "at data offset (concat (map enc xs) @ rest)" "list_all fits xs" "length rs = length xs"
  shows "unmarshal_all unmarshal rs data offset = Inr (xs, offset + length (concat (map enc xs)))"
  using assms
proof (induction xs arbitrary: rs offset)
  case Nil
  then show ?case by simp
next
  case (Cons x xs)
  then obtain r rs' where rs: "rs = r # rs'" by (cases rs) auto
  have here: "at data offset (enc x @ concat (map enc xs) @ rest)"
    using Cons.prems(1) by simp
  have x: "unmarshal r (drop offset data) = Inr (x, length (enc x))"
    using here Cons.prems(2) unmarshal_enc by (simp add: at_def)
  show ?case
    using Cons.IH [OF at_advance [OF here], of rs'] Cons.prems rs x
    by (simp add: add.assoc)
qed

lemma unmarshal_all_bound:
  assumes "unmarshal_all unmarshal rs data offset = Inr (xs, off)" "offset \<le> length data"
  shows "list_all fits xs \<and> length xs = length rs \<and> offset \<le> off \<and> off \<le> length data"
  using assms
proof (induction rs arbitrary: offset xs)
  case Nil
  then show ?case by simp
next
  case (Cons r rs)
  then obtain x n ys where x: "unmarshal r (drop offset data) = Inr (x, n)"
    and ys: "unmarshal_all unmarshal rs data (offset + n) = Inr (ys, off)" and xs: "xs = x # ys"
    by (auto simp: go_simps)
  from unmarshal_bound [OF x] Cons.prems(2) have "fits x" "offset + n \<le> length data" by auto
  with Cons.IH [OF ys] xs show ?case by auto
qed

end

text \<open>
  A message type with one encoding per value: what \<open>Unmarshal\<close> consumed is the encoding of what it
  returned. (\<open>RoomInfo\<close> is not of this kind: it ignores seven bits of its boolean byte.)
\<close>

locale canonical_message = wire_message +
  assumes unmarshal_canonical: "unmarshal r data = Inr (m, n) \<Longrightarrow> enc m = take n data"
begin

lemma remarshal: "unmarshal r data = Inr (m, n) \<Longrightarrow> marshal m [] = Val (take n data)"
  using unmarshal_bound unmarshal_canonical by (auto simp: marshal_Val_iff)

lemma unmarshal_all_canonical:
  assumes "unmarshal_all unmarshal rs data offset = Inr (xs, off)" "offset \<le> length data"
  shows "take off data = take offset data @ concat (map enc xs)"
  using assms
proof (induction rs arbitrary: offset xs)
  case Nil
  then show ?case by simp
next
  case (Cons r rs)
  then obtain x n ys where x: "unmarshal r (drop offset data) = Inr (x, n)"
    and ys: "unmarshal_all unmarshal rs data (offset + n) = Inr (ys, off)" and xs: "xs = x # ys"
    by (auto simp: go_simps)
  from unmarshal_bound [OF x] Cons.prems(2) have "offset + n \<le> length data" by auto
  from Cons.IH [OF ys this] unmarshal_canonical [OF x] xs show ?case
    by (simp add: take_add)
qed

lemma unmarshal_all_D:
  assumes "unmarshal_all unmarshal rs data offset = Inr (xs, off)" "offset \<le> length data"
  shows "list_all fits xs \<and> length xs = length rs \<and> offset \<le> off \<and> off \<le> length data \<and>
         take off data = take offset data @ concat (map enc xs)"
  using unmarshal_all_bound [OF assms] unmarshal_all_canonical [OF assms] by simp

end

end
