(* ===== verification/Schema.thy ===== *)
theory Schema
  imports Wire
begin

text \<open>
  The wire schema: the enumerations and message types of \<^verbatim>\<open>protocol/schema.go\<close> and the
  \<open>Marshal\<close> and \<open>Unmarshal\<close> methods of \<^verbatim>\<open>protocol/schema_gen.go\<close>, one pair per message type.
  \<open>Marshal m buf\<close> appends to \<open>buf\<close> and panics on an oversized field. \<open>Unmarshal m data\<close> takes the
  receiver \<open>m\<close> and returns the updated receiver with the number of bytes used, or an error (on which
  every caller discards the receiver). Field names carry a prefix per record.
\<close>

section \<open>Enumerations\<close>

text \<open>\<open>MessageType\<close> (uint8): the kind of an envelope.\<close>

definition MessagePing :: uint8 where
  [simp]: "MessagePing = 0"

definition MessageAuth :: uint8 where
  [simp]: "MessageAuth = 1"

definition MessageSubscribe :: uint8 where
  [simp]: "MessageSubscribe = 2"

definition MessageUnsubscribe :: uint8 where
  [simp]: "MessageUnsubscribe = 3"

definition MessageRequest :: uint8 where
  [simp]: "MessageRequest = 4"

definition MessageResponse :: uint8 where
  [simp]: "MessageResponse = 5"

definition MessageError :: uint8 where
  [simp]: "MessageError = 6"

definition MessageEvent :: uint8 where
  [simp]: "MessageEvent = 7"

text \<open>\<open>MethodOp\<close> (uint16): the built-in RPC methods.\<close>

definition MethodRoomCreate :: uint16 where
  [simp]: "MethodRoomCreate = 1"

definition MethodRoomJoin :: uint16 where
  [simp]: "MethodRoomJoin = 2"

definition MethodRoomLeave :: uint16 where
  [simp]: "MethodRoomLeave = 3"

definition MethodLobbyList :: uint16 where
  [simp]: "MethodLobbyList = 4"

text \<open>\<open>EventOp\<close> (uint16): the framework events.\<close>

definition EventPlayerJoined :: uint16 where
  [simp]: "EventPlayerJoined = 1"

definition EventPlayerLeft :: uint16 where
  [simp]: "EventPlayerLeft = 2"

definition EventRoomKicked :: uint16 where
  [simp]: "EventRoomKicked = 3"

definition EventRoomCreated :: uint16 where
  [simp]: "EventRoomCreated = 4"

definition EventRoomRemoved :: uint16 where
  [simp]: "EventRoomRemoved = 5"

text \<open>\<open>SingletonMode\<close> (uint8). The wire carries any byte, so the type keeps all 256 values.\<close>

definition SingletonAllow :: uint8 where
  [simp]: "SingletonAllow = 0"

definition SingletonReject :: uint8 where
  [simp]: "SingletonReject = 1"

definition SingletonReplace :: uint8 where
  [simp]: "SingletonReplace = 2"

section \<open>Message types\<close>

record CreateOption =
  co_Key :: "string"
  co_Value :: "string"

record ClientMessage =
  cm_Type :: "uint8"
  cm_ID :: "uint32"
  cm_Op :: "uint16"
  cm_Token :: "string"
  cm_Channel :: "string"
  cm_Payload :: "bytes"

record ServerMessage =
  sm_Type :: "uint8"
  sm_ID :: "uint32"
  sm_Code :: "uint16"
  sm_Op :: "uint16"
  sm_Channel :: "string"
  sm_Error :: "string"
  sm_Payload :: "bytes"

record AuthResult =
  ar_SessionID :: "string"
  ar_UserID :: "string"

record CreateRoomRequest =
  crr_Name :: "string"
  crr_Type :: "string"
  crr_MaxPlayers :: "uint16"
  crr_SingletonMode :: "uint8"
  crr_Options :: "CreateOption list"

record JoinRoomRequest =
  jr_RoomID :: "string"

record LeaveRoomRequest =
  lr_RoomID :: "string"

record RoomInfo =
  ri_ID :: "string"
  ri_Name :: "string"
  ri_Type :: "string"
  ri_MaxPlayers :: "uint16"
  ri_PlayerCount :: "uint16"
  ri_IsOpen :: "bool"
  ri_SingletonMode :: "uint8"

record RoomList =
  rl_Rooms :: "RoomInfo list"

record PlayerJoined =
  pj_PlayerID :: "uint64"
  pj_UserID :: "string"

record PlayerLeft =
  plf_PlayerID :: "uint64"

record Kicked =
  kd_Reason :: "string"
  kd_RoomID :: "string"

record RoomRemoved =
  rr_ID :: "string"

section \<open>Marshal and Unmarshal\<close>

subsection \<open>CreateOption\<close>

definition CreateOption_zero :: CreateOption where
  "CreateOption_zero = \<lparr>co_Key = [], co_Value = []\<rparr>"

definition CreateOption_Marshal :: "CreateOption \<Rightarrow> bytes \<Rightarrow> bytes outcome" where
  "CreateOption_Marshal m buf =
     bindO (append_string buf (co_Key m) ''Key'') (\<lambda>buf.
     append_string buf (co_Value m) ''Value'')"

definition CreateOption_Unmarshal :: "CreateOption \<Rightarrow> bytes \<Rightarrow> string + (CreateOption \<times> nat)" where
  "CreateOption_Unmarshal m data =
     (if length data < 4 then Inl ''arpack: buffer too short for CreateOption'' else
      bindE (get_string (co_Key m) data 0) (\<lambda>(key, offset).
      bindE (get_string (co_Value m) data offset) (\<lambda>(value, offset).
      Inr (m\<lparr>co_Key := key, co_Value := value\<rparr>, offset))))"

subsection \<open>ClientMessage\<close>

definition ClientMessage_zero :: ClientMessage where
  "ClientMessage_zero = \<lparr>cm_Type = 0, cm_ID = 0, cm_Op = 0, cm_Token = [], cm_Channel = [], cm_Payload = []\<rparr>"

definition ClientMessage_Marshal :: "ClientMessage \<Rightarrow> bytes \<Rightarrow> bytes outcome" where
  "ClientMessage_Marshal m buf =
     (let buf = buf @ [cm_Type m] in
     (let buf = AppendUint32 buf (cm_ID m) in
     (let buf = AppendUint16 buf (cm_Op m) in
     bindO (append_string buf (cm_Token m) ''Token'') (\<lambda>buf.
     bindO (append_string buf (cm_Channel m) ''Channel'') (\<lambda>buf.
     append_bytes buf (cm_Payload m) ''Payload'')))))"

definition ClientMessage_Unmarshal :: "ClientMessage \<Rightarrow> bytes \<Rightarrow> string + (ClientMessage \<times> nat)" where
  "ClientMessage_Unmarshal m data =
     (if length data < 13 then Inl ''arpack: buffer too short for ClientMessage'' else
      bindE (get_uint8 data 0) (\<lambda>(typ, offset).
      bindE (get_uint32 data offset) (\<lambda>(id, offset).
      bindE (get_uint16 data offset) (\<lambda>(op, offset).
      bindE (get_string (cm_Token m) data offset) (\<lambda>(token, offset).
      bindE (get_string (cm_Channel m) data offset) (\<lambda>(channel, offset).
      bindE (get_bytes data offset) (\<lambda>(payload, offset).
      Inr (m\<lparr>cm_Type := typ, cm_ID := id, cm_Op := op, cm_Token := token, cm_Channel := channel,
           cm_Payload := payload\<rparr>, offset))))))))"

subsection \<open>ServerMessage\<close>

definition ServerMessage_zero :: ServerMessage where
  "ServerMessage_zero = \<lparr>sm_Type = 0, sm_ID = 0, sm_Code = 0, sm_Op = 0, sm_Channel = [], sm_Error = [],
     sm_Payload = []\<rparr>"

definition ServerMessage_Marshal :: "ServerMessage \<Rightarrow> bytes \<Rightarrow> bytes outcome" where
  "ServerMessage_Marshal m buf =
     (let buf = buf @ [sm_Type m] in
     (let buf = AppendUint32 buf (sm_ID m) in
     (let buf = AppendUint16 buf (sm_Code m) in
     (let buf = AppendUint16 buf (sm_Op m) in
     bindO (append_string buf (sm_Channel m) ''Channel'') (\<lambda>buf.
     bindO (append_string buf (sm_Error m) ''Error'') (\<lambda>buf.
     append_bytes buf (sm_Payload m) ''Payload''))))))"

definition ServerMessage_Unmarshal :: "ServerMessage \<Rightarrow> bytes \<Rightarrow> string + (ServerMessage \<times> nat)" where
  "ServerMessage_Unmarshal m data =
     (if length data < 15 then Inl ''arpack: buffer too short for ServerMessage'' else
      bindE (get_uint8 data 0) (\<lambda>(typ, offset).
      bindE (get_uint32 data offset) (\<lambda>(id, offset).
      bindE (get_uint16 data offset) (\<lambda>(code, offset).
      bindE (get_uint16 data offset) (\<lambda>(op, offset).
      bindE (get_string (sm_Channel m) data offset) (\<lambda>(channel, offset).
      bindE (get_string (sm_Error m) data offset) (\<lambda>(error, offset).
      bindE (get_bytes data offset) (\<lambda>(payload, offset).
      Inr (m\<lparr>sm_Type := typ, sm_ID := id, sm_Code := code, sm_Op := op, sm_Channel := channel,
           sm_Error := error, sm_Payload := payload\<rparr>, offset)))))))))"

subsection \<open>AuthResult\<close>

definition AuthResult_zero :: AuthResult where
  "AuthResult_zero = \<lparr>ar_SessionID = [], ar_UserID = []\<rparr>"

definition AuthResult_Marshal :: "AuthResult \<Rightarrow> bytes \<Rightarrow> bytes outcome" where
  "AuthResult_Marshal m buf =
     bindO (append_string buf (ar_SessionID m) ''SessionID'') (\<lambda>buf.
     append_string buf (ar_UserID m) ''UserID'')"

definition AuthResult_Unmarshal :: "AuthResult \<Rightarrow> bytes \<Rightarrow> string + (AuthResult \<times> nat)" where
  "AuthResult_Unmarshal m data =
     (if length data < 4 then Inl ''arpack: buffer too short for AuthResult'' else
      bindE (get_string (ar_SessionID m) data 0) (\<lambda>(sessionID, offset).
      bindE (get_string (ar_UserID m) data offset) (\<lambda>(userID, offset).
      Inr (m\<lparr>ar_SessionID := sessionID, ar_UserID := userID\<rparr>, offset))))"

subsection \<open>CreateRoomRequest\<close>

definition CreateRoomRequest_zero :: CreateRoomRequest where
  "CreateRoomRequest_zero = \<lparr>crr_Name = [], crr_Type = [], crr_MaxPlayers = 0, crr_SingletonMode = 0, crr_Options
     = []\<rparr>"

definition CreateRoomRequest_Marshal :: "CreateRoomRequest \<Rightarrow> bytes \<Rightarrow> bytes outcome" where
  "CreateRoomRequest_Marshal m buf =
     bindO (append_string buf (crr_Name m) ''Name'') (\<lambda>buf.
     bindO (append_string buf (crr_Type m) ''Type'') (\<lambda>buf.
     (let buf = AppendUint16 buf (crr_MaxPlayers m) in
     (let buf = buf @ [crr_SingletonMode m] in
     bindO (arpackEnsureUint16Length (length (crr_Options m)) (''slice length for Options'')) (\<lambda>n.
     (let buf = AppendUint16 buf n in
     marshal_all CreateOption_Marshal (crr_Options m) buf))))))"

definition CreateRoomRequest_Unmarshal :: "CreateRoomRequest \<Rightarrow> bytes \<Rightarrow> string + (CreateRoomRequest \<times> nat)" where
  "CreateRoomRequest_Unmarshal m data =
     (if length data < 9 then Inl ''arpack: buffer too short for CreateRoomRequest'' else
      bindE (get_string (crr_Name m) data 0) (\<lambda>(name, offset).
      bindE (get_string (crr_Type m) data offset) (\<lambda>(typ, offset).
      bindE (get_uint16 data offset) (\<lambda>(maxPlayers, offset).
      bindE (get_uint8 data offset) (\<lambda>(singletonMode, offset).
      bindE (get_uint16 data offset) (\<lambda>(lenOptions, offset).
      bindE (unmarshal_all CreateOption_Unmarshal (resize CreateOption_zero (unat lenOptions) (crr_Options m)) data offset)
        (\<lambda>(options, offset).
      Inr (m\<lparr>crr_Name := name, crr_Type := typ, crr_MaxPlayers := maxPlayers, crr_SingletonMode
           := singletonMode, crr_Options := options\<rparr>, offset))))))))"

subsection \<open>JoinRoomRequest\<close>

definition JoinRoomRequest_zero :: JoinRoomRequest where
  "JoinRoomRequest_zero = \<lparr>jr_RoomID = []\<rparr>"

definition JoinRoomRequest_Marshal :: "JoinRoomRequest \<Rightarrow> bytes \<Rightarrow> bytes outcome" where
  "JoinRoomRequest_Marshal m buf =
     append_string buf (jr_RoomID m) ''RoomID''"

definition JoinRoomRequest_Unmarshal :: "JoinRoomRequest \<Rightarrow> bytes \<Rightarrow> string + (JoinRoomRequest \<times> nat)" where
  "JoinRoomRequest_Unmarshal m data =
     (if length data < 2 then Inl ''arpack: buffer too short for JoinRoomRequest'' else
      bindE (get_string (jr_RoomID m) data 0) (\<lambda>(roomID, offset).
      Inr (m\<lparr>jr_RoomID := roomID\<rparr>, offset)))"

subsection \<open>LeaveRoomRequest\<close>

definition LeaveRoomRequest_zero :: LeaveRoomRequest where
  "LeaveRoomRequest_zero = \<lparr>lr_RoomID = []\<rparr>"

definition LeaveRoomRequest_Marshal :: "LeaveRoomRequest \<Rightarrow> bytes \<Rightarrow> bytes outcome" where
  "LeaveRoomRequest_Marshal m buf =
     append_string buf (lr_RoomID m) ''RoomID''"

definition LeaveRoomRequest_Unmarshal :: "LeaveRoomRequest \<Rightarrow> bytes \<Rightarrow> string + (LeaveRoomRequest \<times> nat)" where
  "LeaveRoomRequest_Unmarshal m data =
     (if length data < 2 then Inl ''arpack: buffer too short for LeaveRoomRequest'' else
      bindE (get_string (lr_RoomID m) data 0) (\<lambda>(roomID, offset).
      Inr (m\<lparr>lr_RoomID := roomID\<rparr>, offset)))"

subsection \<open>RoomInfo\<close>

definition RoomInfo_zero :: RoomInfo where
  "RoomInfo_zero = \<lparr>ri_ID = [], ri_Name = [], ri_Type = [], ri_MaxPlayers = 0, ri_PlayerCount = 0,
     ri_IsOpen = False, ri_SingletonMode = 0\<rparr>"

definition RoomInfo_Marshal :: "RoomInfo \<Rightarrow> bytes \<Rightarrow> bytes outcome" where
  "RoomInfo_Marshal m buf =
     bindO (append_string buf (ri_ID m) ''ID'') (\<lambda>buf.
     bindO (append_string buf (ri_Name m) ''Name'') (\<lambda>buf.
     bindO (append_string buf (ri_Type m) ''Type'') (\<lambda>buf.
     (let buf = AppendUint16 buf (ri_MaxPlayers m) in
     (let buf = AppendUint16 buf (ri_PlayerCount m) in
     (let boolByte = (if ri_IsOpen m then 0 OR push_bit 0 1 else 0); buf = buf @ [boolByte] in
     (let buf = buf @ [ri_SingletonMode m] in
     Val buf)))))))"

definition RoomInfo_Unmarshal :: "RoomInfo \<Rightarrow> bytes \<Rightarrow> string + (RoomInfo \<times> nat)" where
  "RoomInfo_Unmarshal m data =
     (if length data < 12 then Inl ''arpack: buffer too short for RoomInfo'' else
      bindE (get_string (ri_ID m) data 0) (\<lambda>(id, offset).
      bindE (get_string (ri_Name m) data offset) (\<lambda>(name, offset).
      bindE (get_string (ri_Type m) data offset) (\<lambda>(typ, offset).
      bindE (get_uint16 data offset) (\<lambda>(maxPlayers, offset).
      bindE (get_uint16 data offset) (\<lambda>(playerCount, offset).
      bindE (get_uint8 data offset) (\<lambda>(boolByte, offset).
      bindE (get_uint8 data offset) (\<lambda>(singletonMode, offset).
      Inr (m\<lparr>ri_ID := id, ri_Name := name, ri_Type := typ, ri_MaxPlayers := maxPlayers,
           ri_PlayerCount := playerCount, ri_IsOpen := (boolByte AND push_bit 0 1 \<noteq> 0),
           ri_SingletonMode := singletonMode\<rparr>, offset)))))))))"

subsection \<open>RoomList\<close>

definition RoomList_zero :: RoomList where
  "RoomList_zero = \<lparr>rl_Rooms = []\<rparr>"

definition RoomList_Marshal :: "RoomList \<Rightarrow> bytes \<Rightarrow> bytes outcome" where
  "RoomList_Marshal m buf =
     bindO (arpackEnsureUint16Length (length (rl_Rooms m)) (''slice length for Rooms'')) (\<lambda>n.
     (let buf = AppendUint16 buf n in
     marshal_all RoomInfo_Marshal (rl_Rooms m) buf))"

definition RoomList_Unmarshal :: "RoomList \<Rightarrow> bytes \<Rightarrow> string + (RoomList \<times> nat)" where
  "RoomList_Unmarshal m data =
     (if length data < 2 then Inl ''arpack: buffer too short for RoomList'' else
      bindE (get_uint16 data 0) (\<lambda>(lenRooms, offset).
      bindE (unmarshal_all RoomInfo_Unmarshal (resize RoomInfo_zero (unat lenRooms) (rl_Rooms m)) data offset)
        (\<lambda>(rooms, offset).
      Inr (m\<lparr>rl_Rooms := rooms\<rparr>, offset))))"

subsection \<open>PlayerJoined\<close>

definition PlayerJoined_zero :: PlayerJoined where
  "PlayerJoined_zero = \<lparr>pj_PlayerID = 0, pj_UserID = []\<rparr>"

definition PlayerJoined_Marshal :: "PlayerJoined \<Rightarrow> bytes \<Rightarrow> bytes outcome" where
  "PlayerJoined_Marshal m buf =
     (let buf = AppendUint64 buf (pj_PlayerID m) in
     append_string buf (pj_UserID m) ''UserID'')"

definition PlayerJoined_Unmarshal :: "PlayerJoined \<Rightarrow> bytes \<Rightarrow> string + (PlayerJoined \<times> nat)" where
  "PlayerJoined_Unmarshal m data =
     (if length data < 10 then Inl ''arpack: buffer too short for PlayerJoined'' else
      bindE (get_uint64 data 0) (\<lambda>(playerID, offset).
      bindE (get_string (pj_UserID m) data offset) (\<lambda>(userID, offset).
      Inr (m\<lparr>pj_PlayerID := playerID, pj_UserID := userID\<rparr>, offset))))"

subsection \<open>PlayerLeft\<close>

definition PlayerLeft_zero :: PlayerLeft where
  "PlayerLeft_zero = \<lparr>plf_PlayerID = 0\<rparr>"

definition PlayerLeft_Marshal :: "PlayerLeft \<Rightarrow> bytes \<Rightarrow> bytes outcome" where
  "PlayerLeft_Marshal m buf =
     (let buf = AppendUint64 buf (plf_PlayerID m) in
     Val buf)"

definition PlayerLeft_Unmarshal :: "PlayerLeft \<Rightarrow> bytes \<Rightarrow> string + (PlayerLeft \<times> nat)" where
  "PlayerLeft_Unmarshal m data =
     (if length data < 8 then Inl ''arpack: buffer too short for PlayerLeft'' else
      bindE (get_uint64 data 0) (\<lambda>(playerID, offset).
      Inr (m\<lparr>plf_PlayerID := playerID\<rparr>, offset)))"

subsection \<open>Kicked\<close>

definition Kicked_zero :: Kicked where
  "Kicked_zero = \<lparr>kd_Reason = [], kd_RoomID = []\<rparr>"

definition Kicked_Marshal :: "Kicked \<Rightarrow> bytes \<Rightarrow> bytes outcome" where
  "Kicked_Marshal m buf =
     bindO (append_string buf (kd_Reason m) ''Reason'') (\<lambda>buf.
     append_string buf (kd_RoomID m) ''RoomID'')"

definition Kicked_Unmarshal :: "Kicked \<Rightarrow> bytes \<Rightarrow> string + (Kicked \<times> nat)" where
  "Kicked_Unmarshal m data =
     (if length data < 4 then Inl ''arpack: buffer too short for Kicked'' else
      bindE (get_string (kd_Reason m) data 0) (\<lambda>(reason, offset).
      bindE (get_string (kd_RoomID m) data offset) (\<lambda>(roomID, offset).
      Inr (m\<lparr>kd_Reason := reason, kd_RoomID := roomID\<rparr>, offset))))"

subsection \<open>RoomRemoved\<close>

definition RoomRemoved_zero :: RoomRemoved where
  "RoomRemoved_zero = \<lparr>rr_ID = []\<rparr>"

definition RoomRemoved_Marshal :: "RoomRemoved \<Rightarrow> bytes \<Rightarrow> bytes outcome" where
  "RoomRemoved_Marshal m buf =
     append_string buf (rr_ID m) ''ID''"

definition RoomRemoved_Unmarshal :: "RoomRemoved \<Rightarrow> bytes \<Rightarrow> string + (RoomRemoved \<times> nat)" where
  "RoomRemoved_Unmarshal m data =
     (if length data < 2 then Inl ''arpack: buffer too short for RoomRemoved'' else
      bindE (get_string (rr_ID m) data 0) (\<lambda>(id, offset).
      Inr (m\<lparr>rr_ID := id\<rparr>, offset)))"

end
