(* ===== verification/Schema_Props.thy ===== *)
theory Schema_Props
  imports Schema
begin

text \<open>
  The encoding of every message type as a specification (\<open>_enc\<close>), when its fields fit their
  16-bit length prefixes (\<open>_fits\<close>), and that the generated \<open>Marshal\<close>/\<open>Unmarshal\<close> pair implements
  it: one interpretation of \<open>wire_message\<close> or \<open>canonical_message\<close> per type.
\<close>

lemmas append_defs = AppendUint16_def AppendUint32_def AppendUint64_def

lemma ensure_fits [wire_simps]:
  "arpackEnsureUint16Length (length xs) c =
     (if fits16 xs then Val (of_nat (length xs)) else Panic (''arpack: '' @ c @ '' exceeds uint16 limit''))"
  by (simp add: arpackEnsureUint16Length_def fits16_def)

subsection \<open>CreateOption\<close>

definition CreateOption_enc :: "CreateOption \<Rightarrow> bytes" where
  "CreateOption_enc m =
     enc_string (co_Key m) @ enc_string (co_Value m)"

definition CreateOption_fits :: "CreateOption \<Rightarrow> bool" where
  "CreateOption_fits m \<longleftrightarrow> fits16 (co_Key m) \<and> fits16 (co_Value m)"

lemma CreateOption_unmarshal_enc:
  assumes "CreateOption_fits m"
  shows "CreateOption_Unmarshal r (CreateOption_enc m @ rest) = Inr (m, length (CreateOption_enc m))"
proof -
  let ?d = "CreateOption_enc m @ rest"
  have f0: "fits16 (co_Key m)" and f1: "fits16 (co_Value m)"
    using assms by (simp_all add: CreateOption_fits_def)
  have h: "at ?d 0 (enc_string (co_Key m) @ enc_string (co_Value m) @ rest)"
    by (simp add: CreateOption_enc_def)
  note h = h [simplified append_Cons append_Nil append_assoc]
  note g0 = get_string_at [OF h f0]
  note g1 = get_string_at [OF g0(2) f1]
  have "\<not> length ?d < 4" by (simp add: CreateOption_enc_def)
  then show ?thesis
    by (simp only: CreateOption_Unmarshal_def if_False bindE.simps prod.case g0(1) g1(1))
       (simp add: CreateOption_enc_def)
qed

lemma CreateOption_marshal_fits: "CreateOption_fits m \<Longrightarrow> CreateOption_Marshal m buf = Val (buf @ CreateOption_enc m)"
  by (simp add: CreateOption_Marshal_def CreateOption_fits_def CreateOption_enc_def wire_simps append_defs)

lemma CreateOption_marshal_unfit: "\<not> CreateOption_fits m \<Longrightarrow> \<not> returns (CreateOption_Marshal m buf)"
  by (auto simp: CreateOption_Marshal_def CreateOption_fits_def wire_simps append_defs)

lemma CreateOption_unmarshal_D:
  assumes "CreateOption_Unmarshal r data = Inr (m, n)"
  shows "n \<le> length data \<and> CreateOption_fits m \<and> CreateOption_enc m = take n data"
  using assms
  by (auto simp: CreateOption_Unmarshal_def CreateOption_fits_def CreateOption_enc_def go_simps split: if_splits dest!: get_D)

interpretation createOption: canonical_message CreateOption_Marshal CreateOption_Unmarshal CreateOption_fits CreateOption_enc
  by unfold_locales
     (auto simp: CreateOption_marshal_fits CreateOption_marshal_unfit CreateOption_unmarshal_enc dest: CreateOption_unmarshal_D,
      simp add: CreateOption_enc_def enc_string_def le16_def le64_def)

subsection \<open>ClientMessage\<close>

definition ClientMessage_enc :: "ClientMessage \<Rightarrow> bytes" where
  "ClientMessage_enc m =
     [cm_Type m] @ le32 (cm_ID m) @ le16 (cm_Op m) @ enc_string (cm_Token m) @ enc_string
     (cm_Channel m) @ enc_bytes (cm_Payload m)"

definition ClientMessage_fits :: "ClientMessage \<Rightarrow> bool" where
  "ClientMessage_fits m \<longleftrightarrow> fits16 (cm_Token m) \<and> fits16 (cm_Channel m) \<and> fits16 (cm_Payload m)"

lemma ClientMessage_unmarshal_enc:
  assumes "ClientMessage_fits m"
  shows "ClientMessage_Unmarshal r (ClientMessage_enc m @ rest) = Inr (m, length (ClientMessage_enc m))"
proof -
  let ?d = "ClientMessage_enc m @ rest"
  have f3: "fits16 (cm_Token m)" and f4: "fits16 (cm_Channel m)" and f5: "fits16 (cm_Payload m)"
    using assms by (simp_all add: ClientMessage_fits_def)
  have h: "at ?d 0 ([cm_Type m] @ le32 (cm_ID m) @ le16 (cm_Op m) @ enc_string (cm_Token m) @ enc_string
        (cm_Channel m) @ enc_bytes (cm_Payload m) @ rest)"
    by (simp add: ClientMessage_enc_def)
  note h = h [simplified append_Cons append_Nil append_assoc]
  note g0 = get_uint8_at [OF h]
  note g1 = get_uint32_at [OF g0(2)]
  note g2 = get_uint16_at [OF g1(2)]
  note g3 = get_string_at [OF g2(2) f3]
  note g4 = get_string_at [OF g3(2) f4]
  note g5 = get_bytes_at [OF g4(2) f5]
  have "\<not> length ?d < 13" by (simp add: ClientMessage_enc_def)
  then show ?thesis
    by (simp only: ClientMessage_Unmarshal_def if_False bindE.simps prod.case g0(1) g1(1) g2(1) g3(1) g4(1) g5(1))
       (simp add: ClientMessage_enc_def)
qed

lemma ClientMessage_marshal_fits: "ClientMessage_fits m \<Longrightarrow> ClientMessage_Marshal m buf = Val (buf @ ClientMessage_enc m)"
  by (simp add: ClientMessage_Marshal_def ClientMessage_fits_def ClientMessage_enc_def wire_simps append_defs)

lemma ClientMessage_marshal_unfit: "\<not> ClientMessage_fits m \<Longrightarrow> \<not> returns (ClientMessage_Marshal m buf)"
  by (auto simp: ClientMessage_Marshal_def ClientMessage_fits_def wire_simps append_defs)

lemma ClientMessage_unmarshal_D:
  assumes "ClientMessage_Unmarshal r data = Inr (m, n)"
  shows "n \<le> length data \<and> ClientMessage_fits m \<and> ClientMessage_enc m = take n data"
  using assms
  by (auto simp: ClientMessage_Unmarshal_def ClientMessage_fits_def ClientMessage_enc_def go_simps split: if_splits dest!: get_D)

interpretation clientMessage: canonical_message ClientMessage_Marshal ClientMessage_Unmarshal ClientMessage_fits ClientMessage_enc
  by unfold_locales
     (auto simp: ClientMessage_marshal_fits ClientMessage_marshal_unfit ClientMessage_unmarshal_enc dest: ClientMessage_unmarshal_D,
      simp add: ClientMessage_enc_def enc_string_def le16_def le64_def)

subsection \<open>ServerMessage\<close>

definition ServerMessage_enc :: "ServerMessage \<Rightarrow> bytes" where
  "ServerMessage_enc m =
     [sm_Type m] @ le32 (sm_ID m) @ le16 (sm_Code m) @ le16 (sm_Op m) @ enc_string
     (sm_Channel m) @ enc_string (sm_Error m) @ enc_bytes (sm_Payload m)"

definition ServerMessage_fits :: "ServerMessage \<Rightarrow> bool" where
  "ServerMessage_fits m \<longleftrightarrow> fits16 (sm_Channel m) \<and> fits16 (sm_Error m) \<and> fits16 (sm_Payload m)"

lemma ServerMessage_unmarshal_enc:
  assumes "ServerMessage_fits m"
  shows "ServerMessage_Unmarshal r (ServerMessage_enc m @ rest) = Inr (m, length (ServerMessage_enc m))"
proof -
  let ?d = "ServerMessage_enc m @ rest"
  have f4: "fits16 (sm_Channel m)" and f5: "fits16 (sm_Error m)" and f6: "fits16 (sm_Payload m)"
    using assms by (simp_all add: ServerMessage_fits_def)
  have h: "at ?d 0 ([sm_Type m] @ le32 (sm_ID m) @ le16 (sm_Code m) @ le16 (sm_Op m) @ enc_string
        (sm_Channel m) @ enc_string (sm_Error m) @ enc_bytes (sm_Payload m) @ rest)"
    by (simp add: ServerMessage_enc_def)
  note h = h [simplified append_Cons append_Nil append_assoc]
  note g0 = get_uint8_at [OF h]
  note g1 = get_uint32_at [OF g0(2)]
  note g2 = get_uint16_at [OF g1(2)]
  note g3 = get_uint16_at [OF g2(2)]
  note g4 = get_string_at [OF g3(2) f4]
  note g5 = get_string_at [OF g4(2) f5]
  note g6 = get_bytes_at [OF g5(2) f6]
  have "\<not> length ?d < 15" by (simp add: ServerMessage_enc_def)
  then show ?thesis
    by (simp only: ServerMessage_Unmarshal_def if_False bindE.simps prod.case g0(1) g1(1) g2(1) g3(1) g4(1) g5(1) g6(1))
       (simp add: ServerMessage_enc_def)
qed

lemma ServerMessage_marshal_fits: "ServerMessage_fits m \<Longrightarrow> ServerMessage_Marshal m buf = Val (buf @ ServerMessage_enc m)"
  by (simp add: ServerMessage_Marshal_def ServerMessage_fits_def ServerMessage_enc_def wire_simps append_defs)

lemma ServerMessage_marshal_unfit: "\<not> ServerMessage_fits m \<Longrightarrow> \<not> returns (ServerMessage_Marshal m buf)"
  by (auto simp: ServerMessage_Marshal_def ServerMessage_fits_def wire_simps append_defs)

lemma ServerMessage_unmarshal_D:
  assumes "ServerMessage_Unmarshal r data = Inr (m, n)"
  shows "n \<le> length data \<and> ServerMessage_fits m \<and> ServerMessage_enc m = take n data"
  using assms
  by (auto simp: ServerMessage_Unmarshal_def ServerMessage_fits_def ServerMessage_enc_def go_simps split: if_splits dest!: get_D)

interpretation serverMessage: canonical_message ServerMessage_Marshal ServerMessage_Unmarshal ServerMessage_fits ServerMessage_enc
  by unfold_locales
     (auto simp: ServerMessage_marshal_fits ServerMessage_marshal_unfit ServerMessage_unmarshal_enc dest: ServerMessage_unmarshal_D,
      simp add: ServerMessage_enc_def enc_string_def le16_def le64_def)

subsection \<open>AuthResult\<close>

definition AuthResult_enc :: "AuthResult \<Rightarrow> bytes" where
  "AuthResult_enc m =
     enc_string (ar_SessionID m) @ enc_string (ar_UserID m)"

definition AuthResult_fits :: "AuthResult \<Rightarrow> bool" where
  "AuthResult_fits m \<longleftrightarrow> fits16 (ar_SessionID m) \<and> fits16 (ar_UserID m)"

lemma AuthResult_unmarshal_enc:
  assumes "AuthResult_fits m"
  shows "AuthResult_Unmarshal r (AuthResult_enc m @ rest) = Inr (m, length (AuthResult_enc m))"
proof -
  let ?d = "AuthResult_enc m @ rest"
  have f0: "fits16 (ar_SessionID m)" and f1: "fits16 (ar_UserID m)"
    using assms by (simp_all add: AuthResult_fits_def)
  have h: "at ?d 0 (enc_string (ar_SessionID m) @ enc_string (ar_UserID m) @ rest)"
    by (simp add: AuthResult_enc_def)
  note h = h [simplified append_Cons append_Nil append_assoc]
  note g0 = get_string_at [OF h f0]
  note g1 = get_string_at [OF g0(2) f1]
  have "\<not> length ?d < 4" by (simp add: AuthResult_enc_def)
  then show ?thesis
    by (simp only: AuthResult_Unmarshal_def if_False bindE.simps prod.case g0(1) g1(1))
       (simp add: AuthResult_enc_def)
qed

lemma AuthResult_marshal_fits: "AuthResult_fits m \<Longrightarrow> AuthResult_Marshal m buf = Val (buf @ AuthResult_enc m)"
  by (simp add: AuthResult_Marshal_def AuthResult_fits_def AuthResult_enc_def wire_simps append_defs)

lemma AuthResult_marshal_unfit: "\<not> AuthResult_fits m \<Longrightarrow> \<not> returns (AuthResult_Marshal m buf)"
  by (auto simp: AuthResult_Marshal_def AuthResult_fits_def wire_simps append_defs)

lemma AuthResult_unmarshal_D:
  assumes "AuthResult_Unmarshal r data = Inr (m, n)"
  shows "n \<le> length data \<and> AuthResult_fits m \<and> AuthResult_enc m = take n data"
  using assms
  by (auto simp: AuthResult_Unmarshal_def AuthResult_fits_def AuthResult_enc_def go_simps split: if_splits dest!: get_D)

interpretation authResult: canonical_message AuthResult_Marshal AuthResult_Unmarshal AuthResult_fits AuthResult_enc
  by unfold_locales
     (auto simp: AuthResult_marshal_fits AuthResult_marshal_unfit AuthResult_unmarshal_enc dest: AuthResult_unmarshal_D,
      simp add: AuthResult_enc_def enc_string_def le16_def le64_def)

subsection \<open>CreateRoomRequest\<close>

definition CreateRoomRequest_enc :: "CreateRoomRequest \<Rightarrow> bytes" where
  "CreateRoomRequest_enc m =
     enc_string (crr_Name m) @ enc_string (crr_Type m) @ le16 (crr_MaxPlayers m) @
     [crr_SingletonMode m] @ le16 (of_nat (length (crr_Options m))) @ concat (map
     CreateOption_enc (crr_Options m))"

definition CreateRoomRequest_fits :: "CreateRoomRequest \<Rightarrow> bool" where
  "CreateRoomRequest_fits m \<longleftrightarrow> fits16 (crr_Name m) \<and> fits16 (crr_Type m) \<and> fits16 (crr_Options m) \<and>
     list_all CreateOption_fits (crr_Options m)"

lemma CreateRoomRequest_unmarshal_enc:
  assumes "CreateRoomRequest_fits m"
  shows "CreateRoomRequest_Unmarshal r (CreateRoomRequest_enc m @ rest) = Inr (m, length (CreateRoomRequest_enc m))"
proof -
  let ?d = "CreateRoomRequest_enc m @ rest"
  have f0: "fits16 (crr_Name m)" and f1: "fits16 (crr_Type m)" and f4: "fits16 (crr_Options m)" and e4: "list_all CreateOption_fits (crr_Options m)"
    using assms by (simp_all add: CreateRoomRequest_fits_def)
  have h: "at ?d 0 (enc_string (crr_Name m) @ enc_string (crr_Type m) @ le16 (crr_MaxPlayers m) @
        [crr_SingletonMode m] @ le16 (of_nat (length (crr_Options m))) @ concat (map
        CreateOption_enc (crr_Options m)) @ rest)"
    by (simp add: CreateRoomRequest_enc_def)
  note h = h [simplified append_Cons append_Nil append_assoc]
  note g0 = get_string_at [OF h f0]
  note g1 = get_string_at [OF g0(2) f1]
  note g2 = get_uint16_at [OF g1(2)]
  note g3 = get_uint8_at [OF g2(2)]
  note g4 = get_uint16_at [OF g3(2)]
  note l4 = createOption.unmarshal_all_at [OF g4(2) e4 length_resize]
  have "\<not> length ?d < 9" by (simp add: CreateRoomRequest_enc_def)
  then show ?thesis
    by (simp only: CreateRoomRequest_Unmarshal_def if_False bindE.simps prod.case g0(1) g1(1) g2(1) g3(1) g4(1) l4 unat_length16 [OF f4])
       (simp add: CreateRoomRequest_enc_def)
qed

lemma CreateRoomRequest_marshal_fits: "CreateRoomRequest_fits m \<Longrightarrow> CreateRoomRequest_Marshal m buf = Val (buf @ CreateRoomRequest_enc m)"
  by (simp add: CreateRoomRequest_Marshal_def CreateRoomRequest_fits_def CreateRoomRequest_enc_def wire_simps append_defs createOption.marshal_all_Val)

lemma CreateRoomRequest_marshal_unfit: "\<not> CreateRoomRequest_fits m \<Longrightarrow> \<not> returns (CreateRoomRequest_Marshal m buf)"
  by (auto simp: CreateRoomRequest_Marshal_def CreateRoomRequest_fits_def wire_simps append_defs createOption.marshal_all_unfit Let_def)

lemma CreateRoomRequest_unmarshal_D:
  assumes "CreateRoomRequest_Unmarshal r data = Inr (m, n)"
  shows "n \<le> length data \<and> CreateRoomRequest_fits m \<and> CreateRoomRequest_enc m = take n data"
  using assms
  by (auto simp: CreateRoomRequest_Unmarshal_def CreateRoomRequest_fits_def CreateRoomRequest_enc_def
        go_simps fits16_def unat_uint16_le
      split: if_splits dest!: get_D createOption.unmarshal_all_D)

interpretation createRoomRequest: canonical_message CreateRoomRequest_Marshal CreateRoomRequest_Unmarshal CreateRoomRequest_fits CreateRoomRequest_enc
  by unfold_locales
     (auto simp: CreateRoomRequest_marshal_fits CreateRoomRequest_marshal_unfit CreateRoomRequest_unmarshal_enc dest: CreateRoomRequest_unmarshal_D,
      simp add: CreateRoomRequest_enc_def enc_string_def le16_def le64_def)

subsection \<open>JoinRoomRequest\<close>

definition JoinRoomRequest_enc :: "JoinRoomRequest \<Rightarrow> bytes" where
  "JoinRoomRequest_enc m =
     enc_string (jr_RoomID m)"

definition JoinRoomRequest_fits :: "JoinRoomRequest \<Rightarrow> bool" where
  "JoinRoomRequest_fits m \<longleftrightarrow> fits16 (jr_RoomID m)"

lemma JoinRoomRequest_unmarshal_enc:
  assumes "JoinRoomRequest_fits m"
  shows "JoinRoomRequest_Unmarshal r (JoinRoomRequest_enc m @ rest) = Inr (m, length (JoinRoomRequest_enc m))"
proof -
  let ?d = "JoinRoomRequest_enc m @ rest"
  have f0: "fits16 (jr_RoomID m)"
    using assms by (simp_all add: JoinRoomRequest_fits_def)
  have h: "at ?d 0 (enc_string (jr_RoomID m) @ rest)"
    by (simp add: JoinRoomRequest_enc_def)
  note h = h [simplified append_Cons append_Nil append_assoc]
  note g0 = get_string_at [OF h f0]
  have "\<not> length ?d < 2" by (simp add: JoinRoomRequest_enc_def)
  then show ?thesis
    by (simp only: JoinRoomRequest_Unmarshal_def if_False bindE.simps prod.case g0(1))
       (simp add: JoinRoomRequest_enc_def)
qed

lemma JoinRoomRequest_marshal_fits: "JoinRoomRequest_fits m \<Longrightarrow> JoinRoomRequest_Marshal m buf = Val (buf @ JoinRoomRequest_enc m)"
  by (simp add: JoinRoomRequest_Marshal_def JoinRoomRequest_fits_def JoinRoomRequest_enc_def wire_simps append_defs)

lemma JoinRoomRequest_marshal_unfit: "\<not> JoinRoomRequest_fits m \<Longrightarrow> \<not> returns (JoinRoomRequest_Marshal m buf)"
  by (auto simp: JoinRoomRequest_Marshal_def JoinRoomRequest_fits_def wire_simps append_defs)

lemma JoinRoomRequest_unmarshal_D:
  assumes "JoinRoomRequest_Unmarshal r data = Inr (m, n)"
  shows "n \<le> length data \<and> JoinRoomRequest_fits m \<and> JoinRoomRequest_enc m = take n data"
  using assms
  by (auto simp: JoinRoomRequest_Unmarshal_def JoinRoomRequest_fits_def JoinRoomRequest_enc_def go_simps split: if_splits dest!: get_D)

interpretation joinRoomRequest: canonical_message JoinRoomRequest_Marshal JoinRoomRequest_Unmarshal JoinRoomRequest_fits JoinRoomRequest_enc
  by unfold_locales
     (auto simp: JoinRoomRequest_marshal_fits JoinRoomRequest_marshal_unfit JoinRoomRequest_unmarshal_enc dest: JoinRoomRequest_unmarshal_D,
      simp add: JoinRoomRequest_enc_def enc_string_def le16_def le64_def)

subsection \<open>LeaveRoomRequest\<close>

definition LeaveRoomRequest_enc :: "LeaveRoomRequest \<Rightarrow> bytes" where
  "LeaveRoomRequest_enc m =
     enc_string (lr_RoomID m)"

definition LeaveRoomRequest_fits :: "LeaveRoomRequest \<Rightarrow> bool" where
  "LeaveRoomRequest_fits m \<longleftrightarrow> fits16 (lr_RoomID m)"

lemma LeaveRoomRequest_unmarshal_enc:
  assumes "LeaveRoomRequest_fits m"
  shows "LeaveRoomRequest_Unmarshal r (LeaveRoomRequest_enc m @ rest) = Inr (m, length (LeaveRoomRequest_enc m))"
proof -
  let ?d = "LeaveRoomRequest_enc m @ rest"
  have f0: "fits16 (lr_RoomID m)"
    using assms by (simp_all add: LeaveRoomRequest_fits_def)
  have h: "at ?d 0 (enc_string (lr_RoomID m) @ rest)"
    by (simp add: LeaveRoomRequest_enc_def)
  note h = h [simplified append_Cons append_Nil append_assoc]
  note g0 = get_string_at [OF h f0]
  have "\<not> length ?d < 2" by (simp add: LeaveRoomRequest_enc_def)
  then show ?thesis
    by (simp only: LeaveRoomRequest_Unmarshal_def if_False bindE.simps prod.case g0(1))
       (simp add: LeaveRoomRequest_enc_def)
qed

lemma LeaveRoomRequest_marshal_fits: "LeaveRoomRequest_fits m \<Longrightarrow> LeaveRoomRequest_Marshal m buf = Val (buf @ LeaveRoomRequest_enc m)"
  by (simp add: LeaveRoomRequest_Marshal_def LeaveRoomRequest_fits_def LeaveRoomRequest_enc_def wire_simps append_defs)

lemma LeaveRoomRequest_marshal_unfit: "\<not> LeaveRoomRequest_fits m \<Longrightarrow> \<not> returns (LeaveRoomRequest_Marshal m buf)"
  by (auto simp: LeaveRoomRequest_Marshal_def LeaveRoomRequest_fits_def wire_simps append_defs)

lemma LeaveRoomRequest_unmarshal_D:
  assumes "LeaveRoomRequest_Unmarshal r data = Inr (m, n)"
  shows "n \<le> length data \<and> LeaveRoomRequest_fits m \<and> LeaveRoomRequest_enc m = take n data"
  using assms
  by (auto simp: LeaveRoomRequest_Unmarshal_def LeaveRoomRequest_fits_def LeaveRoomRequest_enc_def go_simps split: if_splits dest!: get_D)

interpretation leaveRoomRequest: canonical_message LeaveRoomRequest_Marshal LeaveRoomRequest_Unmarshal LeaveRoomRequest_fits LeaveRoomRequest_enc
  by unfold_locales
     (auto simp: LeaveRoomRequest_marshal_fits LeaveRoomRequest_marshal_unfit LeaveRoomRequest_unmarshal_enc dest: LeaveRoomRequest_unmarshal_D,
      simp add: LeaveRoomRequest_enc_def enc_string_def le16_def le64_def)

subsection \<open>RoomInfo\<close>

definition RoomInfo_enc :: "RoomInfo \<Rightarrow> bytes" where
  "RoomInfo_enc m =
     enc_string (ri_ID m) @ enc_string (ri_Name m) @ enc_string (ri_Type m) @ le16
     (ri_MaxPlayers m) @ le16 (ri_PlayerCount m) @ [if ri_IsOpen m then 1 else 0] @
     [ri_SingletonMode m]"

definition RoomInfo_fits :: "RoomInfo \<Rightarrow> bool" where
  "RoomInfo_fits m \<longleftrightarrow> fits16 (ri_ID m) \<and> fits16 (ri_Name m) \<and> fits16 (ri_Type m)"

lemma RoomInfo_unmarshal_enc:
  assumes "RoomInfo_fits m"
  shows "RoomInfo_Unmarshal r (RoomInfo_enc m @ rest) = Inr (m, length (RoomInfo_enc m))"
proof -
  let ?d = "RoomInfo_enc m @ rest"
  have f0: "fits16 (ri_ID m)" and f1: "fits16 (ri_Name m)" and f2: "fits16 (ri_Type m)"
    using assms by (simp_all add: RoomInfo_fits_def)
  have h: "at ?d 0 (enc_string (ri_ID m) @ enc_string (ri_Name m) @ enc_string (ri_Type m) @ le16
        (ri_MaxPlayers m) @ le16 (ri_PlayerCount m) @ ([if ri_IsOpen m then 1 else 0]) @
        [ri_SingletonMode m] @ rest)"
    by (simp add: RoomInfo_enc_def)
  note h = h [simplified append_Cons append_Nil append_assoc]
  note g0 = get_string_at [OF h f0]
  note g1 = get_string_at [OF g0(2) f1]
  note g2 = get_string_at [OF g1(2) f2]
  note g3 = get_uint16_at [OF g2(2)]
  note g4 = get_uint16_at [OF g3(2)]
  note g5 = get_uint8_at [OF g4(2)]
  note g6 = get_uint8_at [OF g5(2)]
  have "\<not> length ?d < 12" by (simp add: RoomInfo_enc_def)
  then show ?thesis
    by (simp only: RoomInfo_Unmarshal_def if_False bindE.simps prod.case g0(1) g1(1) g2(1) g3(1) g4(1) g5(1) g6(1))
       (simp add: RoomInfo_enc_def)
qed

lemma RoomInfo_marshal_fits: "RoomInfo_fits m \<Longrightarrow> RoomInfo_Marshal m buf = Val (buf @ RoomInfo_enc m)"
  by (simp add: RoomInfo_Marshal_def RoomInfo_fits_def RoomInfo_enc_def wire_simps append_defs)

lemma RoomInfo_marshal_unfit: "\<not> RoomInfo_fits m \<Longrightarrow> \<not> returns (RoomInfo_Marshal m buf)"
  by (auto simp: RoomInfo_Marshal_def RoomInfo_fits_def wire_simps append_defs)

lemma RoomInfo_unmarshal_D:
  assumes "RoomInfo_Unmarshal r data = Inr (m, n)"
  shows "n \<le> length data \<and> RoomInfo_fits m"
  using assms
  by (auto simp: RoomInfo_Unmarshal_def RoomInfo_fits_def RoomInfo_enc_def go_simps split: if_splits dest!: get_D)

interpretation roomInfo: wire_message RoomInfo_Marshal RoomInfo_Unmarshal RoomInfo_fits RoomInfo_enc
  by unfold_locales
     (auto simp: RoomInfo_marshal_fits RoomInfo_marshal_unfit RoomInfo_unmarshal_enc dest: RoomInfo_unmarshal_D,
      simp add: RoomInfo_enc_def enc_string_def le16_def le64_def)

subsection \<open>RoomList\<close>

definition RoomList_enc :: "RoomList \<Rightarrow> bytes" where
  "RoomList_enc m =
     le16 (of_nat (length (rl_Rooms m))) @ concat (map RoomInfo_enc (rl_Rooms m))"

definition RoomList_fits :: "RoomList \<Rightarrow> bool" where
  "RoomList_fits m \<longleftrightarrow> fits16 (rl_Rooms m) \<and> list_all RoomInfo_fits (rl_Rooms m)"

lemma RoomList_unmarshal_enc:
  assumes "RoomList_fits m"
  shows "RoomList_Unmarshal r (RoomList_enc m @ rest) = Inr (m, length (RoomList_enc m))"
proof -
  let ?d = "RoomList_enc m @ rest"
  have f0: "fits16 (rl_Rooms m)" and e0: "list_all RoomInfo_fits (rl_Rooms m)"
    using assms by (simp_all add: RoomList_fits_def)
  have h: "at ?d 0 (le16 (of_nat (length (rl_Rooms m))) @ concat (map RoomInfo_enc (rl_Rooms m)) @ rest)"
    by (simp add: RoomList_enc_def)
  note h = h [simplified append_Cons append_Nil append_assoc]
  note g0 = get_uint16_at [OF h]
  note l0 = roomInfo.unmarshal_all_at [OF g0(2) e0 length_resize]
  have "\<not> length ?d < 2" by (simp add: RoomList_enc_def)
  then show ?thesis
    by (simp only: RoomList_Unmarshal_def if_False bindE.simps prod.case g0(1) l0 unat_length16 [OF f0])
       (simp add: RoomList_enc_def)
qed

lemma RoomList_marshal_fits: "RoomList_fits m \<Longrightarrow> RoomList_Marshal m buf = Val (buf @ RoomList_enc m)"
  by (simp add: RoomList_Marshal_def RoomList_fits_def RoomList_enc_def wire_simps append_defs roomInfo.marshal_all_Val)

lemma RoomList_marshal_unfit: "\<not> RoomList_fits m \<Longrightarrow> \<not> returns (RoomList_Marshal m buf)"
  by (auto simp: RoomList_Marshal_def RoomList_fits_def wire_simps append_defs roomInfo.marshal_all_unfit Let_def)

lemma RoomList_unmarshal_D:
  assumes "RoomList_Unmarshal r data = Inr (m, n)"
  shows "n \<le> length data \<and> RoomList_fits m"
  using assms
  by (auto simp: RoomList_Unmarshal_def RoomList_fits_def go_simps fits16_def unat_uint16_le
      split: if_splits dest!: get_D dest: roomInfo.unmarshal_all_bound)

interpretation roomList: wire_message RoomList_Marshal RoomList_Unmarshal RoomList_fits RoomList_enc
  by unfold_locales
     (auto simp: RoomList_marshal_fits RoomList_marshal_unfit RoomList_unmarshal_enc dest: RoomList_unmarshal_D,
      simp add: RoomList_enc_def enc_string_def le16_def le64_def)

subsection \<open>PlayerJoined\<close>

definition PlayerJoined_enc :: "PlayerJoined \<Rightarrow> bytes" where
  "PlayerJoined_enc m =
     le64 (pj_PlayerID m) @ enc_string (pj_UserID m)"

definition PlayerJoined_fits :: "PlayerJoined \<Rightarrow> bool" where
  "PlayerJoined_fits m \<longleftrightarrow> fits16 (pj_UserID m)"

lemma PlayerJoined_unmarshal_enc:
  assumes "PlayerJoined_fits m"
  shows "PlayerJoined_Unmarshal r (PlayerJoined_enc m @ rest) = Inr (m, length (PlayerJoined_enc m))"
proof -
  let ?d = "PlayerJoined_enc m @ rest"
  have f1: "fits16 (pj_UserID m)"
    using assms by (simp_all add: PlayerJoined_fits_def)
  have h: "at ?d 0 (le64 (pj_PlayerID m) @ enc_string (pj_UserID m) @ rest)"
    by (simp add: PlayerJoined_enc_def)
  note h = h [simplified append_Cons append_Nil append_assoc]
  note g0 = get_uint64_at [OF h]
  note g1 = get_string_at [OF g0(2) f1]
  have "\<not> length ?d < 10" by (simp add: PlayerJoined_enc_def)
  then show ?thesis
    by (simp only: PlayerJoined_Unmarshal_def if_False bindE.simps prod.case g0(1) g1(1))
       (simp add: PlayerJoined_enc_def)
qed

lemma PlayerJoined_marshal_fits: "PlayerJoined_fits m \<Longrightarrow> PlayerJoined_Marshal m buf = Val (buf @ PlayerJoined_enc m)"
  by (simp add: PlayerJoined_Marshal_def PlayerJoined_fits_def PlayerJoined_enc_def wire_simps append_defs)

lemma PlayerJoined_marshal_unfit: "\<not> PlayerJoined_fits m \<Longrightarrow> \<not> returns (PlayerJoined_Marshal m buf)"
  by (auto simp: PlayerJoined_Marshal_def PlayerJoined_fits_def wire_simps append_defs)

lemma PlayerJoined_unmarshal_D:
  assumes "PlayerJoined_Unmarshal r data = Inr (m, n)"
  shows "n \<le> length data \<and> PlayerJoined_fits m \<and> PlayerJoined_enc m = take n data"
  using assms
  by (auto simp: PlayerJoined_Unmarshal_def PlayerJoined_fits_def PlayerJoined_enc_def go_simps split: if_splits dest!: get_D)

interpretation playerJoined: canonical_message PlayerJoined_Marshal PlayerJoined_Unmarshal PlayerJoined_fits PlayerJoined_enc
  by unfold_locales
     (auto simp: PlayerJoined_marshal_fits PlayerJoined_marshal_unfit PlayerJoined_unmarshal_enc dest: PlayerJoined_unmarshal_D,
      simp add: PlayerJoined_enc_def enc_string_def le16_def le64_def)

subsection \<open>PlayerLeft\<close>

definition PlayerLeft_enc :: "PlayerLeft \<Rightarrow> bytes" where
  "PlayerLeft_enc m =
     le64 (plf_PlayerID m)"

definition PlayerLeft_fits :: "PlayerLeft \<Rightarrow> bool" where
  "PlayerLeft_fits m \<longleftrightarrow> True"

lemma PlayerLeft_unmarshal_enc:
  assumes "PlayerLeft_fits m"
  shows "PlayerLeft_Unmarshal r (PlayerLeft_enc m @ rest) = Inr (m, length (PlayerLeft_enc m))"
proof -
  let ?d = "PlayerLeft_enc m @ rest"
  have h: "at ?d 0 (le64 (plf_PlayerID m) @ rest)"
    by (simp add: PlayerLeft_enc_def)
  note h = h [simplified append_Cons append_Nil append_assoc]
  note g0 = get_uint64_at [OF h]
  have "\<not> length ?d < 8" by (simp add: PlayerLeft_enc_def)
  then show ?thesis
    by (simp only: PlayerLeft_Unmarshal_def if_False bindE.simps prod.case g0(1))
       (simp add: PlayerLeft_enc_def)
qed

lemma PlayerLeft_marshal_fits: "PlayerLeft_fits m \<Longrightarrow> PlayerLeft_Marshal m buf = Val (buf @ PlayerLeft_enc m)"
  by (simp add: PlayerLeft_Marshal_def PlayerLeft_fits_def PlayerLeft_enc_def wire_simps append_defs)

lemma PlayerLeft_marshal_unfit: "\<not> PlayerLeft_fits m \<Longrightarrow> \<not> returns (PlayerLeft_Marshal m buf)"
  by (simp add: PlayerLeft_fits_def)

lemma PlayerLeft_unmarshal_D:
  assumes "PlayerLeft_Unmarshal r data = Inr (m, n)"
  shows "n \<le> length data \<and> PlayerLeft_fits m \<and> PlayerLeft_enc m = take n data"
  using assms
  by (auto simp: PlayerLeft_Unmarshal_def PlayerLeft_fits_def PlayerLeft_enc_def go_simps split: if_splits dest!: get_D)

interpretation playerLeft: canonical_message PlayerLeft_Marshal PlayerLeft_Unmarshal PlayerLeft_fits PlayerLeft_enc
  by unfold_locales
     (auto simp: PlayerLeft_marshal_fits PlayerLeft_marshal_unfit PlayerLeft_unmarshal_enc dest: PlayerLeft_unmarshal_D,
      simp add: PlayerLeft_enc_def enc_string_def le16_def le64_def)

subsection \<open>Kicked\<close>

definition Kicked_enc :: "Kicked \<Rightarrow> bytes" where
  "Kicked_enc m =
     enc_string (kd_Reason m) @ enc_string (kd_RoomID m)"

definition Kicked_fits :: "Kicked \<Rightarrow> bool" where
  "Kicked_fits m \<longleftrightarrow> fits16 (kd_Reason m) \<and> fits16 (kd_RoomID m)"

lemma Kicked_unmarshal_enc:
  assumes "Kicked_fits m"
  shows "Kicked_Unmarshal r (Kicked_enc m @ rest) = Inr (m, length (Kicked_enc m))"
proof -
  let ?d = "Kicked_enc m @ rest"
  have f0: "fits16 (kd_Reason m)" and f1: "fits16 (kd_RoomID m)"
    using assms by (simp_all add: Kicked_fits_def)
  have h: "at ?d 0 (enc_string (kd_Reason m) @ enc_string (kd_RoomID m) @ rest)"
    by (simp add: Kicked_enc_def)
  note h = h [simplified append_Cons append_Nil append_assoc]
  note g0 = get_string_at [OF h f0]
  note g1 = get_string_at [OF g0(2) f1]
  have "\<not> length ?d < 4" by (simp add: Kicked_enc_def)
  then show ?thesis
    by (simp only: Kicked_Unmarshal_def if_False bindE.simps prod.case g0(1) g1(1))
       (simp add: Kicked_enc_def)
qed

lemma Kicked_marshal_fits: "Kicked_fits m \<Longrightarrow> Kicked_Marshal m buf = Val (buf @ Kicked_enc m)"
  by (simp add: Kicked_Marshal_def Kicked_fits_def Kicked_enc_def wire_simps append_defs)

lemma Kicked_marshal_unfit: "\<not> Kicked_fits m \<Longrightarrow> \<not> returns (Kicked_Marshal m buf)"
  by (auto simp: Kicked_Marshal_def Kicked_fits_def wire_simps append_defs)

lemma Kicked_unmarshal_D:
  assumes "Kicked_Unmarshal r data = Inr (m, n)"
  shows "n \<le> length data \<and> Kicked_fits m \<and> Kicked_enc m = take n data"
  using assms
  by (auto simp: Kicked_Unmarshal_def Kicked_fits_def Kicked_enc_def go_simps split: if_splits dest!: get_D)

interpretation kicked: canonical_message Kicked_Marshal Kicked_Unmarshal Kicked_fits Kicked_enc
  by unfold_locales
     (auto simp: Kicked_marshal_fits Kicked_marshal_unfit Kicked_unmarshal_enc dest: Kicked_unmarshal_D,
      simp add: Kicked_enc_def enc_string_def le16_def le64_def)

subsection \<open>RoomRemoved\<close>

definition RoomRemoved_enc :: "RoomRemoved \<Rightarrow> bytes" where
  "RoomRemoved_enc m =
     enc_string (rr_ID m)"

definition RoomRemoved_fits :: "RoomRemoved \<Rightarrow> bool" where
  "RoomRemoved_fits m \<longleftrightarrow> fits16 (rr_ID m)"

lemma RoomRemoved_unmarshal_enc:
  assumes "RoomRemoved_fits m"
  shows "RoomRemoved_Unmarshal r (RoomRemoved_enc m @ rest) = Inr (m, length (RoomRemoved_enc m))"
proof -
  let ?d = "RoomRemoved_enc m @ rest"
  have f0: "fits16 (rr_ID m)"
    using assms by (simp_all add: RoomRemoved_fits_def)
  have h: "at ?d 0 (enc_string (rr_ID m) @ rest)"
    by (simp add: RoomRemoved_enc_def)
  note h = h [simplified append_Cons append_Nil append_assoc]
  note g0 = get_string_at [OF h f0]
  have "\<not> length ?d < 2" by (simp add: RoomRemoved_enc_def)
  then show ?thesis
    by (simp only: RoomRemoved_Unmarshal_def if_False bindE.simps prod.case g0(1))
       (simp add: RoomRemoved_enc_def)
qed

lemma RoomRemoved_marshal_fits: "RoomRemoved_fits m \<Longrightarrow> RoomRemoved_Marshal m buf = Val (buf @ RoomRemoved_enc m)"
  by (simp add: RoomRemoved_Marshal_def RoomRemoved_fits_def RoomRemoved_enc_def wire_simps append_defs)

lemma RoomRemoved_marshal_unfit: "\<not> RoomRemoved_fits m \<Longrightarrow> \<not> returns (RoomRemoved_Marshal m buf)"
  by (auto simp: RoomRemoved_Marshal_def RoomRemoved_fits_def wire_simps append_defs)

lemma RoomRemoved_unmarshal_D:
  assumes "RoomRemoved_Unmarshal r data = Inr (m, n)"
  shows "n \<le> length data \<and> RoomRemoved_fits m \<and> RoomRemoved_enc m = take n data"
  using assms
  by (auto simp: RoomRemoved_Unmarshal_def RoomRemoved_fits_def RoomRemoved_enc_def go_simps split: if_splits dest!: get_D)

interpretation roomRemoved: canonical_message RoomRemoved_Marshal RoomRemoved_Unmarshal RoomRemoved_fits RoomRemoved_enc
  by unfold_locales
     (auto simp: RoomRemoved_marshal_fits RoomRemoved_marshal_unfit RoomRemoved_unmarshal_enc dest: RoomRemoved_unmarshal_D,
      simp add: RoomRemoved_enc_def enc_string_def le16_def le64_def)

end
