(* ===== verification/Codec.thy ===== *)
theory Codec
  imports Schema_Props
begin

text \<open>
  \<^verbatim>\<open>protocol/codec.go\<close> and \<^verbatim>\<open>protocol/error.go\<close>: the error values of the program, the
  payload encoders \<open>Encode\<close> and \<open>Decode\<close>, and \<open>Call\<close>, which adapts a typed handler to raw
  payloads. The generic type parameters of the Go code (a message type with its pointer methods)
  are arguments: the zero value, the \<open>Unmarshal\<close> method, the \<open>Marshal\<close> method of the response and
  the optional \<open>Validate\<close> method.
\<close>

section \<open>Errors\<close>

text \<open>
  Every error value the program makes or passes on: the sentinels of \<^verbatim>\<open>room/errors.go\<close>,
  \<open>protocol.Error\<close>, any other error by its text, and an error that wraps another one (as a
  handler of a game may return it).
\<close>

datatype goerror =
    ErrRoomNotFound
  | ErrRoomFull
  | ErrRoomClosed
  | ErrAlreadyInRoomOfType
  | ErrNotInRoom
  | ErrAmbiguousRoom
  | ProtocolError int string
  | OtherError string
  | WrapError string goerror

definition NewError :: "int \<Rightarrow> string \<Rightarrow> goerror" where
  "NewError code message = ProtocolError code message"

fun error_text :: "goerror \<Rightarrow> string" where
  "error_text ErrRoomNotFound = ''room not found''"
| "error_text ErrRoomFull = ''room is full''"
| "error_text ErrRoomClosed = ''room is closed''"
| "error_text ErrAlreadyInRoomOfType = ''already in a room of this type''"
| "error_text ErrNotInRoom = ''not in a room that handles this opcode''"
| "error_text ErrAmbiguousRoom = ''multiple joined rooms handle this opcode''"
| "error_text (ProtocolError code message) = message"
| "error_text (OtherError message) = message"
| "error_text (WrapError prefix e) = prefix @ error_text e"

section \<open>Encode and Decode\<close>

text \<open>A value of the interface \<open>Marshaler\<close>: nil, or something with a \<open>Marshal\<close> method.\<close>

type_synonym marshaler = "(bytes \<Rightarrow> bytes outcome) option"

definition UserMethodOpBase :: nat where
  "UserMethodOpBase = 100"

definition UserEventOpBase :: nat where
  "UserEventOpBase = 100"

definition Encode :: "marshaler \<Rightarrow> bytes outcome" where
  "Encode m = (case m of None \<Rightarrow> Val [] | Some marshal \<Rightarrow> marshal [])"

definition Decode :: "'t \<Rightarrow> ('t \<Rightarrow> bytes \<Rightarrow> string + ('t \<times> nat)) \<Rightarrow> bytes \<Rightarrow> goerror + 't" where
  "Decode zero unmarshal data =
     (if length data = 0 then Inr zero
      else case unmarshal zero data of Inl e \<Rightarrow> Inl (OtherError e) | Inr (v, n) \<Rightarrow> Inr v)"

section \<open>Call\<close>

text \<open>
  The handler \<open>fn\<close> may act on its surroundings; what it does is a list of actions \<open>'a\<close>, empty when
  \<open>fn\<close> does not run. A nil response (\<open>None\<close>) becomes a nil \<open>Marshaler\<close>.
\<close>

definition Call ::
  "'req \<Rightarrow> ('req \<Rightarrow> bytes \<Rightarrow> string + ('req \<times> nat)) \<Rightarrow> ('req \<Rightarrow> goerror option) option \<Rightarrow>
   ('resp \<Rightarrow> bytes \<Rightarrow> bytes outcome) \<Rightarrow> bytes \<Rightarrow>
   ('req \<Rightarrow> 'a list \<times> (goerror + 'resp option)) \<Rightarrow> 'a list \<times> (goerror + marshaler)" where
  "Call zero unmarshal validate marshal payload fn =
     (case Decode zero unmarshal payload of
        Inl err \<Rightarrow> ([], Inl (NewError 400 ''invalid payload''))
      | Inr req \<Rightarrow>
          (case (case validate of None \<Rightarrow> None | Some v \<Rightarrow> v req) of
             Some err \<Rightarrow> ([], Inl (NewError 400 (error_text err)))
           | None \<Rightarrow>
               (let (acts, res) = fn req in
                (acts, case res of
                         Inl err \<Rightarrow> Inl err
                       | Inr None \<Rightarrow> Inr None
                       | Inr (Some resp) \<Rightarrow> Inr (Some (marshal resp))))))"

section \<open>Lemmas\<close>

lemma Encode_nil [simp]: "Encode None = Val []"
  by (simp add: Encode_def)

lemma Decode_empty [simp]: "Decode zero unmarshal [] = Inr zero"
  by (simp add: Decode_def)

text \<open>The payload laws of every message type, from its wire contract alone.\<close>

context wire_message
begin

lemma Encode_returns_iff: "returns (Encode (Some (marshal m))) \<longleftrightarrow> fits m"
  by (simp add: Encode_def marshal_returns_iff)

lemma Encode_eq: "Encode (Some (marshal m)) = Val p \<longleftrightarrow> fits m \<and> p = enc m"
  by (auto simp: Encode_def marshal_Val_iff)

lemma Decode_enc: "fits m \<Longrightarrow> Decode zero unmarshal (enc m @ junk) = Inr m"
  by (simp add: Decode_def unmarshal_enc enc_nonempty)

lemma Decode_Encode: "Encode (Some (marshal m)) = Val p \<Longrightarrow> Decode zero unmarshal p = Inr m"
  using Decode_enc [of m zero "[]"] by (simp add: Encode_eq)

lemma Decode_fits: "Decode zero unmarshal data = Inr m \<Longrightarrow> data \<noteq> [] \<Longrightarrow> fits m"
  using unmarshal_bound by (auto simp: Decode_def split: sum.splits)

lemma Call_decoded:
  "fits m \<Longrightarrow> fst (Call zero unmarshal None rmarshal (enc m) fn) = fst (fn m)"
  using Decode_enc [of m zero "[]"] by (simp add: Call_def split: prod.splits)

end

lemma Call_acts_only_if_valid:
  "fst (Call zero unmarshal validate marshal payload fn) \<noteq> [] \<Longrightarrow>
     \<exists>req. Decode zero unmarshal payload = Inr req \<and>
       (\<forall>v. validate = Some v \<longrightarrow> v req = None) \<and>
       fst (Call zero unmarshal validate marshal payload fn) = fst (fn req)"
  by (auto simp: Call_def split: sum.splits option.splits prod.splits)

end
