(* ===== verification/Protocol_Theorems.thy ===== *)
theory Protocol_Theorems
  imports Codec
begin

text \<open>
  The properties of the wire protocol, each from the interpretation of the message contract on the
  type's own \<open>Marshal\<close> and \<open>Unmarshal\<close>.
\<close>

text \<open>C14: a client envelope whose strings and payload are at most 65535 bytes long is
  marshalled onto the end of any buffer, and \<open>Unmarshal\<close> recovers it from those bytes, whatever
  follows them and whatever the receiver held, and reports their number. \<open>Marshal\<close> panics on any
  other envelope.\<close>

theorem client_message_wire:
  "if fits16 (cm_Token m) \<and> fits16 (cm_Channel m) \<and> fits16 (cm_Payload m)
   then \<exists>p. ClientMessage_Marshal m buf = Val (buf @ p) \<and>
     ClientMessage_Unmarshal r (p @ rest) = Inr (m, length p)
   else \<not> returns (ClientMessage_Marshal m buf)"
  using clientMessage.marshal_fits [of m buf] clientMessage.marshal_unfit [of m buf]
    clientMessage.unmarshal_enc [of m r rest]
  by (auto simp: ClientMessage_fits_def)

text \<open>The same for server envelopes.\<close>

lemma server_message_wire:
  "if fits16 (sm_Channel m) \<and> fits16 (sm_Error m) \<and> fits16 (sm_Payload m)
   then \<exists>p. ServerMessage_Marshal m buf = Val (buf @ p) \<and>
     ServerMessage_Unmarshal r (p @ rest) = Inr (m, length p)
   else \<not> returns (ServerMessage_Marshal m buf)"
  using serverMessage.marshal_fits [of m buf] serverMessage.marshal_unfit [of m buf]
    serverMessage.unmarshal_enc [of m r rest]
  by (auto simp: ServerMessage_fits_def)

text \<open>The same for the request that creates a room, whose options are a nested list: all strings
  of the request and of its options must fit, and there may be at most 65535 options.\<close>

lemma create_room_request_wire:
  "if fits16 (crr_Name m) \<and> fits16 (crr_Type m) \<and> fits16 (crr_Options m) \<and>
      list_all (\<lambda>o'. fits16 (co_Key o') \<and> fits16 (co_Value o')) (crr_Options m)
   then \<exists>p. CreateRoomRequest_Marshal m buf = Val (buf @ p) \<and>
     CreateRoomRequest_Unmarshal r (p @ rest) = Inr (m, length p)
   else \<not> returns (CreateRoomRequest_Marshal m buf)"
  using createRoomRequest.marshal_fits [of m buf] createRoomRequest.marshal_unfit [of m buf]
    createRoomRequest.unmarshal_enc [of m r rest]
  by (auto simp: CreateRoomRequest_fits_def CreateOption_fits_def [abs_def])

text \<open>The same for the list of rooms of the lobby.\<close>

lemma room_list_wire:
  "if fits16 (rl_Rooms m) \<and>
      list_all (\<lambda>i. fits16 (ri_ID i) \<and> fits16 (ri_Name i) \<and> fits16 (ri_Type i)) (rl_Rooms m)
   then \<exists>p. RoomList_Marshal m buf = Val (buf @ p) \<and>
     RoomList_Unmarshal r (p @ rest) = Inr (m, length p)
   else \<not> returns (RoomList_Marshal m buf)"
  using roomList.marshal_fits [of m buf] roomList.marshal_unfit [of m buf]
    roomList.unmarshal_enc [of m r rest]
  by (auto simp: RoomList_fits_def RoomInfo_fits_def [abs_def])

text \<open>C36: whatever bytes a peer sends, if \<open>Unmarshal\<close> accepts a client envelope then it used no more
  bytes than there are, and marshalling the envelope gives exactly the bytes it used: an envelope
  has one encoding.\<close>

theorem client_message_canonical:
  assumes "ClientMessage_Unmarshal r data = Inr (m, n)"
  shows "n \<le> length data \<and> ClientMessage_Marshal m [] = Val (take n data)"
  using clientMessage.unmarshal_bound [OF assms] clientMessage.remarshal [OF assms] by simp

definition ping_bytes :: bytes where
  "ping_bytes = [0, 7,0,0,0, 0,0, 0,0, 0,0, 0,0, 99]"

lemma ping_decoded:
  "ClientMessage_Unmarshal ClientMessage_zero ping_bytes =
     Inr (\<lparr>cm_Type = 0, cm_ID = 7, cm_Op = 0, cm_Token = [], cm_Channel = [], cm_Payload = []\<rparr>, 13)"
  by code_simp

theorem client_message_canonical_witness:
  "ClientMessage_Marshal \<lparr>cm_Type = 0, cm_ID = 7, cm_Op = 0, cm_Token = [], cm_Channel = [], cm_Payload = []\<rparr> [] =
     Val [0, 7,0,0,0, 0,0, 0,0, 0,0, 0,0]"
  using client_message_canonical [OF ping_decoded] by (simp add: ping_bytes_def)

text \<open>The encodings of two server envelopes are told apart wherever they stand in a stream: if
  two streams that start with them are equal then so are the envelopes and the rests.\<close>

lemma server_message_unambiguous:
  assumes "ServerMessage_Marshal m [] = Val p" "ServerMessage_Marshal m' [] = Val p'"
    and "p @ rest = p' @ rest'"
  shows "m = m' \<and> rest = rest'"
  using assms serverMessage.enc_prefix_free [of m m' rest rest']
  by (simp add: serverMessage.marshal_Val_iff)

text \<open>The payloads of the small requests and events survive the wire: a message that can be
  marshalled is recovered from its bytes by the \<open>Unmarshal\<close> of its type, whatever follows.\<close>

lemma payloads_wire:
  "(AuthResult_Marshal m1 buf = Val (buf @ p) \<longrightarrow> AuthResult_Unmarshal r1 (p @ rest) = Inr (m1, length p)) \<and>
   (JoinRoomRequest_Marshal m2 buf = Val (buf @ p) \<longrightarrow> JoinRoomRequest_Unmarshal r2 (p @ rest) = Inr (m2, length p)) \<and>
   (LeaveRoomRequest_Marshal m3 buf = Val (buf @ p) \<longrightarrow> LeaveRoomRequest_Unmarshal r3 (p @ rest) = Inr (m3, length p)) \<and>
   (RoomInfo_Marshal m4 buf = Val (buf @ p) \<longrightarrow> RoomInfo_Unmarshal r4 (p @ rest) = Inr (m4, length p)) \<and>
   (PlayerJoined_Marshal m5 buf = Val (buf @ p) \<longrightarrow> PlayerJoined_Unmarshal r5 (p @ rest) = Inr (m5, length p)) \<and>
   (PlayerLeft_Marshal m6 buf = Val (buf @ p) \<longrightarrow> PlayerLeft_Unmarshal r6 (p @ rest) = Inr (m6, length p)) \<and>
   (Kicked_Marshal m7 buf = Val (buf @ p) \<longrightarrow> Kicked_Unmarshal r7 (p @ rest) = Inr (m7, length p)) \<and>
   (RoomRemoved_Marshal m8 buf = Val (buf @ p) \<longrightarrow> RoomRemoved_Unmarshal r8 (p @ rest) = Inr (m8, length p))"
  by (simp add: authResult.marshal_Val_iff authResult.unmarshal_enc
      joinRoomRequest.marshal_Val_iff joinRoomRequest.unmarshal_enc
      leaveRoomRequest.marshal_Val_iff leaveRoomRequest.unmarshal_enc
      roomInfo.marshal_Val_iff roomInfo.unmarshal_enc
      playerJoined.marshal_Val_iff playerJoined.unmarshal_enc
      playerLeft.marshal_Val_iff playerLeft.unmarshal_enc
      kicked.marshal_Val_iff kicked.unmarshal_enc
      roomRemoved.marshal_Val_iff roomRemoved.unmarshal_enc)

text \<open>A typed handler never sees a payload its request type does not accept, nor a request its
  \<open>Validate\<close> method rejects: whatever the call does outside, \<open>Decode\<close> produced the request the
  handler got, and validation passed it.\<close>

lemma call_acts_only_on_valid_requests:
  assumes "fst (Call zero unmarshal validate marshal payload fn) \<noteq> []"
  shows "\<exists>req. Decode zero unmarshal payload = Inr req \<and>
    (case validate of None \<Rightarrow> True | Some v \<Rightarrow> v req = None) \<and>
    fst (Call zero unmarshal validate marshal payload fn) = fst (fn req)"
  using Call_acts_only_if_valid [OF assms] by (auto split: option.splits)

end
