(* ===== verification/Go_Map.thy ===== *)
theory Go_Map
  imports Go_Prelude "HOL-Library.AList"
begin

text \<open>
  Go's \<open>map[K]V\<close> as an association list whose keys are distinct. The list fixes an order of
  the entries, and \<open>range\<close> visits them in that order; Go leaves the order open, which the
  theorems respect by quantifying over every list with distinct keys, hence over every order.
  Two locales state what a keyed store promises its clients; they are interpreted here on the
  map operations, and in the theories of the session store and the command registry on theirs.
\<close>

section \<open>Maps\<close>

type_synonym ('k, 'v) gomap = "('k \<times> 'v) list"

definition mempty :: "('k, 'v) gomap" where
  "mempty = []"

definition mget :: "('k, 'v) gomap \<Rightarrow> 'k \<Rightarrow> 'v option" where
  "mget m k = map_of m k"

definition mput :: "'k \<Rightarrow> 'v \<Rightarrow> ('k, 'v) gomap \<Rightarrow> ('k, 'v) gomap" where
  "mput k v m = AList.update k v m"

definition mdel :: "'k \<Rightarrow> ('k, 'v) gomap \<Rightarrow> ('k, 'v) gomap" where
  "mdel k m = AList.delete k m"

definition mlen :: "('k, 'v) gomap \<Rightarrow> nat" where
  "mlen m = length m"

definition mkeys :: "('k, 'v) gomap \<Rightarrow> 'k list" where
  "mkeys m = map fst m"

definition mvals :: "('k, 'v) gomap \<Rightarrow> 'v list" where
  "mvals m = map snd m"

definition mhas :: "('k, 'v) gomap \<Rightarrow> 'k \<Rightarrow> bool" where
  "mhas m k \<longleftrightarrow> mget m k \<noteq> None"

definition mwf :: "('k, 'v) gomap \<Rightarrow> bool" where
  "mwf m \<longleftrightarrow> distinct (map fst m)"

lemmas map_defs = mempty_def mget_def mput_def mdel_def mlen_def mkeys_def mvals_def

subsection \<open>Lookup\<close>

lemma mget_mempty [simp]: "mget mempty k = None"
  by (simp add: map_defs)

lemma mget_Nil [simp]: "mget [] k = None"
  by (simp add: map_defs)

lemma mget_mput [simp]: "mget (mput k v m) = (mget m)(k \<mapsto> v)"
  by (simp add: map_defs update_conv' fun_eq_iff)

lemma mget_mdel [simp]: "mget (mdel k m) = (mget m)(k := None)"
  by (simp add: map_defs delete_conv' fun_eq_iff)

lemma mhas_mput [simp]: "mhas (mput k v m) k' \<longleftrightarrow> k' = k \<or> mhas m k'"
  by (simp add: mhas_def)

lemma mhas_mdel [simp]: "mhas (mdel k m) k' \<longleftrightarrow> k' \<noteq> k \<and> mhas m k'"
  by (simp add: mhas_def)

lemma mhas_mempty [simp]: "\<not> mhas mempty k" and mhas_Nil [simp]: "\<not> mhas [] k"
  by (simp_all add: mhas_def)

lemma mhas_iff_keys: "mhas m k \<longleftrightarrow> k \<in> set (mkeys m)"
  by (simp add: mhas_def map_defs map_of_eq_None_iff)

lemma mget_SomeD: "mget m k = Some v \<Longrightarrow> (k, v) \<in> set m"
  by (simp add: mget_def map_of_SomeD)

lemma mget_in: "mwf m \<Longrightarrow> (k, v) \<in> set m \<Longrightarrow> mget m k = Some v"
  by (simp add: mget_def mwf_def map_of_is_SomeI)

lemma mget_eq_Some_iff: "mwf m \<Longrightarrow> mget m k = Some v \<longleftrightarrow> (k, v) \<in> set m"
  by (auto intro: mget_SomeD mget_in)

subsection \<open>Well-formedness\<close>

lemma mwf_mempty [simp, intro]: "mwf mempty" and mwf_Nil [simp, intro]: "mwf []"
  by (simp_all add: mwf_def map_defs)

lemma mwf_mput [simp, intro]: "mwf m \<Longrightarrow> mwf (mput k v m)"
  by (simp add: mwf_def map_defs distinct_update)

lemma mwf_mdel [simp, intro]: "mwf m \<Longrightarrow> mwf (mdel k m)"
  by (simp add: mwf_def map_defs distinct_delete)

subsection \<open>Sizes\<close>

lemma mlen_mempty [simp]: "mlen mempty = 0" and mlen_Nil [simp]: "mlen [] = 0"
  by (simp_all add: map_defs)

lemma mlen_mput: "mlen (mput k v m) = (if mhas m k then mlen m else Suc (mlen m))"
  by (induction m) (auto simp: mhas_def map_defs)

lemma mlen_mdel: "mwf m \<Longrightarrow> mlen (mdel k m) = (if mhas m k then mlen m - 1 else mlen m)"
proof (induction m)
  case Nil
  then show ?case by (simp add: map_defs mhas_def)
next
  case (Cons e m)
  obtain k' v' where e: "e = (k', v')" by (cases e)
  have m: "mwf m" and notin: "k' \<notin> fst ` set m"
    using Cons.prems e by (auto simp: mwf_def)
  show ?case
  proof (cases "k' = k")
    case True
    with notin have "AList.delete k m = m" by (simp add: delete_id)
    with True e show ?thesis by (simp add: map_defs mhas_def AList.delete_eq)
  next
    case False
    moreover have "mhas m k \<Longrightarrow> 0 < length m"
      by (cases m) (auto simp: mhas_def map_defs)
    ultimately show ?thesis using Cons.IH [OF m] e
      by (auto simp: map_defs mhas_def AList.delete_eq)
  qed
qed

lemma mlen_mdel_le: "mlen (mdel k m) \<le> mlen m"
  by (simp add: map_defs AList.delete_eq)

lemma mlen_pos: "mhas m k \<Longrightarrow> 0 < mlen m"
  by (cases m) (auto simp: mhas_def map_defs)

lemma mput_not_Nil [simp]: "mput k v m \<noteq> []"
  using mlen_pos [of "mput k v m" k] by auto

lemma mput_mput [simp]: "mput k v (mput k v' m) = mput k v m"
  by (simp add: map_defs)

lemma mlen_0_iff [simp]: "mlen m = 0 \<longleftrightarrow> m = []"
  by (simp add: map_defs)

lemma mlen_0_get: "mlen m = 0 \<longleftrightarrow> (\<forall>k. mget m k = None)"
proof
  assume "\<forall>k. mget m k = None"
  then have "\<not> mhas m k" for k by (simp add: mhas_def)
  then show "mlen m = 0"
    by (cases m) (auto simp: mhas_iff_keys map_defs)
qed simp

lemma length_mkeys [simp]: "length (mkeys m) = mlen m"
  and length_mvals [simp]: "length (mvals m) = mlen m"
  by (simp_all add: map_defs)

lemma distinct_mkeys: "mwf m \<Longrightarrow> distinct (mkeys m)"
  by (simp add: mwf_def map_defs)

lemma mlen_card: "mwf m \<Longrightarrow> mlen m = card (dom (mget m))"
proof -
  assume "mwf m"
  then have "card (set (mkeys m)) = length (mkeys m)"
    by (intro distinct_card distinct_mkeys)
  moreover have "set (mkeys m) = dom (mget m)"
    by (auto simp: mhas_iff_keys [symmetric] mhas_def)
  ultimately show ?thesis by simp
qed

lemma set_mvals: "mwf m \<Longrightarrow> set (mvals m) = ran (mget m)"
  by (force simp: map_defs mwf_def ran_def map_of_eq_Some_iff)

section \<open>Interfaces\<close>

text \<open>A table that is written and read by key.\<close>

locale lookup_table =
  fixes empty :: 'm
    and put :: "'k \<Rightarrow> 'v \<Rightarrow> 'm \<Rightarrow> 'm"
    and get :: "'m \<Rightarrow> 'k \<Rightarrow> 'v option"
    and wf :: "'m \<Rightarrow> bool"
  assumes get_empty: "get empty k = None"
    and get_put: "wf m \<Longrightarrow> get (put k v m) k' = (if k' = k then Some v else get m k')"
    and wf_empty: "wf empty"
    and wf_put: "wf m \<Longrightarrow> wf (put k v m)"
begin

text \<open>Writing a sequence of entries: the last entry of a key wins.\<close>

lemma wf_fold_put: "wf m \<Longrightarrow> wf (fold (\<lambda>(k, v). put k v) kvs m)"
  by (induction kvs arbitrary: m) (auto simp: wf_put)

lemma get_fold_put:
  "wf m \<Longrightarrow> get (fold (\<lambda>(k, v). put k v) kvs m) k =
     (case map_of (rev kvs) k of None \<Rightarrow> get m k | Some v \<Rightarrow> Some v)"
proof (induction kvs arbitrary: m)
  case Nil
  then show ?case by simp
next
  case (Cons e kvs)
  then show ?case
    by (cases e) (auto simp: wf_put get_put map_add_def split: option.splits)
qed

lemma get_written: "get (fold (\<lambda>(k, v). put k v) kvs empty) k = map_of (rev kvs) k"
  by (simp add: get_fold_put wf_empty get_empty split: option.splits)

end

text \<open>A table that also forgets.\<close>

locale kv_store = lookup_table empty put get wf
  for empty :: 'm and put :: "'k \<Rightarrow> 'v \<Rightarrow> 'm \<Rightarrow> 'm" and get :: "'m \<Rightarrow> 'k \<Rightarrow> 'v option" and wf +
  fixes del :: "'k \<Rightarrow> 'm \<Rightarrow> 'm"
  assumes get_del: "wf m \<Longrightarrow> get (del k m) k' = (if k' = k then None else get m k')"
    and wf_del: "wf m \<Longrightarrow> wf (del k m)"
begin

lemma get_del_put: "wf m \<Longrightarrow> get (del k (put k v m)) k' = get (del k m) k'"
  by (simp add: get_del get_put wf_put)

lemma get_put_del: "wf m \<Longrightarrow> get (put k v (del k m)) k' = get (put k v m) k'"
  by (simp add: get_del get_put wf_del)

lemma wf_fold_del: "wf m \<Longrightarrow> wf (fold del ks m)"
  by (induction ks arbitrary: m) (auto simp: wf_del)

lemma get_fold_del: "wf m \<Longrightarrow> get (fold del ks m) k = (if k \<in> set ks then None else get m k)"
  by (induction ks arbitrary: m) (auto simp: wf_del get_del)

end

interpretation gm: kv_store mempty mput mget mwf mdel
  by unfold_locales auto

end
