(* ===== verification/Event_Bus.thy ===== *)
theory Event_Bus
  imports Codec Go_Map
begin

text \<open>
  The package \<^verbatim>\<open>eventbus\<close>: events, topics and the bus. Topics are heap objects shared by
  reference, because \<open>Subscribe\<close> and \<open>Unsubscribe\<close> compare topic instances: the bus maps a
  name to a reference, and \<open>eb_heap\<close> maps a reference to the topic's subscribers. A \<open>Subscriber\<close> is
  known by its \<open>ID()\<close>; its \<open>Send\<close> method is an argument of the operations that deliver.
  The operations here are whole calls; \<^verbatim>\<open>Event_Bus_Race.thy\<close> interleaves their atomic parts.
\<close>

section \<open>Events\<close>

record Event =
  ev_Op :: uint16
  ev_Payload :: bytes

definition NewEvent :: "uint16 \<Rightarrow> marshaler \<Rightarrow> Event outcome" where
  "NewEvent op msg = bindO (Encode msg) (\<lambda>p. Val \<lparr>ev_Op = op, ev_Payload = p\<rparr>)"

definition NewEventBytes :: "uint16 \<Rightarrow> bytes \<Rightarrow> Event" where
  "NewEventBytes op payload = \<lparr>ev_Op = op, ev_Payload = payload\<rparr>"

section \<open>Topics\<close>

record Subscriber =
  sub_ID :: uint64

type_synonym Topic = "(uint64, Subscriber) gomap"

definition newTopic :: Topic where
  "newTopic = mempty"

definition Topic_add :: "Subscriber \<Rightarrow> Topic \<Rightarrow> Topic" where
  "Topic_add sub t = mput (sub_ID sub) sub t"

definition Topic_remove :: "Subscriber \<Rightarrow> Topic \<Rightarrow> Topic" where
  "Topic_remove sub t = mdel (sub_ID sub) t"

definition Topic_isEmpty :: "Topic \<Rightarrow> bool" where
  "Topic_isEmpty t \<longleftrightarrow> mlen t = 0"

text \<open>
  \<open>Send\<close> acts on a world \<open>'w\<close> and may panic (the \<open>string option\<close>) after part of its effects;
  \<open>deliver\<close> recovers the panic, so the world it left behind is kept and the loop goes on.
\<close>

type_synonym 'w send = "Subscriber \<Rightarrow> string \<Rightarrow> Event \<Rightarrow> 'w \<Rightarrow> 'w \<times> string option"

definition Topic_deliver :: "'w send \<Rightarrow> string \<Rightarrow> Event \<Rightarrow> Subscriber \<Rightarrow> 'w \<Rightarrow> 'w" where
  "Topic_deliver send topic event sub w =
     (case send sub topic event w of (w', None) \<Rightarrow> w' | (w', Some panic) \<Rightarrow> w')"

definition Topic_send :: "'w send \<Rightarrow> Topic \<Rightarrow> string \<Rightarrow> Event \<Rightarrow> 'w \<Rightarrow> 'w" where
  "Topic_send send t topic event w =
     (let subs = mvals t in fold (Topic_deliver send topic event) subs w)"

section \<open>The bus\<close>

record EventBus =
  eb_topics :: "(string, nat) gomap"
  eb_heap :: "nat \<Rightarrow> Topic"
  eb_next :: nat

definition EventBus_New :: EventBus where
  "EventBus_New = \<lparr>eb_topics = mempty, eb_heap = (\<lambda>_. newTopic), eb_next = 0\<rparr>"

text \<open>\<open>sync.Map.LoadOrStore\<close>: the stored instance, or a fresh one that is stored now.\<close>

definition getTopic :: "string \<Rightarrow> EventBus \<Rightarrow> nat \<times> EventBus" where
  "getTopic name b =
     (case mget (eb_topics b) name of
        Some t \<Rightarrow> (t, b)
      | None \<Rightarrow> let t = eb_next b in
          (t, b\<lparr>eb_topics := mput name t (eb_topics b),
                eb_heap := (eb_heap b)(t := newTopic), eb_next := Suc t\<rparr>))"

definition update_topic :: "nat \<Rightarrow> (Topic \<Rightarrow> Topic) \<Rightarrow> EventBus \<Rightarrow> EventBus" where
  "update_topic t f b = b\<lparr>eb_heap := (eb_heap b)(t := f (eb_heap b t))\<rparr>"

text \<open>\<open>sync.Map.CompareAndDelete\<close>: deletes the name only while it maps to this instance.\<close>

definition CompareAndDelete :: "string \<Rightarrow> nat \<Rightarrow> EventBus \<Rightarrow> EventBus" where
  "CompareAndDelete name t b =
     (if mget (eb_topics b) name = Some t then b\<lparr>eb_topics := mdel name (eb_topics b)\<rparr> else b)"

lemma getTopic_stored: "getTopic name b = (t, b') \<Longrightarrow> mget (eb_topics b') name = Some t"
  by (auto simp: getTopic_def Let_def split: option.splits)

lemma update_topic_topics [simp]: "eb_topics (update_topic t f b) = eb_topics b"
  by (simp add: update_topic_def)

text \<open>The retry loop. Within one call nothing else runs, so the first check succeeds.\<close>

function Subscribe :: "string \<Rightarrow> Subscriber \<Rightarrow> EventBus \<Rightarrow> EventBus" where
  "Subscribe topic sub b =
     (case getTopic topic b of (t, b1) \<Rightarrow>
        let b2 = update_topic t (Topic_add sub) b1 in
        if mget (eb_topics b2) topic = Some t then b2
        else Subscribe topic sub (update_topic t (Topic_remove sub) b2))"
  by pat_completeness auto
termination
  by (relation "{}") (auto dest: getTopic_stored [OF sym])

declare Subscribe.simps [simp del]

definition Unsubscribe :: "string \<Rightarrow> Subscriber \<Rightarrow> EventBus \<Rightarrow> EventBus" where
  "Unsubscribe topic sub b =
     (case mget (eb_topics b) topic of
        None \<Rightarrow> b
      | Some t \<Rightarrow>
          let b1 = update_topic t (Topic_remove sub) b in
          if Topic_isEmpty (eb_heap b1 t) then CompareAndDelete topic t b1 else b1)"

definition Publish :: "'w send \<Rightarrow> string \<Rightarrow> Event \<Rightarrow> EventBus \<Rightarrow> 'w \<Rightarrow> 'w" where
  "Publish send topic event b w =
     (case mget (eb_topics b) topic of
        None \<Rightarrow> w
      | Some t \<Rightarrow> Topic_send send (eb_heap b t) topic event w)"

section \<open>Invariant\<close>

text \<open>
  Names map to distinct live instances, every instance holds its subscribers under their own IDs,
  and no stored topic is empty.
\<close>

definition topic_wf :: "Topic \<Rightarrow> bool" where
  "topic_wf t \<longleftrightarrow> mwf t \<and> (\<forall>i s. mget t i = Some s \<longrightarrow> sub_ID s = i)"

definition bus_wf :: "EventBus \<Rightarrow> bool" where
  "bus_wf b \<longleftrightarrow> mwf (eb_topics b) \<and>
     (\<forall>n t. mget (eb_topics b) n = Some t \<longrightarrow> t < eb_next b \<and> eb_heap b t \<noteq> []) \<and>
     (\<forall>n n' t. mget (eb_topics b) n = Some t \<longrightarrow> mget (eb_topics b) n' = Some t \<longrightarrow> n = n') \<and>
     (\<forall>t. topic_wf (eb_heap b t))"

lemma topic_wf_new [simp]: "topic_wf newTopic"
  by (simp add: topic_wf_def newTopic_def)

lemma topic_wf_Nil [simp]: "topic_wf []"
  by (simp add: topic_wf_def)

lemma topic_wf_add [simp]: "topic_wf t \<Longrightarrow> topic_wf (Topic_add s t)"
  by (auto simp: topic_wf_def Topic_add_def)

lemma topic_wf_remove [simp]: "topic_wf t \<Longrightarrow> topic_wf (Topic_remove s t)"
  by (auto simp: topic_wf_def Topic_remove_def)

lemma Topic_add_nonempty [simp]: "Topic_add s t \<noteq> []"
  using mlen_pos [of "Topic_add s t" "sub_ID s"] by (auto simp: Topic_add_def)

lemma Topic_isEmpty_iff [simp]: "Topic_isEmpty t \<longleftrightarrow> t = []"
  by (simp add: Topic_isEmpty_def)

lemma Subscribe_eq:
  "Subscribe topic sub b =
     (case mget (eb_topics b) topic of
        Some t \<Rightarrow> update_topic t (Topic_add sub) b
      | None \<Rightarrow> b\<lparr>eb_topics := mput topic (eb_next b) (eb_topics b),
                 eb_heap := (eb_heap b)(eb_next b := Topic_add sub newTopic),
                 eb_next := Suc (eb_next b)\<rparr>)"
  by (subst Subscribe.simps)
     (auto simp: getTopic_def update_topic_def Let_def split: option.splits)

lemma bus_wf_New [simp]: "bus_wf EventBus_New"
  by (simp add: bus_wf_def EventBus_New_def)

lemma bus_wf_Subscribe [simp, intro]: "bus_wf b \<Longrightarrow> bus_wf (Subscribe topic sub b)"
  by (cases "mget (eb_topics b) topic")
     (auto simp: bus_wf_def Subscribe_eq update_topic_def less_Suc_eq split: if_splits)

lemma bus_wf_Unsubscribe [simp, intro]: "bus_wf b \<Longrightarrow> bus_wf (Unsubscribe topic sub b)"
  by (cases "mget (eb_topics b) topic")
     (auto simp: bus_wf_def Unsubscribe_def CompareAndDelete_def update_topic_def Let_def
       split: if_splits)

section \<open>What the bus promises\<close>

text \<open>The abstract bus: for every topic name, the set of subscribed IDs.\<close>

definition bus_view :: "EventBus \<Rightarrow> string \<Rightarrow> uint64 set" where
  "bus_view b name =
     (case mget (eb_topics b) name of None \<Rightarrow> {} | Some t \<Rightarrow> set (mkeys (eb_heap b t)))"

lemma set_mkeys_add [simp]: "set (mkeys (Topic_add s t)) = insert (sub_ID s) (set (mkeys t))"
  by (auto simp: mhas_iff_keys [symmetric] Topic_add_def)

lemma set_mkeys_remove [simp]: "set (mkeys (Topic_remove s t)) = set (mkeys t) - {sub_ID s}"
  by (auto simp: mhas_iff_keys [symmetric] Topic_remove_def)

lemma mkeys_newTopic [simp]: "mkeys newTopic = []"
  by (simp add: newTopic_def map_defs)

lemma mkeys_Nil [simp]: "mkeys [] = []"
  by (simp add: map_defs)

lemma bus_view_New: "bus_view EventBus_New name = {}"
  by (simp add: bus_view_def EventBus_New_def)

lemma bus_wf_inj:
  "bus_wf b \<Longrightarrow> mget (eb_topics b) n = Some t \<Longrightarrow> mget (eb_topics b) n' = Some t \<Longrightarrow> n = n'"
  by (auto simp: bus_wf_def)

lemma bus_wf_less: "bus_wf b \<Longrightarrow> mget (eb_topics b) n = Some t \<Longrightarrow> t < eb_next b"
  by (auto simp: bus_wf_def)

lemma bus_view_Subscribe:
  assumes "bus_wf b"
  shows "bus_view (Subscribe topic sub b) name =
     (if name = topic then insert (sub_ID sub) (bus_view b name) else bus_view b name)"
  using bus_wf_inj [OF assms, of topic _ name] bus_wf_less [OF assms, of name]
  by (auto simp: bus_view_def Subscribe_eq update_topic_def split: option.splits)

lemma bus_view_Unsubscribe:
  assumes "bus_wf b"
  shows "bus_view (Unsubscribe topic sub b) name =
     (if name = topic then bus_view b name - {sub_ID sub} else bus_view b name)"
proof (cases "mget (eb_topics b) topic")
  case None
  then show ?thesis by (auto simp: bus_view_def Unsubscribe_def)
next
  case (Some t)
  have gone: "set (mkeys (eb_heap b t)) - {sub_ID sub} = {}"
    if "Topic_remove sub (eb_heap b t) = []"
    using that set_mkeys_remove [of sub "eb_heap b t"] by simp
  have other: "mget (eb_topics b) name \<noteq> Some t" if "name \<noteq> topic"
    using bus_wf_inj [OF assms Some] that by blast
  show ?thesis
  proof (cases "Topic_remove sub (eb_heap b t) = []")
    case True
    with Some gone other show ?thesis
      by (auto simp: bus_view_def Unsubscribe_def CompareAndDelete_def update_topic_def Let_def
          split: option.splits)
  next
    case False
    with Some other show ?thesis
      by (auto simp: bus_view_def Unsubscribe_def update_topic_def Let_def split: option.splits)
  qed
qed

lemma topics_stored_iff:
  "bus_wf b \<Longrightarrow> mhas (eb_topics b) name \<longleftrightarrow> bus_view b name \<noteq> {}"
  by (auto simp: bus_wf_def bus_view_def mhas_def map_defs split: option.splits)

subsection \<open>The contract as a locale\<close>

datatype bus_op = OSub string Subscriber | OUnsub string Subscriber

fun bus_run :: "bus_op list \<Rightarrow> EventBus \<Rightarrow> EventBus" where
  "bus_run [] b = b"
| "bus_run (OSub t s # ops) b = bus_run ops (Subscribe t s b)"
| "bus_run (OUnsub t s # ops) b = bus_run ops (Unsubscribe t s b)"

text \<open>Whether the last operation on a topic and an ID was a subscription.\<close>

fun last_sub :: "string \<Rightarrow> uint64 \<Rightarrow> bool \<Rightarrow> bus_op list \<Rightarrow> bool" where
  "last_sub t i d [] = d"
| "last_sub t i d (OSub t' s # ops) = last_sub t i (if t' = t \<and> sub_ID s = i then True else d) ops"
| "last_sub t i d (OUnsub t' s # ops) = last_sub t i (if t' = t \<and> sub_ID s = i then False else d) ops"

locale pub_sub =
  fixes new :: 'b
    and subscribe :: "string \<Rightarrow> Subscriber \<Rightarrow> 'b \<Rightarrow> 'b"
    and unsubscribe :: "string \<Rightarrow> Subscriber \<Rightarrow> 'b \<Rightarrow> 'b"
    and view :: "'b \<Rightarrow> string \<Rightarrow> uint64 set"
    and wf :: "'b \<Rightarrow> bool"
  assumes wf_new: "wf new"
    and wf_subscribe: "wf b \<Longrightarrow> wf (subscribe t s b)"
    and wf_unsubscribe: "wf b \<Longrightarrow> wf (unsubscribe t s b)"
    and view_new: "view new t = {}"
    and view_subscribe:
      "wf b \<Longrightarrow> view (subscribe t s b) t' = (if t' = t then insert (sub_ID s) (view b t') else view b t')"
    and view_unsubscribe:
      "wf b \<Longrightarrow> view (unsubscribe t s b) t' = (if t' = t then view b t' - {sub_ID s} else view b t')"
begin

lemma subscribe_idem: "wf b \<Longrightarrow> view (subscribe t s (subscribe t s b)) t' = view (subscribe t s b) t'"
  by (simp add: view_subscribe wf_subscribe)

lemma unsubscribe_subscribe:
  "wf b \<Longrightarrow> view (unsubscribe t s (subscribe t s b)) t' = view (unsubscribe t s b) t'"
  by (simp add: view_subscribe view_unsubscribe wf_subscribe)

end

interpretation eb: pub_sub EventBus_New Subscribe Unsubscribe bus_view bus_wf
  by unfold_locales
     (auto simp: bus_view_New bus_view_Subscribe bus_view_Unsubscribe)

lemma bus_wf_run: "bus_wf b \<Longrightarrow> bus_wf (bus_run ops b)"
  by (induction ops b rule: bus_run.induct) auto

lemma bus_view_run:
  "bus_wf b \<Longrightarrow> i \<in> bus_view (bus_run ops b) t \<longleftrightarrow> last_sub t i (i \<in> bus_view b t) ops"
  by (induction ops b rule: bus_run.induct)
     (auto simp: eb.view_subscribe eb.view_unsubscribe eb.wf_subscribe eb.wf_unsubscribe)

subsection \<open>Delivery\<close>

lemma Topic_deliver_eq: "Topic_deliver send topic ev sub w = fst (send sub topic ev w)"
  by (auto simp: Topic_deliver_def split: prod.splits option.splits)

lemma Topic_send_eq:
  "Topic_send send t topic ev w = fold (\<lambda>s w. fst (send s topic ev w)) (mvals t) w"
  by (simp add: Topic_send_def Topic_deliver_eq [abs_def])

lemma mvals_ids: "topic_wf t \<Longrightarrow> map sub_ID (mvals t) = mkeys t"
proof -
  assume wf: "topic_wf t"
  have "sub_ID (snd e) = fst e" if "e \<in> set t" for e
    using wf that by (cases e) (auto simp: topic_wf_def mget_eq_Some_iff)
  then show ?thesis by (auto simp: map_defs)
qed

text \<open>The subscribers a publish reaches: each exactly once, and exactly those in the view.\<close>

definition recipients :: "EventBus \<Rightarrow> string \<Rightarrow> Subscriber list" where
  "recipients b topic =
     (case mget (eb_topics b) topic of None \<Rightarrow> [] | Some t \<Rightarrow> mvals (eb_heap b t))"

lemma Publish_eq:
  "Publish send topic ev b w = fold (\<lambda>s w. fst (send s topic ev w)) (recipients b topic) w"
  by (simp add: Publish_def recipients_def Topic_send_eq split: option.splits)

lemma recipients_view:
  assumes "bus_wf b"
  shows "distinct (map sub_ID (recipients b topic))"
    and "set (map sub_ID (recipients b topic)) = bus_view b topic"
proof -
  have "topic_wf (eb_heap b t)" for t using assms by (simp add: bus_wf_def)
  then show "distinct (map sub_ID (recipients b topic))"
    and "set (map sub_ID (recipients b topic)) = bus_view b topic"
    by (auto simp: recipients_def bus_view_def mvals_ids topic_wf_def distinct_mkeys
        simp del: set_map split: option.splits)
qed

end
