(* ===== verification/Event_Bus_Race.thy ===== *)
theory Event_Bus_Race
  imports Event_Bus
begin

text \<open>
  Concurrent calls of \<open>EventBus.Subscribe\<close> and \<open>EventBus.Unsubscribe\<close>. A call is a thread with a
  program counter; a step is one atomic part of a call: a \<open>sync.Map\<close> operation, or a topic operation
  under the topic's lock. Any number of calls run and interleave freely.
\<close>

section \<open>Threads and steps\<close>

datatype pc =
    SubGet \<comment> \<open>before \<open>b.getTopic(topic)\<close>\<close>
  | SubAdd nat \<comment> \<open>before \<open>t.add(sub)\<close>\<close>
  | SubCheck nat \<comment> \<open>before \<open>b.topics.Load(topic)\<close> and the comparison\<close>
  | SubUndo nat \<comment> \<open>before \<open>t.remove(sub)\<close> and the next iteration\<close>
  | SubRet
  | UnsLoad \<comment> \<open>before \<open>b.topics.Load(topic)\<close>\<close>
  | UnsRemove nat \<comment> \<open>before \<open>t.remove(sub)\<close>\<close>
  | UnsIsEmpty nat \<comment> \<open>before \<open>t.isEmpty()\<close>\<close>
  | UnsDelete nat \<comment> \<open>before \<open>b.topics.CompareAndDelete(topic, t)\<close>\<close>
  | UnsRet

datatype thread = Th (th_topic: string) (th_sub: Subscriber) (th_pc: pc)

record sys =
  sy_bus :: EventBus
  sy_threads :: "nat \<rightharpoonup> thread"

definition sys_init :: sys where
  "sys_init = \<lparr>sy_bus = EventBus_New, sy_threads = Map.empty\<rparr>"

definition upd :: "sys \<Rightarrow> nat \<Rightarrow> EventBus \<Rightarrow> thread \<Rightarrow> sys" where
  "upd s i b u = \<lparr>sy_bus = b, sy_threads = (sy_threads s)(i \<mapsto> u)\<rparr>"

lemma upd_sel [simp]:
  "sy_bus (upd s i b u) = b" "sy_threads (upd s i b u) = (sy_threads s)(i \<mapsto> u)"
  by (simp_all add: upd_def)

inductive bus_step :: "sys \<Rightarrow> sys \<Rightarrow> bool" where
  call_sub: "sy_threads s i = None \<Longrightarrow> bus_step s (upd s i (sy_bus s) (Th n x SubGet))"
| call_uns: "sy_threads s i = None \<Longrightarrow> bus_step s (upd s i (sy_bus s) (Th n x UnsLoad))"
| sub_get: "sy_threads s i = Some (Th n x SubGet) \<Longrightarrow> getTopic n (sy_bus s) = (t, b) \<Longrightarrow>
    bus_step s (upd s i b (Th n x (SubAdd t)))"
| sub_add: "sy_threads s i = Some (Th n x (SubAdd t)) \<Longrightarrow>
    bus_step s (upd s i (update_topic t (Topic_add x) (sy_bus s)) (Th n x (SubCheck t)))"
| sub_ok: "sy_threads s i = Some (Th n x (SubCheck t)) \<Longrightarrow>
    mget (eb_topics (sy_bus s)) n = Some t \<Longrightarrow>
    bus_step s (upd s i (sy_bus s) (Th n x SubRet))"
| sub_retry: "sy_threads s i = Some (Th n x (SubCheck t)) \<Longrightarrow>
    mget (eb_topics (sy_bus s)) n \<noteq> Some t \<Longrightarrow>
    bus_step s (upd s i (sy_bus s) (Th n x (SubUndo t)))"
| sub_undo: "sy_threads s i = Some (Th n x (SubUndo t)) \<Longrightarrow>
    bus_step s (upd s i (update_topic t (Topic_remove x) (sy_bus s)) (Th n x SubGet))"
| uns_none: "sy_threads s i = Some (Th n x UnsLoad) \<Longrightarrow>
    mget (eb_topics (sy_bus s)) n = None \<Longrightarrow>
    bus_step s (upd s i (sy_bus s) (Th n x UnsRet))"
| uns_load: "sy_threads s i = Some (Th n x UnsLoad) \<Longrightarrow>
    mget (eb_topics (sy_bus s)) n = Some t \<Longrightarrow>
    bus_step s (upd s i (sy_bus s) (Th n x (UnsRemove t)))"
| uns_remove: "sy_threads s i = Some (Th n x (UnsRemove t)) \<Longrightarrow>
    bus_step s (upd s i (update_topic t (Topic_remove x) (sy_bus s)) (Th n x (UnsIsEmpty t)))"
| uns_nonempty: "sy_threads s i = Some (Th n x (UnsIsEmpty t)) \<Longrightarrow>
    \<not> Topic_isEmpty (eb_heap (sy_bus s) t) \<Longrightarrow>
    bus_step s (upd s i (sy_bus s) (Th n x UnsRet))"
| uns_empty: "sy_threads s i = Some (Th n x (UnsIsEmpty t)) \<Longrightarrow>
    Topic_isEmpty (eb_heap (sy_bus s) t) \<Longrightarrow>
    bus_step s (upd s i (sy_bus s) (Th n x (UnsDelete t)))"
| uns_delete: "sy_threads s i = Some (Th n x (UnsDelete t)) \<Longrightarrow>
    bus_step s (upd s i (CompareAndDelete n t (sy_bus s)) (Th n x UnsRet))"

inductive bus_reach :: "sys \<Rightarrow> bool" where
  reach_init: "bus_reach sys_init"
| reach_step: "bus_reach s \<Longrightarrow> bus_step s s' \<Longrightarrow> bus_reach s'"

text \<open>
  A step that deletes a topic although it has subscribers, and the executions without such a step.
\<close>

definition late_deletion :: "sys \<Rightarrow> sys \<Rightarrow> bool" where
  "late_deletion s s' \<longleftrightarrow>
     (\<exists>n t. mget (eb_topics (sy_bus s)) n = Some t \<and> mget (eb_topics (sy_bus s')) n = None \<and>
        eb_heap (sy_bus s) t \<noteq> [])"

inductive bus_reach_safe :: "sys \<Rightarrow> bool" where
  safe_init: "bus_reach_safe sys_init"
| safe_step: "bus_reach_safe s \<Longrightarrow> bus_step s s' \<Longrightarrow> \<not> late_deletion s s' \<Longrightarrow> bus_reach_safe s'"

lemma bus_reach_safe_reach: "bus_reach_safe s \<Longrightarrow> bus_reach s"
  by (induction rule: bus_reach_safe.induct) (auto intro: bus_reach.intros)

section \<open>Who holds which topic instance\<close>

fun pc_ref :: "pc \<Rightarrow> nat option" where
  "pc_ref (SubAdd t) = Some t"
| "pc_ref (SubCheck t) = Some t"
| "pc_ref (SubUndo t) = Some t"
| "pc_ref (UnsRemove t) = Some t"
| "pc_ref (UnsIsEmpty t) = Some t"
| "pc_ref (UnsDelete t) = Some t"
| "pc_ref _ = None"

text \<open>
  The instances: names map to distinct allocated instances; an instance that a call holds is
  allocated and, if it is current at all, current for the call's own topic; an instance a
  subscriber is about to undo is no longer current for its topic.
\<close>

definition bus_refs_ok :: "EventBus \<Rightarrow> bool" where
  "bus_refs_ok b \<longleftrightarrow>
     (\<forall>n t. mget (eb_topics b) n = Some t \<longrightarrow> t < eb_next b) \<and>
     (\<forall>n n' t. mget (eb_topics b) n = Some t \<longrightarrow> mget (eb_topics b) n' = Some t \<longrightarrow> n = n')"

definition thread_ok :: "EventBus \<Rightarrow> thread \<Rightarrow> bool" where
  "thread_ok b u \<longleftrightarrow>
     (\<forall>t. pc_ref (th_pc u) = Some t \<longrightarrow>
        t < eb_next b \<and> (\<forall>n. mget (eb_topics b) n = Some t \<longrightarrow> n = th_topic u)) \<and>
     (\<forall>t. th_pc u = SubUndo t \<longrightarrow> mget (eb_topics b) (th_topic u) \<noteq> Some t)"

definition refs_inv :: "sys \<Rightarrow> bool" where
  "refs_inv s \<longleftrightarrow> bus_refs_ok (sy_bus s) \<and>
     (\<forall>i u. sy_threads s i = Some u \<longrightarrow> thread_ok (sy_bus s) u)"

lemma refs_inv_init: "refs_inv sys_init"
  by (simp add: refs_inv_def sys_init_def EventBus_New_def bus_refs_ok_def)

lemma refs_inv_upd:
  assumes "refs_inv s" "bus_refs_ok b" "\<And>u. thread_ok (sy_bus s) u \<Longrightarrow> thread_ok b u" "thread_ok b u'"
  shows "refs_inv (upd s i b u')"
  using assms by (auto simp: refs_inv_def upd_def)

lemma refs_ok_update_topic [simp]:
  "bus_refs_ok (update_topic t f b) \<longleftrightarrow> bus_refs_ok b"
  "thread_ok (update_topic t f b) u \<longleftrightarrow> thread_ok b u"
  by (simp_all add: bus_refs_ok_def thread_ok_def update_topic_def)

lemma refs_ok_CompareAndDelete:
  "bus_refs_ok b \<Longrightarrow> bus_refs_ok (CompareAndDelete n t b)"
  "thread_ok b u \<Longrightarrow> thread_ok (CompareAndDelete n t b) u"
  by (auto simp: bus_refs_ok_def thread_ok_def CompareAndDelete_def)

lemma getTopic_cases:
  assumes "getTopic n b = (t, b')"
  shows "(mget (eb_topics b) n = Some t \<and> b' = b) \<or>
    (mget (eb_topics b) n = None \<and> t = eb_next b \<and> eb_topics b' = mput n t (eb_topics b) \<and>
     eb_next b' = Suc t \<and> eb_heap b' = (eb_heap b)(t := newTopic))"
  using assms by (auto simp: getTopic_def Let_def split: option.splits)

lemma refs_ok_alloc:
  assumes "bus_refs_ok b" "mget (eb_topics b) n = None" "t = eb_next b"
    "eb_topics b' = mput n t (eb_topics b)" "eb_next b' = Suc t"
  shows "bus_refs_ok b'" and "thread_ok b u \<Longrightarrow> thread_ok b' u"
    and "thread_ok b' (Th n x (SubAdd t))"
proof -
  have lt: "t' < t" if "mget (eb_topics b) m = Some t'" for m t'
    using assms(1,3) that by (auto simp: bus_refs_ok_def)
  have inj: "m = m'" if "mget (eb_topics b) m = Some t'" "mget (eb_topics b) m' = Some t'" for m m' t'
    using assms(1) that by (auto simp: bus_refs_ok_def)
  show "bus_refs_ok b'"
    unfolding bus_refs_ok_def assms(4,5)
    by (auto split: if_splits intro: inj less_SucI lt dest: lt)
  show "thread_ok b u \<Longrightarrow> thread_ok b' u"
    unfolding thread_ok_def assms(3,4,5) by (auto split: if_splits)
  show "thread_ok b' (Th n x (SubAdd t))"
    unfolding thread_ok_def assms(4,5) by (auto dest: lt)
qed

lemma refs_ok_getTopic:
  assumes "getTopic n b = (t, b')" "bus_refs_ok b"
  shows "bus_refs_ok b'" and "thread_ok b u \<Longrightarrow> thread_ok b' u"
    and "thread_ok b' (Th n x (SubAdd t))"
proof -
  have "bus_refs_ok b' \<and> (thread_ok b u \<longrightarrow> thread_ok b' u) \<and> thread_ok b' (Th n x (SubAdd t))"
    using getTopic_cases [OF assms(1)]
  proof (elim disjE conjE)
    assume "mget (eb_topics b) n = Some t" "b' = b"
    with assms(2) show ?thesis by (simp add: thread_ok_def bus_refs_ok_def)
  next
    assume "mget (eb_topics b) n = None" "t = eb_next b" "eb_topics b' = mput n t (eb_topics b)"
      "eb_next b' = Suc t"
    from refs_ok_alloc [OF assms(2) this] show ?thesis by blast
  qed
  then show "bus_refs_ok b'" "thread_ok b u \<Longrightarrow> thread_ok b' u"
    "thread_ok b' (Th n x (SubAdd t))" by blast+
qed

lemma refs_inv_thread: "refs_inv s \<Longrightarrow> sy_threads s i = Some u \<Longrightarrow> thread_ok (sy_bus s) u"
  by (simp add: refs_inv_def)

lemma refs_inv_bus: "refs_inv s \<Longrightarrow> bus_refs_ok (sy_bus s)"
  by (simp add: refs_inv_def)

text \<open>A call moves on without an instance, or with the one it already holds.\<close>

lemma thread_ok_free: "pc_ref p = None \<Longrightarrow> thread_ok b (Th n x p)"
  by (auto simp: thread_ok_def)

lemma thread_ok_keep:
  "thread_ok b (Th n x p) \<Longrightarrow> pc_ref p' = pc_ref p \<Longrightarrow>
     \<forall>t. p' = SubUndo t \<longrightarrow> mget (eb_topics b) n \<noteq> Some t \<Longrightarrow> thread_ok b (Th n x p')"
  by (auto simp: thread_ok_def)

lemma refs_inv_same_bus:
  "refs_inv s \<Longrightarrow> thread_ok (sy_bus s) u \<Longrightarrow> refs_inv (upd s i (sy_bus s) u)"
  by (auto intro: refs_inv_upd refs_inv_bus)

lemma refs_inv_update_topic:
  "refs_inv s \<Longrightarrow> thread_ok (sy_bus s) u \<Longrightarrow> refs_inv (upd s i (update_topic t f (sy_bus s)) u)"
  by (rule refs_inv_upd) (auto intro: refs_inv_bus)

lemmas refs_intros = refs_inv_same_bus refs_inv_update_topic thread_ok_free

lemma refs_inv_step: "bus_step s s' \<Longrightarrow> refs_inv s \<Longrightarrow> refs_inv s'"
proof (induction rule: bus_step.induct)
  case (sub_get s i n x t b)
  then show ?case
    using refs_ok_getTopic [OF sub_get(2)] by (intro refs_inv_upd) (auto dest: refs_inv_bus)
next
  case (uns_load s i n x t)
  then have "thread_ok (sy_bus s) (Th n x (UnsRemove t))"
    using refs_inv_bus [of s] by (simp add: thread_ok_def bus_refs_ok_def)
  with uns_load show ?case by (blast intro: refs_inv_same_bus)
next
  case (uns_delete s i n x t)
  then show ?case
    by (intro refs_inv_upd) (auto intro: refs_ok_CompareAndDelete refs_inv_bus thread_ok_free)
next
  case (sub_add s i n x t)
  then show ?case by (auto intro!: refs_inv_update_topic intro: thread_ok_keep [OF refs_inv_thread])
next
  case (sub_retry s i n x t)
  then show ?case by (auto intro!: refs_inv_same_bus intro: thread_ok_keep [OF refs_inv_thread])
next
  case (uns_remove s i n x t)
  then show ?case by (auto intro!: refs_inv_update_topic intro: thread_ok_keep [OF refs_inv_thread])
next
  case (uns_empty s i n x t)
  then show ?case by (auto intro!: refs_inv_same_bus intro: thread_ok_keep [OF refs_inv_thread])
qed (auto intro!: refs_intros)

lemma refs_inv_reach: "bus_reach s \<Longrightarrow> refs_inv s"
  by (induction rule: bus_reach.induct) (auto intro: refs_inv_init refs_inv_step)

section \<open>When a subscription is kept\<close>

fun is_uns :: "pc \<Rightarrow> bool" where
  "is_uns UnsLoad = True"
| "is_uns (UnsRemove t) = True"
| "is_uns (UnsIsEmpty t) = True"
| "is_uns (UnsDelete t) = True"
| "is_uns UnsRet = True"
| "is_uns _ = False"

text \<open>No call has ever unsubscribed the ID \<open>k\<close> from the topic \<open>n\<close>.\<close>

definition uncontested :: "sys \<Rightarrow> string \<Rightarrow> uint64 \<Rightarrow> bool" where
  "uncontested s n k \<longleftrightarrow>
     (\<forall>i x p. sy_threads s i = Some (Th n x p) \<longrightarrow> is_uns p \<longrightarrow> sub_ID x \<noteq> k)"

lemma uncontestedD:
  "uncontested s n k \<Longrightarrow> sy_threads s i = Some (Th n x p) \<Longrightarrow> is_uns p \<Longrightarrow> sub_ID x \<noteq> k"
  by (auto simp: uncontested_def)

lemma uncontested_upd:
  assumes "uncontested (upd s i b (Th m x p)) n k"
    and "sy_threads s i = None \<or> (\<exists>p'. sy_threads s i = Some (Th m x p') \<and> is_uns p' = is_uns p)"
  shows "uncontested s n k"
  unfolding uncontested_def
proof (intro allI impI)
  fix j y q
  assume j: "sy_threads s j = Some (Th n y q)" "is_uns q"
  show "sub_ID y \<noteq> k"
  proof (cases "j = i")
    case True
    with j assms(2) have "sy_threads (upd s i b (Th m x p)) i = Some (Th n y p)" "is_uns p"
      by auto
    then show ?thesis by (rule uncontestedD [OF assms(1)])
  next
    case False
    with j have "sy_threads (upd s i b (Th m x p)) j = Some (Th n y q)" by simp
    then show ?thesis using j(2) by (rule uncontestedD [OF assms(1)])
  qed
qed

lemma uncontested_step: "bus_step s s' \<Longrightarrow> uncontested s' n k \<Longrightarrow> uncontested s n k"
  by (induction rule: bus_step.induct) (auto elim!: uncontested_upd)

lemma in_view_iff:
  "k \<in> bus_view b n \<longleftrightarrow> (\<exists>t. mget (eb_topics b) n = Some t \<and> k \<in> set (mkeys (eb_heap b t)))"
  by (auto simp: bus_view_def split: option.splits)

lemma view_getTopic:
  assumes "getTopic n b = (t, b')" "bus_refs_ok b" "k \<in> bus_view b m"
  shows "k \<in> bus_view b' m"
proof -
  from assms(3) obtain t' where t': "mget (eb_topics b) m = Some t'" "k \<in> set (mkeys (eb_heap b t'))"
    by (auto simp: in_view_iff)
  with assms(2) have "t' < eb_next b" by (auto simp: bus_refs_ok_def)
  with t' getTopic_cases [OF assms(1)] show ?thesis by (auto simp: in_view_iff)
qed

lemma view_add: "k \<in> bus_view b m \<Longrightarrow> k \<in> bus_view (update_topic t (Topic_add x) b) m"
  by (auto simp: in_view_iff update_topic_def)

lemma view_remove:
  "k \<in> bus_view b m \<Longrightarrow> mget (eb_topics b) m = Some t \<longrightarrow> sub_ID x \<noteq> k \<Longrightarrow>
     k \<in> bus_view (update_topic t (Topic_remove x) b) m"
  by (auto simp: in_view_iff update_topic_def)

lemma view_delete:
  "k \<in> bus_view b m \<Longrightarrow> (m = n \<longrightarrow> mget (eb_topics b) n = Some t \<longrightarrow> eb_heap b t = []) \<Longrightarrow>
     k \<in> bus_view (CompareAndDelete n t b) m"
  by (auto simp: in_view_iff CompareAndDelete_def)

lemma view_kept:
  assumes "bus_step s s'" "refs_inv s" "\<not> late_deletion s s'" "uncontested s n k"
    "k \<in> bus_view (sy_bus s) n"
  shows "k \<in> bus_view (sy_bus s') n"
  using assms
proof (induction rule: bus_step.induct)
  case (sub_get s i m x t b)
  then show ?case by (auto intro: view_getTopic refs_inv_bus)
next
  case (sub_undo s i m x t)
  then have "mget (eb_topics (sy_bus s)) n \<noteq> Some t"
    using refs_inv_thread [OF sub_undo(2,1)] by (auto simp: thread_ok_def)
  with sub_undo show ?case by (auto intro: view_remove)
next
  case (uns_remove s i m x t)
  then have "mget (eb_topics (sy_bus s)) n = Some t \<longrightarrow> m = n"
    using refs_inv_thread [OF uns_remove(2,1)] by (auto simp: thread_ok_def)
  with uns_remove show ?case by (auto intro!: view_remove dest: uncontestedD)
next
  case (uns_delete s i m x t)
  then have "mget (eb_topics (sy_bus s)) m = Some t \<longrightarrow> eb_heap (sy_bus s) t = []"
    by (auto simp: late_deletion_def CompareAndDelete_def dest!: spec [of _ m])
  with uns_delete show ?case by (auto intro!: view_delete)
qed (auto intro: view_add)

text \<open>A completed subscription is in place, and one about to be confirmed has been added.\<close>

definition subs_inv :: "sys \<Rightarrow> bool" where
  "subs_inv s \<longleftrightarrow> (\<forall>i n x p. sy_threads s i = Some (Th n x p) \<longrightarrow> uncontested s n (sub_ID x) \<longrightarrow>
     (p = SubRet \<or> (\<exists>t. p = SubCheck t \<and> mget (eb_topics (sy_bus s)) n = Some t)) \<longrightarrow>
     sub_ID x \<in> bus_view (sy_bus s) n)"

lemma current_back:
  assumes "bus_step s s'" "t < eb_next (sy_bus s)" "mget (eb_topics (sy_bus s')) n = Some t"
  shows "mget (eb_topics (sy_bus s)) n = Some t"
  using assms
proof (induction rule: bus_step.induct)
  case (sub_get s i m x t' b)
  then show ?case using getTopic_cases [OF sub_get(2)] by (auto split: if_splits)
qed (auto simp: CompareAndDelete_def split: if_splits)

lemma subs_inv_init: "subs_inv sys_init"
  by (simp add: subs_inv_def sys_init_def)

lemma subs_invD:
  "subs_inv s \<Longrightarrow> sy_threads s i = Some (Th n x p) \<Longrightarrow> uncontested s n (sub_ID x) \<Longrightarrow>
     p = SubRet \<or> (\<exists>t. p = SubCheck t \<and> mget (eb_topics (sy_bus s)) n = Some t) \<Longrightarrow>
     sub_ID x \<in> bus_view (sy_bus s) n"
  unfolding subs_inv_def by blast

text \<open>The two steps that bring a call to one of these points.\<close>

lemma subs_inv_arrive:
  assumes "bus_step s s'" "subs_inv s" "sy_threads s' j = Some (Th n x p)"
    "sy_threads s j \<noteq> Some (Th n x p)" "uncontested s n (sub_ID x)"
    "p = SubRet \<or> (\<exists>t. p = SubCheck t \<and> mget (eb_topics (sy_bus s')) n = Some t)"
  shows "sub_ID x \<in> bus_view (sy_bus s') n"
  using assms
proof (induction rule: bus_step.induct)
  case (sub_add s i m y t)
  then show ?case
    by (auto simp: in_view_iff update_topic_def split: if_splits)
next
  case (sub_ok s i m y t)
  then have "sy_threads s j = Some (Th n x (SubCheck t))" "mget (eb_topics (sy_bus s)) n = Some t"
    by (auto split: if_splits)
  with sub_ok show ?case by (auto intro: subs_invD)
qed (auto split: if_splits)

lemma subs_inv_step:
  assumes step: "bus_step s s'" and refs: "refs_inv s" and del: "\<not> late_deletion s s'"
    and inv: "subs_inv s"
  shows "subs_inv s'"
  unfolding subs_inv_def
proof (intro allI impI)
  fix j n x p
  assume j: "sy_threads s' j = Some (Th n x p)" and unc': "uncontested s' n (sub_ID x)"
    and p: "p = SubRet \<or> (\<exists>t. p = SubCheck t \<and> mget (eb_topics (sy_bus s')) n = Some t)"
  have unc: "uncontested s n (sub_ID x)" using step unc' by (rule uncontested_step)
  show "sub_ID x \<in> bus_view (sy_bus s') n"
  proof (cases "sy_threads s j = Some (Th n x p)")
    case True
    have "p = SubRet \<or> (\<exists>t. p = SubCheck t \<and> mget (eb_topics (sy_bus s)) n = Some t)"
      using p refs_inv_thread [OF refs True] by (auto simp: thread_ok_def intro: current_back [OF step])
    then have "sub_ID x \<in> bus_view (sy_bus s) n" by (rule subs_invD [OF inv True unc])
    then show ?thesis by (rule view_kept [OF step refs del unc])
  next
    case False
    show ?thesis using step inv j False unc p by (rule subs_inv_arrive)
  qed
qed

lemma subs_inv_reach: "bus_reach_safe s \<Longrightarrow> subs_inv s"
proof (induction rule: bus_reach_safe.induct)
  case (safe_step s s')
  then show ?case
    by (blast intro: subs_inv_step refs_inv_reach bus_reach_safe_reach)
qed (rule subs_inv_init)

section \<open>Retries\<close>

text \<open>
  A retry of \<open>Subscribe\<close> is paid for by the deletion of a topic instance: an instance that a call got is
  current, and it stops being so only when some \<open>Unsubscribe\<close> deletes it.
\<close>

definition deleted :: "string \<Rightarrow> sys \<Rightarrow> sys \<Rightarrow> bool" where
  "deleted n s s' \<longleftrightarrow> mget (eb_topics (sy_bus s)) n \<noteq> None \<and> mget (eb_topics (sy_bus s')) n = None"

definition retried :: "nat \<Rightarrow> string \<Rightarrow> sys \<Rightarrow> sys \<Rightarrow> bool" where
  "retried i n s s' \<longleftrightarrow>
     (\<exists>x t. sy_threads s i = Some (Th n x (SubUndo t)) \<and> sy_threads s' i = Some (Th n x SubGet))"

fun stale :: "EventBus \<Rightarrow> string \<Rightarrow> pc \<Rightarrow> bool" where
  "stale b n (SubAdd t) = (mget (eb_topics b) n \<noteq> Some t)"
| "stale b n (SubCheck t) = (mget (eb_topics b) n \<noteq> Some t)"
| "stale b n (SubUndo t) = True"
| "stale b n _ = False"

text \<open>The executions from \<open>s0\<close>, with the deletions of the topic \<open>n\<close> and the retries of the call \<open>i\<close> for it.\<close>

inductive bus_count :: "sys \<Rightarrow> nat \<Rightarrow> string \<Rightarrow> sys \<Rightarrow> nat \<Rightarrow> nat \<Rightarrow> bool" for s0 i n where
  none: "bus_count s0 i n s0 0 0"
| one: "\<lbrakk>bus_count s0 i n s d r; bus_step s s'\<rbrakk>
    \<Longrightarrow> bus_count s0 i n s' (d + (if deleted n s s' then 1 else 0)) (r + (if retried i n s s' then 1 else 0))"

lemma current_or_deleted:
  assumes "bus_step s s'" "mget (eb_topics (sy_bus s)) n = Some t"
  shows "mget (eb_topics (sy_bus s')) n = Some t \<or> deleted n s s'"
  using assms
proof (induction rule: bus_step.induct)
  case (sub_get s i m x t' b)
  then show ?case using getTopic_cases [OF sub_get(2)] by auto
qed (auto simp: deleted_def CompareAndDelete_def)

lemma getTopic_current: "getTopic n b = (t, b') \<Longrightarrow> mget (eb_topics b') n = Some t"
  by (auto dest: getTopic_cases)

text \<open>A call that does not move becomes stale by a deletion only.\<close>

lemma stale_other:
  assumes "bus_step s s'" "stale (sy_bus s') n p" "\<not> deleted n s s'"
  shows "stale (sy_bus s) n p"
  using assms current_or_deleted [OF assms(1)] by (cases p) auto

lemma retry_paid:
  assumes step: "bus_step s s'" and i: "sy_threads s i = Some (Th n x p)" "sy_threads s' i = Some (Th n' x' p')"
  shows "n' = n \<and> x' = x \<and> of_bool (retried i n s s') + of_bool (stale (sy_bus s') n p') \<le>
    (of_bool (stale (sy_bus s) n p) + of_bool (deleted n s s') :: nat)"
proof (cases "p' = p \<and> n' = n \<and> x' = x")
  case True
  have "\<not> retried i n s s'" using i True by (auto simp: retried_def)
  then show ?thesis using True stale_other [OF step, of n p] by auto
next
  case False
  with step i show ?thesis
    by (induction rule: bus_step.induct)
       (auto simp: retried_def deleted_def getTopic_current split: if_splits)
qed

lemma new_call: "bus_step s s' \<Longrightarrow> sy_threads s i = None \<Longrightarrow> sy_threads s' i = Some (Th n x p) \<Longrightarrow> p = SubGet \<or> p = UnsLoad"
  by (induction rule: bus_step.induct) (auto split: if_splits)

lemma call_stays: "bus_step s s' \<Longrightarrow> sy_threads s i = Some (Th n x p) \<Longrightarrow> \<exists>p'. sy_threads s' i = Some (Th n x p')"
  by (induction rule: bus_step.induct) auto

lemma bus_count_bound:
  assumes "bus_count s0 i n s d r" "sy_threads s0 i = None"
  shows "(case sy_threads s i of
       Some u \<Rightarrow> if th_topic u = n then r + of_bool (stale (sy_bus s) n (th_pc u)) \<le> d else r = 0
     | None \<Rightarrow> r = 0)"
  using assms(1)
proof (induction rule: bus_count.induct)
  case (one s d r s')
  show ?case
  proof (cases "sy_threads s i")
    case None
    then have nr: "\<not> retried i n s s'" by (auto simp: retried_def)
    show ?thesis
    proof (cases "sy_threads s' i")
      case (Some u)
      obtain m x p where u: "u = Th m x p" by (cases u)
      with new_call [OF one(2) None, of m x p] Some have "\<not> stale (sy_bus s') n p" by auto
      with one.IH None nr Some u show ?thesis by auto
    qed (use one.IH None nr in auto)
  next
    case (Some u)
    obtain m x p where u: "u = Th m x p" by (cases u)
    with Some have i: "sy_threads s i = Some (Th m x p)" by simp
    from call_stays [OF one(2) this] obtain p' where i': "sy_threads s' i = Some (Th m x p')" by blast
    show ?thesis
    proof (cases "m = n")
      case True
      with retry_paid [OF one(2) i i'] one.IH i i' show ?thesis by (auto simp: of_bool_def split: if_splits)
    next
      case False
      then have "\<not> retried i n s s'" using i by (auto simp: retried_def)
      with False one.IH i i' show ?thesis by auto
    qed
  qed
qed (use assms(2) in simp)

section \<open>A run that loses a subscription\<close>

text \<open>
  Subscriber 1 is alone on the topic and unsubscribes; between its \<open>isEmpty\<close> and its
  \<open>CompareAndDelete\<close> subscriber 2 subscribes: it adds itself to the same instance, finds that
  instance current and returns. The deletion then drops the topic with subscriber 2 in it.
\<close>

abbreviation lose_topic :: string where "lose_topic \<equiv> ''room:1''"
abbreviation sub1 :: Subscriber where "sub1 \<equiv> \<lparr>sub_ID = 1\<rparr>"
abbreviation sub2 :: Subscriber where "sub2 \<equiv> \<lparr>sub_ID = 2\<rparr>"

definition lose_bus :: "Topic \<Rightarrow> EventBus" where
  "lose_bus t = \<lparr>eb_topics = mput lose_topic 0 mempty, eb_heap = (\<lambda>_. newTopic)(0 := t), eb_next = 1\<rparr>"

definition lose_sys :: "EventBus \<Rightarrow> pc \<Rightarrow> (pc option) \<Rightarrow> (pc option) \<Rightarrow> sys" where
  "lose_sys b p q r = \<lparr>sy_bus = b, sy_threads =
     (Map.empty)(0 := Some (Th lose_topic sub1 p), 1 := map_option (Th lose_topic sub1) q,
                 2 := map_option (Th lose_topic sub2) r)\<rparr>"

lemma bus_safe_via:
  "bus_reach_safe s \<Longrightarrow> bus_step s t \<Longrightarrow> t = s' \<Longrightarrow>
     eb_topics (sy_bus s) = mempty \<or> eb_topics (sy_bus s') = eb_topics (sy_bus s) \<Longrightarrow> bus_reach_safe s'"
  using safe_step [of s s'] by (auto simp: late_deletion_def)

lemma lose_first: "bus_reach_safe (lose_sys (lose_bus (Topic_add sub1 newTopic)) SubRet None None)"
proof -
  have 1: "bus_reach_safe (lose_sys EventBus_New SubGet None None)"
    by (rule bus_safe_via [OF safe_init call_sub [of _ 0 lose_topic sub1]])
       (auto simp: sys_init_def lose_sys_def upd_def)
  have 2: "bus_reach_safe (lose_sys (lose_bus newTopic) (SubAdd 0) None None)"
    by (rule bus_safe_via [OF 1 sub_get [of _ 0 lose_topic sub1 0 "lose_bus newTopic"]])
       (auto simp: lose_sys_def upd_def getTopic_def lose_bus_def EventBus_New_def)
  have 3: "bus_reach_safe (lose_sys (lose_bus (Topic_add sub1 newTopic)) (SubCheck 0) None None)"
    by (rule bus_safe_via [OF 2 sub_add [of _ 0 lose_topic sub1 0]])
       (auto simp: lose_sys_def upd_def update_topic_def lose_bus_def)
  show ?thesis
    by (rule bus_safe_via [OF 3 sub_ok [of _ 0 lose_topic sub1 0]])
       (auto simp: lose_sys_def upd_def lose_bus_def)
qed

lemma lose_emptied: "bus_reach_safe (lose_sys (lose_bus newTopic) SubRet (Some (UnsDelete 0)) None)"
proof -
  have e: "Topic_remove sub1 (Topic_add sub1 newTopic) = newTopic"
    by (simp add: Topic_remove_def Topic_add_def newTopic_def map_defs)
  have 1: "bus_reach_safe (lose_sys (lose_bus (Topic_add sub1 newTopic)) SubRet (Some UnsLoad) None)"
    by (rule bus_safe_via [OF lose_first call_uns [of _ 1 lose_topic sub1]])
       (auto simp: lose_sys_def upd_def)
  have 2: "bus_reach_safe (lose_sys (lose_bus (Topic_add sub1 newTopic)) SubRet (Some (UnsRemove 0)) None)"
    by (rule bus_safe_via [OF 1 uns_load [of _ 1 lose_topic sub1 0]])
       (auto simp: lose_sys_def upd_def lose_bus_def)
  have 3: "bus_reach_safe (lose_sys (lose_bus newTopic) SubRet (Some (UnsIsEmpty 0)) None)"
    by (rule bus_safe_via [OF 2 uns_remove [of _ 1 lose_topic sub1 0]])
       (auto simp: lose_sys_def upd_def update_topic_def lose_bus_def e)
  show ?thesis
    by (rule bus_safe_via [OF 3 uns_empty [of _ 1 lose_topic sub1 0]])
       (auto simp: lose_sys_def upd_def lose_bus_def newTopic_def mempty_def)
qed

lemma lose_confirmed:
  "bus_reach_safe (lose_sys (lose_bus (Topic_add sub2 newTopic)) SubRet (Some (UnsDelete 0)) (Some SubRet))"
proof -
  have 1: "bus_reach_safe (lose_sys (lose_bus newTopic) SubRet (Some (UnsDelete 0)) (Some SubGet))"
    by (rule bus_safe_via [OF lose_emptied call_sub [of _ 2 lose_topic sub2]])
       (auto simp: lose_sys_def upd_def)
  have 2: "bus_reach_safe (lose_sys (lose_bus newTopic) SubRet (Some (UnsDelete 0)) (Some (SubAdd 0)))"
    by (rule bus_safe_via [OF 1 sub_get [of _ 2 lose_topic sub2 0 "lose_bus newTopic"]])
       (auto simp: lose_sys_def upd_def getTopic_def lose_bus_def)
  have 3: "bus_reach_safe (lose_sys (lose_bus (Topic_add sub2 newTopic)) SubRet (Some (UnsDelete 0))
      (Some (SubCheck 0)))"
    by (rule bus_safe_via [OF 2 sub_add [of _ 2 lose_topic sub2 0]])
       (auto simp: lose_sys_def upd_def update_topic_def lose_bus_def)
  show ?thesis
    by (rule bus_safe_via [OF 3 sub_ok [of _ 2 lose_topic sub2 0]])
       (auto simp: lose_sys_def upd_def lose_bus_def)
qed

definition lose_final :: sys where
  "lose_final = lose_sys ((lose_bus (Topic_add sub2 newTopic))\<lparr>eb_topics := mempty\<rparr>)
     SubRet (Some UnsRet) (Some SubRet)"

lemma bus_reach_via: "bus_reach s \<Longrightarrow> bus_step s t \<Longrightarrow> t = s' \<Longrightarrow> bus_reach s'"
  by (auto intro: reach_step)

lemma lose_final_reach: "bus_reach lose_final"
  by (rule bus_reach_via [OF bus_reach_safe_reach [OF lose_confirmed] uns_delete [of _ 1 lose_topic sub1 0]])
     (auto simp: lose_final_def lose_sys_def upd_def lose_bus_def CompareAndDelete_def
       map_defs)

end
