(* ===== verification/Bus_Theorems.thy ===== *)
theory Bus_Theorems
  imports Event_Bus_Race
begin

text \<open>
  The properties of the event bus: what it promises when its calls run one after the other, and
  what is left of that when they run concurrently.
\<close>

text \<open>C8: after any sequence of \<open>Subscribe\<close> and \<open>Unsubscribe\<close> calls on a fresh bus, a subscriber ID is
  subscribed to a topic exactly if the last call for that topic and that ID was a \<open>Subscribe\<close>.\<close>

theorem bus_refines_last_operation:
  "i \<in> bus_view (bus_run ops EventBus_New) topic \<longleftrightarrow> last_sub topic i False ops"
  by (simp add: bus_view_run eb.wf_new eb.view_new)

text \<open>C35: \<open>Publish\<close> calls \<open>Send\<close> once for every ID subscribed to the topic and for no other, whatever
  the sends return: a failing send does not keep the event from the remaining subscribers.\<close>

theorem publish_reaches_each_subscriber_once:
  "\<exists>subs. distinct (map sub_ID subs) \<and>
     set (map sub_ID subs) = {i. last_sub topic i False ops} \<and>
     Publish send topic ev (bus_run ops EventBus_New) w = fold (\<lambda>s w. fst (send s topic ev w)) subs w"
proof -
  let ?b = "bus_run ops EventBus_New"
  have wf: "bus_wf ?b" by (rule bus_wf_run [OF bus_wf_New])
  have "bus_view ?b topic = {i. last_sub topic i False ops}"
    by (auto simp: bus_view_run bus_view_New)
  with recipients_view [OF wf, of topic] show ?thesis
    by (intro exI [of _ "recipients ?b topic"]) (simp add: Publish_eq)
qed

text \<open>The bus does not keep empty topics: after any sequence of calls a topic is stored exactly
  if somebody is subscribed to it, and a well-formed bus stays well-formed.\<close>

lemma bus_keeps_no_empty_topic:
  "mhas (eb_topics (bus_run ops EventBus_New)) topic \<longleftrightarrow> (\<exists>i. last_sub topic i False ops)"
  using topics_stored_iff [OF bus_wf_run [OF bus_wf_New], of ops topic]
  by (auto simp: bus_view_run bus_view_New set_eq_iff)

text \<open>C16: concurrent calls can lose a subscription. There is an interleaving of one \<open>Unsubscribe\<close> of
  another subscriber with a \<open>Subscribe\<close> that ends with the \<open>Subscribe\<close> returned, nobody having ever
  unsubscribed that ID, and the ID not subscribed: the topic was deleted after it was found empty
  although a subscriber was added in between.\<close>

theorem concurrent_subscription_can_be_lost:
  "\<exists>s topic sub. bus_reach s \<and> sy_threads s 2 = Some (Th topic sub SubRet) \<and>
     uncontested s topic (sub_ID sub) \<and> sub_ID sub \<notin> bus_view (sy_bus s) topic"
proof (intro exI conjI)
  show "bus_reach lose_final" by (rule lose_final_reach)
  show "sy_threads lose_final 2 = Some (Th lose_topic sub2 SubRet)"
    by (simp add: lose_final_def lose_sys_def)
  show "uncontested lose_final lose_topic (sub_ID sub2)"
    by (auto simp: uncontested_def lose_final_def lose_sys_def split: if_splits)
  show "sub_ID sub2 \<notin> bus_view (sy_bus lose_final) lose_topic"
    by (simp add: lose_final_def lose_sys_def bus_view_def)
qed

text \<open>C17: that deletion is the only way to lose one. In every execution in which no step deletes a
  topic that has a subscriber at that moment, a \<open>Subscribe\<close> that has returned
  is in effect as long as nobody unsubscribes the ID, over all interleavings of any number of
  concurrent calls.\<close>

theorem subscriptions_kept_without_late_deletion:
  assumes "bus_reach_safe s" "sy_threads s i = Some (Th topic sub SubRet)"
    and "uncontested s topic (sub_ID sub)"
  shows "sub_ID sub \<in> bus_view (sy_bus s) topic"
  using subs_invD [OF subs_inv_reach [OF assms(1)] assms(2,3)] by simp

theorem subscriptions_kept_without_late_deletion_witness:
  "2 \<in> bus_view (sy_bus (lose_sys (lose_bus (Topic_add sub2 newTopic)) SubRet (Some (UnsDelete 0)) (Some SubRet))) lose_topic"
  using subscriptions_kept_without_late_deletion [OF lose_confirmed, of 2 lose_topic sub2]
  by (auto simp: lose_sys_def uncontested_def split: if_splits)

text \<open>C18: a \<open>Subscribe\<close> retries at most as often as its topic is deleted while it runs, over all interleavings
  of any number of concurrent calls. In particular it returns at its first attempt if nobody deletes
  the topic, so a loop without end needs an endless stream of other calls that succeed.\<close>

theorem retries_are_paid_by_deletions:
  assumes "bus_count s0 i topic s deletions retries" "sy_threads s0 i = None"
  shows "retries \<le> deletions"
  using bus_count_bound [OF assms] by (auto split: option.splits if_splits)

text \<open>A run with one deletion and one retry.\<close>

lemma bus_count_via:
  "bus_count s0 i n s d r \<Longrightarrow> bus_step s t \<Longrightarrow> t = s' \<Longrightarrow> d' = d + (if deleted n s s' then 1 else 0) \<Longrightarrow>
     r' = r + (if retried i n s s' then 1 else 0) \<Longrightarrow> bus_count s0 i n s' d' r'"
  using bus_count.one [of s0 i n s d r s'] by simp

definition gone_bus :: "Topic \<Rightarrow> EventBus" where
  "gone_bus t = (lose_bus t)\<lparr>eb_topics := mempty\<rparr>"

lemma retry_run:
  "bus_count (lose_sys (lose_bus newTopic) SubRet (Some (UnsDelete 0)) None) 2 lose_topic
     (lose_sys (gone_bus newTopic) SubRet (Some UnsRet) (Some SubGet)) 1 1"
proof -
  let ?count = "bus_count (lose_sys (lose_bus newTopic) SubRet (Some (UnsDelete 0)) None) 2 lose_topic"
  note defs = lose_sys_def upd_def deleted_def retried_def lose_bus_def gone_bus_def update_topic_def
    getTopic_def CompareAndDelete_def map_defs
  have e: "Topic_remove sub2 (Topic_add sub2 newTopic) = newTopic"
    by (simp add: Topic_remove_def Topic_add_def newTopic_def map_defs)
  have 1: "?count (lose_sys (lose_bus newTopic) SubRet (Some (UnsDelete 0)) (Some SubGet)) 0 0"
    by (rule bus_count_via [OF bus_count.none call_sub [of _ 2 lose_topic sub2]]) (auto simp: defs)
  have 2: "?count (lose_sys (lose_bus newTopic) SubRet (Some (UnsDelete 0)) (Some (SubAdd 0))) 0 0"
    by (rule bus_count_via [OF 1 sub_get [of _ 2 lose_topic sub2 0 "lose_bus newTopic"]]) (auto simp: defs)
  have 3: "?count (lose_sys (gone_bus newTopic) SubRet (Some UnsRet) (Some (SubAdd 0))) 1 0"
    by (rule bus_count_via [OF 2 uns_delete [of _ 1 lose_topic sub1 0]]) (auto simp: defs)
  have 4: "?count (lose_sys (gone_bus (Topic_add sub2 newTopic)) SubRet (Some UnsRet) (Some (SubCheck 0))) 1 0"
    by (rule bus_count_via [OF 3 sub_add [of _ 2 lose_topic sub2 0]]) (auto simp: defs)
  have 5: "?count (lose_sys (gone_bus (Topic_add sub2 newTopic)) SubRet (Some UnsRet) (Some (SubUndo 0))) 1 0"
    by (rule bus_count_via [OF 4 sub_retry [of _ 2 lose_topic sub2 0]]) (auto simp: defs)
  show ?thesis
    by (rule bus_count_via [OF 5 sub_undo [of _ 2 lose_topic sub2 0]]) (auto simp: defs e)
qed

theorem retries_are_paid_by_deletions_witness:
  "\<exists>s. bus_count (lose_sys (lose_bus newTopic) SubRet (Some (UnsDelete 0)) None) 2 lose_topic s 1 1 \<and> (1::nat) \<le> 1"
proof -
  have "sy_threads (lose_sys (lose_bus newTopic) SubRet (Some (UnsDelete 0)) None) 2 = None" by (simp add: lose_sys_def)
  with retries_are_paid_by_deletions [OF retry_run] retry_run show ?thesis by blast
qed

end
