(* ===== verification/Tuning.thy ===== *)
theory Tuning
  imports Go_Prelude
begin

text \<open>
  The connection tuning of \<^verbatim>\<open>gateway/gateway.go\<close>: durations in nanoseconds, and the defaults that
  replace missing values.
\<close>

definition Second :: duration where
  "Second = 1000000000"

definition defaultWriteWait :: duration where "defaultWriteWait = 10 * Second"
definition defaultPongWait :: duration where "defaultPongWait = 60 * Second"
definition defaultPingPeriod :: duration where "defaultPingPeriod = 30 * Second"
definition defaultAuthTimeout :: duration where "defaultAuthTimeout = 10 * Second"
definition defaultMaxMessageSize :: int where "defaultMaxMessageSize = 64 * 1024"
definition defaultSendBufferSize :: int where "defaultSendBufferSize = 256"
definition defaultShutdownTimeout :: duration where "defaultShutdownTimeout = 5 * Second"
definition handleBufferSize :: nat where "handleBufferSize = 64"

lemmas tuning_consts = Second_def defaultWriteWait_def defaultPongWait_def defaultPingPeriod_def
  defaultAuthTimeout_def defaultMaxMessageSize_def defaultSendBufferSize_def defaultShutdownTimeout_def

record tuning =
  tn_writeWait :: duration
  tn_pongWait :: duration
  tn_pingPeriod :: duration
  tn_authTimeout :: duration
  tn_maxMessageSize :: int
  tn_sendBufferSize :: int
  tn_shutdownTimeout :: duration

text \<open>The assignments run in order: the ping period is compared with the pong wait already replaced.\<close>

definition withDefaults :: "tuning \<Rightarrow> tuning" where
  "withDefaults t =
     (let t = (if tn_writeWait t \<le> 0 then t\<lparr>tn_writeWait := defaultWriteWait\<rparr> else t);
          t = (if tn_pongWait t \<le> 0 then t\<lparr>tn_pongWait := defaultPongWait\<rparr> else t);
          t = (if tn_pingPeriod t \<le> 0 \<or> tn_pingPeriod t \<ge> tn_pongWait t
               then t\<lparr>tn_pingPeriod := defaultPingPeriod\<rparr> else t);
          t = (if tn_authTimeout t \<le> 0 then t\<lparr>tn_authTimeout := defaultAuthTimeout\<rparr> else t);
          t = (if tn_maxMessageSize t \<le> 0 then t\<lparr>tn_maxMessageSize := defaultMaxMessageSize\<rparr> else t);
          t = (if tn_sendBufferSize t \<le> 0 then t\<lparr>tn_sendBufferSize := defaultSendBufferSize\<rparr> else t);
          t = (if tn_shutdownTimeout t \<le> 0 then t\<lparr>tn_shutdownTimeout := defaultShutdownTimeout\<rparr> else t)
      in t)"

text \<open>The tuning part of \<open>gateway.Config\<close>.\<close>

record GwConfig =
  gc_MaxMessageSize :: int
  gc_AuthTimeout :: duration
  gc_PongWait :: duration
  gc_WriteWait :: duration
  gc_PingPeriod :: duration
  gc_SendBufferSize :: int
  gc_ShutdownTimeout :: duration

definition newTuning :: "GwConfig \<Rightarrow> tuning" where
  "newTuning c = withDefaults
     \<lparr>tn_writeWait = gc_WriteWait c, tn_pongWait = gc_PongWait c, tn_pingPeriod = gc_PingPeriod c,
      tn_authTimeout = gc_AuthTimeout c, tn_maxMessageSize = gc_MaxMessageSize c,
      tn_sendBufferSize = gc_SendBufferSize c, tn_shutdownTimeout = gc_ShutdownTimeout c\<rparr>"

lemma withDefaults_sel:
  "tn_writeWait (withDefaults t) = (if tn_writeWait t \<le> 0 then defaultWriteWait else tn_writeWait t)"
  "tn_pongWait (withDefaults t) = (if tn_pongWait t \<le> 0 then defaultPongWait else tn_pongWait t)"
  "tn_pingPeriod (withDefaults t) =
     (if tn_pingPeriod t \<le> 0 \<or> tn_pingPeriod t \<ge> tn_pongWait (withDefaults t) then defaultPingPeriod
      else tn_pingPeriod t)"
  "tn_authTimeout (withDefaults t) = (if tn_authTimeout t \<le> 0 then defaultAuthTimeout else tn_authTimeout t)"
  "tn_maxMessageSize (withDefaults t) = (if tn_maxMessageSize t \<le> 0 then defaultMaxMessageSize else tn_maxMessageSize t)"
  "tn_sendBufferSize (withDefaults t) = (if tn_sendBufferSize t \<le> 0 then defaultSendBufferSize else tn_sendBufferSize t)"
  "tn_shutdownTimeout (withDefaults t) = (if tn_shutdownTimeout t \<le> 0 then defaultShutdownTimeout else tn_shutdownTimeout t)"
  by (simp_all add: withDefaults_def Let_def)

lemma withDefaults_idem: "withDefaults (withDefaults t) = withDefaults t"
  by (rule tuning.equality) (simp_all add: withDefaults_sel tuning_consts)

end
