(* ===== verification/Session.thy ===== *)
theory Session
  imports Go_Map
begin

text \<open>
  The package \<^verbatim>\<open>session\<close>: a session with its metadata, and the store of sessions by ID. The
  metadata values (Go's \<open>interface{}\<close>) are a type parameter. The locks are left out: every
  operation is one critical section.
\<close>

record 'v Session =
  se_ID :: string
  se_UserID :: string
  se_Metadata :: "(string, 'v) gomap"

definition Session_New :: "string \<Rightarrow> string \<Rightarrow> 'v Session" where
  "Session_New sid userID = \<lparr>se_ID = sid, se_UserID = userID, se_Metadata = mempty\<rparr>"

definition Session_Set :: "string \<Rightarrow> 'v \<Rightarrow> 'v Session \<Rightarrow> 'v Session" where
  "Session_Set key value s = s\<lparr>se_Metadata := mput key value (se_Metadata s)\<rparr>"

definition Session_Get :: "'v Session \<Rightarrow> string \<Rightarrow> 'v option" where
  "Session_Get s key = mget (se_Metadata s) key"

record 'v Store =
  st_sessions :: "(string, 'v Session) gomap"

definition NewStore :: "'v Store" where
  "NewStore = \<lparr>st_sessions = mempty\<rparr>"

definition Store_Set :: "'v Session \<Rightarrow> 'v Store \<Rightarrow> 'v Store" where
  "Store_Set session s = s\<lparr>st_sessions := mput (se_ID session) session (st_sessions s)\<rparr>"

definition Store_Get :: "'v Store \<Rightarrow> string \<Rightarrow> 'v Session option" where
  "Store_Get s sid = mget (st_sessions s) sid"

definition Store_Delete :: "string \<Rightarrow> 'v Store \<Rightarrow> 'v Store" where
  "Store_Delete sid s = s\<lparr>st_sessions := mdel sid (st_sessions s)\<rparr>"

interpretation metadata: lookup_table "Session_New sid userID" Session_Set Session_Get
  "\<lambda>s. mwf (se_Metadata s)" for sid userID
  by unfold_locales (auto simp: Session_New_def Session_Set_def Session_Get_def)

text \<open>Every stored session is stored under its own ID.\<close>

definition store_wf :: "'v Store \<Rightarrow> bool" where
  "store_wf s \<longleftrightarrow> mwf (st_sessions s) \<and> (\<forall>i x. Store_Get s i = Some x \<longrightarrow> se_ID x = i)"

lemma store_wf_New [simp]: "store_wf NewStore"
  by (simp add: store_wf_def NewStore_def Store_Get_def)

lemma store_wf_Set [simp]: "store_wf s \<Longrightarrow> store_wf (Store_Set x s)"
  by (auto simp: store_wf_def Store_Set_def Store_Get_def)

lemma store_wf_Delete [simp]: "store_wf s \<Longrightarrow> store_wf (Store_Delete i s)"
  by (auto simp: store_wf_def Store_Delete_def Store_Get_def)

lemma Store_Get_Set:
  "Store_Get (Store_Set x s) i = (if i = se_ID x then Some x else Store_Get s i)"
  by (simp add: Store_Set_def Store_Get_def)

lemma Store_Get_Delete:
  "Store_Get (Store_Delete j s) i = (if i = j then None else Store_Get s i)"
  by (simp add: Store_Delete_def Store_Get_def)

end
