(* ===== verification/Client.thy ===== *)
theory Client
  imports Tuning Event_Bus Session
begin

text \<open>
  A connection, \<^verbatim>\<open>gateway/client.go\<close>: its identity, its subscriptions, its session, and the two
  bounded channels, \<open>cl_send\<close> of frames to write and \<open>cl_handles\<close> of messages to dispatch. The socket is
  outside the model: what it delivers are the frames given to \<open>read_step\<close>, and what is written to it
  is what leaves \<open>cl_send\<close>. \<open>cl_pick\<close> is the choice of a \<open>select\<close> whose send and \<open>done\<close> cases are both
  ready, which Go leaves open; nothing is assumed about it. The bus is shared, so operations that
  subscribe also take and return it.
\<close>

section \<open>State\<close>

record 'v Client =
  cl_id :: uint64
  cl_send :: "bytes list"
  cl_handles :: "ClientMessage list"
  cl_topics :: "(string, unit) gomap"
  cl_roomIDs :: "(string, unit) gomap"
  cl_tuning :: tuning
  cl_session :: "'v Session option"
  cl_authenticated :: bool
  cl_done :: bool \<comment> \<open>\<open>done\<close> is closed and the context cancelled\<close>
  cl_pick :: bool

definition sub_of :: "'v Client \<Rightarrow> Subscriber" where
  "sub_of c = \<lparr>sub_ID = cl_id c\<rparr>"

definition HasPrefix :: "string \<Rightarrow> string \<Rightarrow> bool" where
  "HasPrefix s p \<longleftrightarrow> take (length p) s = p"

definition TrimPrefix :: "string \<Rightarrow> string \<Rightarrow> string" where
  "TrimPrefix s p = (if HasPrefix s p then drop (length p) s else s)"

text \<open>\<open>i\<close> is the value of the counter \<open>nextClientID\<close> after its increment.\<close>

definition NewClient :: "uint64 \<Rightarrow> bool \<Rightarrow> tuning \<Rightarrow> EventBus \<Rightarrow> 'v Client \<times> EventBus" where
  "NewClient i pick t bus =
     (let personalTopic = ''client:'' @ FormatUint i;
          c = \<lparr>cl_id = i, cl_send = [], cl_handles = [], cl_topics = mempty, cl_roomIDs = mempty,
               cl_tuning = withDefaults t, cl_session = None, cl_authenticated = False,
               cl_done = False, cl_pick = pick\<rparr>
      in (c\<lparr>cl_topics := mput personalTopic () (cl_topics c)\<rparr>, Subscribe personalTopic (sub_of c) bus))"

section \<open>Sending\<close>

definition Client_Close :: "'v Client \<Rightarrow> 'v Client" where
  "Client_Close c = c\<lparr>cl_done := True\<rparr>"

definition has_room :: "'v Client \<Rightarrow> bool" where
  "has_room c \<longleftrightarrow> int (length (cl_send c)) < tn_sendBufferSize (cl_tuning c)"

definition SendServerMessage :: "ServerMessage \<Rightarrow> 'v Client \<Rightarrow> 'v Client outcome" where
  "SendServerMessage msg c =
     bindO (ServerMessage_Marshal msg []) (\<lambda>data.
       Val (if has_room c \<and> (\<not> cl_done c \<or> cl_pick c) then c\<lparr>cl_send := cl_send c @ [data]\<rparr>
            else if cl_done c then c
            else Client_Close c))"

definition Client_Send :: "string \<Rightarrow> Event \<Rightarrow> 'v Client \<Rightarrow> 'v Client outcome" where
  "Client_Send topic event c =
     SendServerMessage (ServerMessage_zero\<lparr>sm_Type := MessageEvent, sm_Channel := topic,
       sm_Op := ev_Op event, sm_Payload := ev_Payload event\<rparr>) c"

definition SendResponse :: "uint32 \<Rightarrow> marshaler \<Rightarrow> 'v Client \<Rightarrow> 'v Client outcome" where
  "SendResponse i payload c =
     bindO (Encode payload) (\<lambda>p.
       SendServerMessage (ServerMessage_zero\<lparr>sm_Type := MessageResponse, sm_ID := i, sm_Payload := p\<rparr>) c)"

definition SendError :: "uint32 \<Rightarrow> string \<Rightarrow> int \<Rightarrow> 'v Client \<Rightarrow> 'v Client outcome" where
  "SendError i errMsg code c =
     SendServerMessage (ServerMessage_zero\<lparr>sm_Type := MessageError, sm_ID := i, sm_Error := errMsg,
       sm_Code := word_of_int code\<rparr>) c"

section \<open>Subscriptions\<close>

definition Client_Subscribe :: "string \<Rightarrow> 'v Client \<Rightarrow> EventBus \<Rightarrow> 'v Client \<times> EventBus" where
  "Client_Subscribe topic c bus =
     (if mhas (cl_topics c) topic then (c, bus)
      else
        let c = c\<lparr>cl_topics := mput topic () (cl_topics c)\<rparr>;
            c = (if HasPrefix topic ''room:''
                 then c\<lparr>cl_roomIDs := mput (TrimPrefix topic ''room:'') () (cl_roomIDs c)\<rparr> else c)
        in (c, Subscribe topic (sub_of c) bus))"

definition Client_Unsubscribe :: "string \<Rightarrow> 'v Client \<Rightarrow> EventBus \<Rightarrow> 'v Client \<times> EventBus" where
  "Client_Unsubscribe topic c bus =
     (let c = c\<lparr>cl_topics := mdel topic (cl_topics c),
               cl_roomIDs := mdel (TrimPrefix topic ''room:'') (cl_roomIDs c)\<rparr>
      in (c, Unsubscribe topic (sub_of c) bus))"

definition RoomIDs :: "'v Client \<Rightarrow> string list" where
  "RoomIDs c = mkeys (cl_roomIDs c)"

definition SetSession :: "'v Session \<Rightarrow> 'v Client \<Rightarrow> 'v Client" where
  "SetSession sess c = c\<lparr>cl_session := Some sess, cl_authenticated := True\<rparr>"

definition IsAuthenticated :: "'v Client \<Rightarrow> bool" where
  "IsAuthenticated c = cl_authenticated c"

section \<open>The loops\<close>

text \<open>
  One iteration of \<open>ReadLoop\<close> after a frame has arrived. \<open>Blocked\<close>: the queue of the handler is full
  and the loop waits; \<open>Stopped\<close>: it returns because the connection is closed (when the queue has room
  and \<open>done\<close> is closed too, \<open>cl_pick\<close> decides).
\<close>

datatype frame = BinaryMessage bytes | OtherMessage bytes

datatype 'v read_result = Continue "'v Client" | Blocked | Stopped | ReadPanic string

fun continue :: "'v Client outcome \<Rightarrow> 'v read_result" where
  "continue (Val c) = Continue c"
| "continue (Panic e) = ReadPanic e"

definition enqueue :: "ClientMessage \<Rightarrow> 'v Client \<Rightarrow> 'v read_result" where
  "enqueue msg c =
     (if length (cl_handles c) < handleBufferSize \<and> (\<not> cl_done c \<or> cl_pick c)
      then Continue (c\<lparr>cl_handles := cl_handles c @ [msg]\<rparr>)
      else if cl_done c then Stopped
      else Blocked)"

fun read_step :: "frame \<Rightarrow> 'v Client \<Rightarrow> 'v read_result" where
  "read_step (OtherMessage raw) c = continue (SendError 0 ''binary messages only'' 400 c)"
| "read_step (BinaryMessage raw) c =
     (case ClientMessage_Unmarshal ClientMessage_zero raw of
        Inl e \<Rightarrow> continue (SendError 0 ''invalid message format'' 400 c)
      | Inr (msg, n) \<Rightarrow>
          if cm_Type msg = MessagePing
          then continue (SendServerMessage (ServerMessage_zero\<lparr>sm_Type := MessagePing, sm_ID := cm_ID msg\<rparr>) c)
          else if \<not> IsAuthenticated c \<and> cm_Type msg \<noteq> MessageAuth
          then continue (SendError (cm_ID msg) ''authentication required'' 401 c)
          else enqueue msg c)"

text \<open>
  \<open>WriteLoop\<close> takes the frames in order; on close it drains what is queued. \<open>handleLoop\<close> takes the
  messages in order, until it notices that the connection is closed.
\<close>

definition write_next :: "'v Client \<Rightarrow> (bytes \<times> 'v Client) option" where
  "write_next c = (case cl_send c of [] \<Rightarrow> None | d # ds \<Rightarrow> Some (d, c\<lparr>cl_send := ds\<rparr>))"

definition handle_next :: "'v Client \<Rightarrow> (ClientMessage \<times> 'v Client) option" where
  "handle_next c =
     (case cl_handles c of
        [] \<Rightarrow> None
      | m # ms \<Rightarrow> if cl_done c \<and> \<not> cl_pick c then None else Some (m, c\<lparr>cl_handles := ms\<rparr>))"

section \<open>Lemmas\<close>

lemma TrimPrefix_append [simp]: "TrimPrefix (p @ s) p = s" and HasPrefix_append [simp]: "HasPrefix (p @ s) p"
  by (simp_all add: TrimPrefix_def HasPrefix_def)

definition sendable :: "ServerMessage \<Rightarrow> bool" where
  "sendable m \<longleftrightarrow> fits16 (sm_Channel m) \<and> fits16 (sm_Error m) \<and> fits16 (sm_Payload m)"

lemma bindO_Val: "bindO x f = Val y \<longleftrightarrow> (\<exists>v. x = Val v \<and> f v = Val y)"
  by (cases x) auto

lemma SendServerMessage_Val:
  "SendServerMessage msg c = Val c' \<longleftrightarrow> sendable msg \<and>
     c' = (if has_room c \<and> (\<not> cl_done c \<or> cl_pick c) then c\<lparr>cl_send := cl_send c @ [ServerMessage_enc msg]\<rparr>
           else if cl_done c then c else Client_Close c)"
  unfolding SendServerMessage_def bindO_Val serverMessage.marshal_Val_iff sendable_def ServerMessage_fits_def
  by auto

lemma SendServerMessage_returns: "sendable msg \<Longrightarrow> \<exists>c'. SendServerMessage msg c = Val c'"
  by (simp add: SendServerMessage_Val)

text \<open>The two queues never grow beyond their capacity, and what waits to be written are server messages.\<close>

definition queue_ok :: "'v Client \<Rightarrow> bool" where
  "queue_ok c \<longleftrightarrow> int (length (cl_send c)) \<le> tn_sendBufferSize (cl_tuning c) \<and>
     length (cl_handles c) \<le> handleBufferSize \<and>
     (\<forall>d\<in>set (cl_send c). \<exists>m. sendable m \<and> d = ServerMessage_enc m)"

lemma queue_ok_send: "queue_ok c \<Longrightarrow> SendServerMessage msg c = Val c' \<Longrightarrow> queue_ok c'"
  by (auto simp: SendServerMessage_Val queue_ok_def has_room_def Client_Close_def)

text \<open>What sending and closing may change: frames join the send queue, and the connection may be closed.\<close>

definition grown :: "'v Client \<Rightarrow> 'v Client \<Rightarrow> bool" where
  "grown c c' \<longleftrightarrow> (\<exists>ds b. c' = c\<lparr>cl_send := cl_send c @ ds, cl_done := cl_done c \<or> b\<rparr>)"

lemma grown_refl [simp]: "grown c c"
  unfolding grown_def by (intro exI [of _ "[]"] exI [of _ False]) simp

lemma grown_trans: "grown a b \<Longrightarrow> grown b c \<Longrightarrow> grown a c"
  by (fastforce simp: grown_def)

definition same_subs :: "'v Client \<Rightarrow> 'v Client \<Rightarrow> bool" where
  "same_subs c c' \<longleftrightarrow> cl_id c' = cl_id c \<and> cl_topics c' = cl_topics c \<and> cl_roomIDs c' = cl_roomIDs c \<and>
     cl_session c' = cl_session c \<and> cl_authenticated c' = cl_authenticated c \<and>
     cl_handles c' = cl_handles c \<and> cl_tuning c' = cl_tuning c \<and> (queue_ok c \<longrightarrow> queue_ok c') \<and> grown c c'"

lemma same_subs_refl [simp]: "same_subs c c"
  by (simp add: same_subs_def)

lemma grown_close: "grown c (Client_Close c)"
  unfolding grown_def by (intro exI [of _ "[]"] exI [of _ True]) (simp add: Client_Close_def)

lemma grown_frame: "grown c (c\<lparr>cl_send := cl_send c @ [d]\<rparr>)"
  unfolding grown_def by (intro exI [of _ "[d]"] exI [of _ False]) simp

lemma SendServerMessage_subs: "SendServerMessage msg c = Val c' \<Longrightarrow> same_subs c c'"
  using queue_ok_send [of c msg c'] grown_close [of c] grown_frame [of c]
  by (auto simp: SendServerMessage_Val same_subs_def Client_Close_def)

lemma sends_subs:
  "Client_Send topic ev c = Val c' \<Longrightarrow> same_subs c c'"
  "SendResponse i m c = Val c' \<Longrightarrow> same_subs c c'"
  "SendError i e code c = Val c' \<Longrightarrow> same_subs c c'"
  by (auto simp: Client_Send_def SendResponse_def SendError_def bindO_Val dest: SendServerMessage_subs)

lemma Client_Close_subs: "same_subs c (Client_Close c)"
  using grown_close [of c] by (simp add: same_subs_def Client_Close_def queue_ok_def)

end
