(* ===== verification/Connection.thy ===== *)
theory Connection
  imports Client
begin

text \<open>
  The three goroutines of a connection, \<^verbatim>\<open>gateway/client.go\<close>: \<open>ReadLoop\<close>, \<open>WriteLoop\<close> and \<open>handleLoop\<close>, each with a
  program counter, around the two channels of the \<open>Client\<close> record. A step is one communication on a
  channel, one call into the socket, or one passage of a loop. The clock, the ticker, the peer, the
  senders of other goroutines and what a handler does to its connection are the environment. Of the
  socket the model uses what its library documents: a read fails once the deadline has passed or the
  connection is closed, a write may fail and fails after its deadline, and pongs are handled inside
  \<open>ReadMessage\<close>. The last fields of the state are a history: they are never read by a step.
\<close>

section \<open>State\<close>

definition flushWait :: duration where
  "flushWait = 2 * Second"

datatype rpc =
    RRead \<comment> \<open>in \<open>ReadMessage\<close>\<close>
  | RGot frame duration \<comment> \<open>before \<open>SetReadDeadline\<close>, with \<open>wait\<close>\<close>
  | RPut ClientMessage \<comment> \<open>at the \<open>select\<close> that queues the message\<close>
  | RLeave \<comment> \<open>in \<open>OnDisconnect\<close>\<close>
  | RDone

datatype wpc =
    WLoop
  | WFlush duration \<comment> \<open>in the inner loop, with \<open>deadline\<close>\<close>
  | WDone

datatype hpc = HLoop | HBusy ClientMessage | HDone

record 'v conn =
  cn_client :: "'v Client"
  cn_now :: duration
  cn_deadline :: duration \<comment> \<open>the read deadline of the socket\<close>
  cn_open :: bool
  cn_reader :: rpc
  cn_writer :: wpc
  cn_handler :: hpc
  cn_next :: duration \<comment> \<open>when the ticker fires next\<close>
  cn_tick :: bool \<comment> \<open>a tick waits in \<open>ticker.C\<close>\<close>
  cn_sent :: "bytes list" \<comment> \<open>the frames \<open>send\<close> took, and those of them it took before \<open>done\<close> was closed\<close>
  cn_due :: "bytes list"
  cn_wire :: "bytes list" \<comment> \<open>the frames written\<close>
  cn_torn :: "bytes list" \<comment> \<open>the frame whose write failed\<close>
  cn_broken :: bool \<comment> \<open>a write failed\<close>
  cn_got :: "ClientMessage list" \<comment> \<open>the messages \<open>handles\<close> took\<close>
  cn_ran :: "ClientMessage list" \<comment> \<open>the messages dispatched\<close>
  cn_heard :: duration \<comment> \<open>when a frame or a pong of the peer came in, the loop turned to a frame, or a login completed last\<close>
  cn_missed :: bool \<comment> \<open>the deadline passed while the reader was reading\<close>

text \<open>The state in which \<open>ReadLoop\<close> has set its first deadline and started the other loops.\<close>

definition start_loops :: "'v Client \<Rightarrow> duration \<Rightarrow> 'v conn" where
  "start_loops c now =
     \<lparr>cn_client = c, cn_now = now, cn_deadline = now + tn_authTimeout (cl_tuning c), cn_open = True,
      cn_reader = RRead, cn_writer = WLoop, cn_handler = HLoop,
      cn_next = now + tn_pingPeriod (cl_tuning c), cn_tick = False,
      cn_sent = [], cn_due = [], cn_wire = [], cn_torn = [], cn_broken = False, cn_got = [], cn_ran = [],
      cn_heard = now, cn_missed = False\<rparr>"

text \<open>A connection after calls of \<open>SendServerMessage\<close>: the history takes in what the channel took.\<close>

definition sent :: "'v Client \<Rightarrow> 'v conn \<Rightarrow> 'v conn" where
  "sent c s =
     (let new = drop (length (cl_send (cn_client s))) (cl_send c) in
      s\<lparr>cn_client := c, cn_sent := cn_sent s @ new,
        cn_due := (if cl_done (cn_client s) then cn_due s else cn_due s @ new)\<rparr>)"

section \<open>ReadLoop\<close>

text \<open>How long a frame that has just arrived keeps the connection alive.\<close>

definition frame_wait :: "'v Client \<Rightarrow> duration" where
  "frame_wait c = (if IsAuthenticated c then tn_pongWait (cl_tuning c) else tn_authTimeout (cl_tuning c))"

definition SetReadDeadline :: "duration \<Rightarrow> 'v conn \<Rightarrow> 'v conn" where
  "SetReadDeadline wait s = s\<lparr>cn_deadline := cn_now s + wait\<rparr>"

text \<open>What the loop makes of a frame: an answer of its own, or a message for \<open>handleLoop\<close>.\<close>

fun read_frame :: "frame \<Rightarrow> 'v Client \<Rightarrow> (ClientMessage option \<times> 'v Client) outcome" where
  "read_frame (OtherMessage raw) c =
     bindO (SendError 0 ''binary messages only'' 400 c) (\<lambda>c. Val (None, c))"
| "read_frame (BinaryMessage raw) c =
     (case ClientMessage_Unmarshal ClientMessage_zero raw of
        Inl e \<Rightarrow> bindO (SendError 0 ''invalid message format'' 400 c) (\<lambda>c. Val (None, c))
      | Inr (msg, n) \<Rightarrow>
          if cm_Type msg = MessagePing
          then bindO (SendServerMessage (ServerMessage_zero\<lparr>sm_Type := MessagePing, sm_ID := cm_ID msg\<rparr>) c)
                 (\<lambda>c. Val (None, c))
          else if \<not> IsAuthenticated c \<and> cm_Type msg \<noteq> MessageAuth
          then bindO (SendError (cm_ID msg) ''authentication required'' 401 c) (\<lambda>c. Val (None, c))
          else Val (Some msg, c))"

definition next_read :: "ClientMessage option \<Rightarrow> rpc" where
  "next_read queued = (case queued of None \<Rightarrow> RRead | Some msg \<Rightarrow> RPut msg)"

definition put_handle :: "ClientMessage \<Rightarrow> 'v conn \<Rightarrow> 'v conn" where
  "put_handle msg s =
     s\<lparr>cn_client := (cn_client s)\<lparr>cl_handles := cl_handles (cn_client s) @ [msg]\<rparr>, cn_reader := RRead,
       cn_got := cn_got s @ [msg]\<rparr>"

text \<open>The loop returns: the deferred function closes the client and runs \<open>OnDisconnect\<close>.\<close>

definition leave_read :: "'v conn \<Rightarrow> 'v conn" where
  "leave_read s = s\<lparr>cn_client := Client_Close (cn_client s), cn_reader := RLeave\<rparr>"

section \<open>WriteLoop\<close>

definition write_frame :: "bytes \<Rightarrow> 'v Client \<Rightarrow> 'v conn \<Rightarrow> 'v conn" where
  "write_frame data c s = s\<lparr>cn_client := c, cn_wire := cn_wire s @ [data]\<rparr>"

text \<open>The loop returns; its deferred function closes the socket.\<close>

definition leave_write :: "'v conn \<Rightarrow> 'v conn" where
  "leave_write s = s\<lparr>cn_writer := WDone, cn_open := False\<rparr>"

definition lose_frame :: "bytes \<Rightarrow> 'v Client \<Rightarrow> 'v conn \<Rightarrow> 'v conn" where
  "lose_frame data c s = leave_write (s\<lparr>cn_client := c, cn_torn := cn_torn s @ [data], cn_broken := True\<rparr>)"

fun may_write :: "wpc \<Rightarrow> duration \<Rightarrow> bool" where
  "may_write WLoop now = True"
| "may_write (WFlush deadline) now = (now \<le> deadline)"
| "may_write WDone now = False"

section \<open>handleLoop\<close>

definition take_message :: "ClientMessage \<Rightarrow> 'v Client \<Rightarrow> 'v conn \<Rightarrow> 'v conn" where
  "take_message msg c s = s\<lparr>cn_client := c, cn_handler := HBusy msg, cn_ran := cn_ran s @ [msg]\<rparr>"

section \<open>Steps\<close>

text \<open>
  The steps of the loops. A \<open>select\<close> with several ready cases takes any of them. \<open>handled\<close> is the return of
  \<open>Dispatch\<close>.
\<close>

inductive conn_work :: "'v conn \<Rightarrow> 'v conn \<Rightarrow> bool" where
  refresh: "\<lbrakk>cn_reader s = RGot frame wait; read_frame frame ((cn_client s)\<lparr>cl_pick := pick\<rparr>) = Val (queued, c)\<rbrakk>
    \<Longrightarrow> conn_work s (sent c ((SetReadDeadline wait s)\<lparr>cn_reader := next_read queued, cn_heard := cn_now s\<rparr>))"
| put: "\<lbrakk>cn_reader s = RPut msg; length (cl_handles (cn_client s)) < handleBufferSize\<rbrakk>
    \<Longrightarrow> conn_work s (put_handle msg s)"
| give_up: "\<lbrakk>cn_reader s = RPut msg; cl_done (cn_client s)\<rbrakk> \<Longrightarrow> conn_work s (leave_read s)"
| read_error: "\<lbrakk>cn_reader s = RRead; \<not> cn_open s \<or> cn_deadline s \<le> cn_now s\<rbrakk> \<Longrightarrow> conn_work s (leave_read s)"
| disconnected: "cn_reader s = RLeave \<Longrightarrow> conn_work s (s\<lparr>cn_reader := RDone\<rparr>)"
| written: "\<lbrakk>may_write (cn_writer s) (cn_now s); write_next (cn_client s) = Some (data, c)\<rbrakk>
    \<Longrightarrow> conn_work s (write_frame data c s)"
| unwritten: "\<lbrakk>cn_writer s \<noteq> WDone; write_next (cn_client s) = Some (data, c)\<rbrakk> \<Longrightarrow> conn_work s (lose_frame data c s)"
| ping: "\<lbrakk>cn_writer s = WLoop; cn_tick s\<rbrakk> \<Longrightarrow> conn_work s (s\<lparr>cn_tick := False\<rparr>)"
| ping_error: "\<lbrakk>cn_writer s = WLoop; cn_tick s\<rbrakk>
    \<Longrightarrow> conn_work s (leave_write (s\<lparr>cn_tick := False, cn_broken := True\<rparr>))"
| flush: "\<lbrakk>cn_writer s = WLoop; cl_done (cn_client s)\<rbrakk>
    \<Longrightarrow> conn_work s (s\<lparr>cn_writer := WFlush (cn_now s + flushWait)\<rparr>)"
| flushed: "\<lbrakk>cn_writer s = WFlush deadline; cl_send (cn_client s) = []\<rbrakk> \<Longrightarrow> conn_work s (leave_write s)"
| take: "\<lbrakk>cn_handler s = HLoop; handle_next ((cn_client s)\<lparr>cl_pick := True\<rparr>) = Some (msg, c)\<rbrakk>
    \<Longrightarrow> conn_work s (take_message msg c s)"
| stop: "\<lbrakk>cn_handler s = HLoop; cl_done (cn_client s)\<rbrakk> \<Longrightarrow> conn_work s (s\<lparr>cn_handler := HDone\<rparr>)"
| handled: "cn_handler s = HBusy msg \<Longrightarrow> conn_work s (s\<lparr>cn_handler := HLoop\<rparr>)"

text \<open>
  The environment: the peer sends a frame within the read limit, a pong, or ends the connection; anybody
  sends, subscribes, unsubscribes, logs the connection in or closes it; time passes and the ticker fires.
\<close>

definition frame_size :: "frame \<Rightarrow> int" where
  "frame_size frame = (case frame of BinaryMessage raw \<Rightarrow> int (length raw) | OtherMessage raw \<Rightarrow> int (length raw))"

inductive conn_env :: "'v conn \<Rightarrow> 'v conn \<Rightarrow> bool" where
  receive: "\<lbrakk>cn_reader s = RRead; cn_open s; frame_size frame \<le> tn_maxMessageSize (cl_tuning (cn_client s))\<rbrakk>
    \<Longrightarrow> conn_env s (s\<lparr>cn_reader := RGot frame (frame_wait (cn_client s)), cn_heard := cn_now s\<rparr>)"
| pong: "\<lbrakk>cn_reader s = RRead; cn_open s\<rbrakk> \<Longrightarrow> conn_env s ((SetReadDeadline (tn_pongWait (cl_tuning (cn_client s))) s)\<lparr>cn_heard := cn_now s\<rparr>)"
| hang_up: "cn_reader s = RRead \<Longrightarrow> conn_env s (leave_read s)"
| send: "SendServerMessage msg ((cn_client s)\<lparr>cl_pick := pick\<rparr>) = Val c \<Longrightarrow> conn_env s (sent c s)"
| subscribe: "conn_env s (s\<lparr>cn_client := fst (Client_Subscribe topic (cn_client s) bus)\<rparr>)"
| unsubscribe: "conn_env s (s\<lparr>cn_client := fst (Client_Unsubscribe topic (cn_client s) bus)\<rparr>)"
| login: "conn_env s ((SetReadDeadline (tn_pongWait (cl_tuning (cn_client s))) (s\<lparr>cn_client := SetSession sess (cn_client s)\<rparr>))
      \<lparr>cn_heard := cn_now s\<rparr>)"
| shut: "conn_env s (s\<lparr>cn_client := Client_Close (cn_client s)\<rparr>)"
| elapse: "0 < d \<Longrightarrow> conn_env s (s\<lparr>cn_now := cn_now s + d,
      cn_missed := cn_missed s \<or> cn_reader s = RRead \<and> cn_deadline s \<le> cn_now s + d\<rparr>)"
| tick: "\<lbrakk>cn_next s \<le> cn_now s; cn_writer s \<noteq> WDone\<rbrakk>
    \<Longrightarrow> conn_env s (s\<lparr>cn_tick := True, cn_next := cn_next s + tn_pingPeriod (cl_tuning (cn_client s))\<rparr>)"

inductive conn_reach :: "'v Client \<Rightarrow> duration \<Rightarrow> 'v conn \<Rightarrow> bool" for c now where
  init: "conn_reach c now (start_loops c now)"
| work: "\<lbrakk>conn_reach c now s; conn_work s s'\<rbrakk> \<Longrightarrow> conn_reach c now s'"
| env: "\<lbrakk>conn_reach c now s; conn_env s s'\<rbrakk> \<Longrightarrow> conn_reach c now s'"

end
