(* ===== verification/Connection_Props.thy ===== *)
theory Connection_Props
  imports Connection
begin

text \<open>
  Lemmas on the loops of a connection: how the finer steps compose to those of \<open>read_step\<close>, the invariants
  of the two channels and of the deadline, and the number of steps the loops have left.
\<close>

inductive_cases conn_workE: "conn_work s s'"
inductive_cases conn_envE: "conn_env s s'"

section \<open>Parts of the client a send leaves alone\<close>

text \<open>\<open>c'\<close> comes from \<open>c\<close> by sends: the queue may have grown at its end and the connection may be closed.\<close>

definition posted :: "'v Client \<Rightarrow> 'v Client \<Rightarrow> bool" where
  "posted c c' \<longleftrightarrow> (\<exists>new. cl_send c' = cl_send c @ new) \<and> cl_handles c' = cl_handles c \<and> cl_tuning c' = cl_tuning c \<and>
     cl_authenticated c' = cl_authenticated c \<and> (cl_done c \<longrightarrow> cl_done c')"

lemma posted_send: "SendServerMessage msg (c\<lparr>cl_pick := pick\<rparr>) = Val c' \<Longrightarrow> posted c c'"
  by (auto simp: SendServerMessage_Val posted_def Client_Close_def)

lemma posted_frame: "read_frame frame (c\<lparr>cl_pick := pick\<rparr>) = Val (queued, c') \<Longrightarrow> posted c c'"
  by (cases frame)
     (auto simp: bindO_Val SendError_def posted_send split: sum.splits if_splits,
      auto simp: posted_def)

lemma posted_sel:
  "posted c c' \<Longrightarrow> cl_handles c' = cl_handles c" "posted c c' \<Longrightarrow> cl_tuning c' = cl_tuning c"
  "posted c c' \<Longrightarrow> cl_authenticated c' = cl_authenticated c" "posted c c' \<Longrightarrow> cl_done c \<Longrightarrow> cl_done c'"
  by (simp_all add: posted_def)

lemma write_next_Some: "write_next c = Some (data, c') \<longleftrightarrow> (\<exists>ds. cl_send c = data # ds \<and> c' = c\<lparr>cl_send := ds\<rparr>)"
  by (auto simp: write_next_def split: list.splits)

lemma take_next_Some:
  "handle_next (c\<lparr>cl_pick := True\<rparr>) = Some (msg, c') \<longleftrightarrow>
     (\<exists>ms. cl_handles c = msg # ms \<and> c' = c\<lparr>cl_pick := True, cl_handles := ms\<rparr>)"
  by (auto simp: handle_next_def split: list.splits)

lemma subs_sel [simp]:
  "cl_send (fst (Client_Subscribe topic c bus)) = cl_send c" "cl_handles (fst (Client_Subscribe topic c bus)) = cl_handles c"
  "cl_tuning (fst (Client_Subscribe topic c bus)) = cl_tuning c" "cl_done (fst (Client_Subscribe topic c bus)) = cl_done c"
  "cl_authenticated (fst (Client_Subscribe topic c bus)) = cl_authenticated c"
  "cl_send (fst (Client_Unsubscribe topic c bus)) = cl_send c" "cl_handles (fst (Client_Unsubscribe topic c bus)) = cl_handles c"
  "cl_tuning (fst (Client_Unsubscribe topic c bus)) = cl_tuning c" "cl_done (fst (Client_Unsubscribe topic c bus)) = cl_done c"
  "cl_authenticated (fst (Client_Unsubscribe topic c bus)) = cl_authenticated c"
  by (simp_all add: Client_Subscribe_def Client_Unsubscribe_def Let_def)

lemmas conn_defs = SetReadDeadline_def put_handle_def leave_read_def write_frame_def leave_write_def lose_frame_def
  take_message_def Client_Close_def SetSession_def

text \<open>One iteration of the read loop as in \<open>read_step\<close> is \<open>read_frame\<close> and then \<open>enqueue\<close>.\<close>

lemma read_step_split:
  "read_step frame c =
     (case read_frame frame c of
        Panic e \<Rightarrow> ReadPanic e
      | Val (None, c') \<Rightarrow> Continue c'
      | Val (Some msg, c') \<Rightarrow> enqueue msg c')"
proof -
  have *: "continue x = (case bindO x (\<lambda>c. Val (None :: ClientMessage option, c)) of Panic e \<Rightarrow> ReadPanic e
      | Val (None, c') \<Rightarrow> Continue c' | Val (Some msg, c') \<Rightarrow> enqueue msg c')" for x :: "'a Client outcome"
    by (cases x) simp_all
  show ?thesis by (cases frame) (simp_all add: * split: sum.split)
qed

section \<open>The channels\<close>

definition pipes :: "'v conn \<Rightarrow> bool" where
  "pipes s \<longleftrightarrow> cn_sent s = cn_wire s @ cn_torn s @ cl_send (cn_client s) \<and> cn_got s = cn_ran s @ cl_handles (cn_client s) \<and>
     length (cl_handles (cn_client s)) \<le> handleBufferSize"

definition ending :: "'v conn \<Rightarrow> bool" where
  "ending s \<longleftrightarrow> (cn_open s \<longleftrightarrow> cn_writer s \<noteq> WDone) \<and> (cn_handler s = HDone \<longrightarrow> cl_done (cn_client s)) \<and>
     (cn_reader s = RLeave \<or> cn_reader s = RDone \<longrightarrow> cl_done (cn_client s)) \<and>
     (\<forall>d. cn_writer s = WFlush d \<longrightarrow> cl_done (cn_client s)) \<and>
     (cn_broken s \<longrightarrow> cn_writer s = WDone) \<and> (cn_torn s \<noteq> [] \<longrightarrow> cn_broken s) \<and> length (cn_torn s) \<le> 1"

definition due_ok :: "'v conn \<Rightarrow> bool" where
  "due_ok s \<longleftrightarrow> (\<exists>late. cn_sent s = cn_due s @ late \<and> (\<not> cl_done (cn_client s) \<longrightarrow> late = [])) \<and>
     (cn_writer s = WDone \<and> \<not> cn_broken s \<longrightarrow> cl_done (cn_client s) \<and> (\<exists>more. cn_wire s = cn_due s @ more))"

lemma sent_sel [simp]:
  "cn_client (sent c s) = c" "cn_now (sent c s) = cn_now s" "cn_deadline (sent c s) = cn_deadline s"
  "cn_open (sent c s) = cn_open s" "cn_reader (sent c s) = cn_reader s" "cn_writer (sent c s) = cn_writer s"
  "cn_handler (sent c s) = cn_handler s" "cn_tick (sent c s) = cn_tick s" "cn_next (sent c s) = cn_next s"
  "cn_wire (sent c s) = cn_wire s" "cn_torn (sent c s) = cn_torn s" "cn_broken (sent c s) = cn_broken s"
  "cn_got (sent c s) = cn_got s" "cn_ran (sent c s) = cn_ran s" "cn_heard (sent c s) = cn_heard s"
  "cn_missed (sent c s) = cn_missed s"
  by (simp_all add: sent_def Let_def)

lemma sent_history:
  assumes "posted (cn_client s) c"
  obtains new where "cl_send c = cl_send (cn_client s) @ new" "cn_sent (sent c s) = cn_sent s @ new"
    "cn_due (sent c s) = (if cl_done (cn_client s) then cn_due s else cn_due s @ new)"
  using assms by (auto simp: posted_def sent_def Let_def)

lemma pipes_sent: "posted (cn_client s) c \<Longrightarrow> pipes s \<Longrightarrow> pipes (sent c s)"
  by (rule sent_history [of s c]) (simp_all add: pipes_def posted_sel)

lemma due_sent: "posted (cn_client s) c \<Longrightarrow> due_ok s \<Longrightarrow> due_ok (sent c s)"
  by (rule sent_history [of s c]) (auto simp: due_ok_def dest: posted_sel(4))

lemma ending_sent: "posted (cn_client s) c \<Longrightarrow> ending s \<Longrightarrow> ending (sent c s)"
  by (auto simp: ending_def posted_sel)

text \<open>The first half of \<open>refresh\<close>, before the answer is sent.\<close>

lemma deadline_pipes [simp]:
  "cn_client (SetReadDeadline wait s) = cn_client s"
  "pipes ((SetReadDeadline wait s)\<lparr>cn_reader := r\<rparr>) = pipes s" "due_ok ((SetReadDeadline wait s)\<lparr>cn_reader := r\<rparr>) = due_ok s"
  "pipes (SetReadDeadline wait s) = pipes s" "due_ok (SetReadDeadline wait s) = due_ok s"
  "ending (SetReadDeadline wait s) = ending s"
  "pipes (s\<lparr>cn_heard := h\<rparr>) = pipes s" "due_ok (s\<lparr>cn_heard := h\<rparr>) = due_ok s" "ending (s\<lparr>cn_heard := h\<rparr>) = ending s"
  by (simp_all add: SetReadDeadline_def pipes_def due_ok_def ending_def)

lemma ending_torn: "ending s \<Longrightarrow> cn_writer s \<noteq> WDone \<Longrightarrow> cn_torn s = []"
  by (auto simp: ending_def)

lemma may_write_running: "may_write w now \<Longrightarrow> w \<noteq> WDone"
  by auto

lemma work_pipes: "conn_work s s' \<Longrightarrow> ending s \<Longrightarrow> pipes s \<Longrightarrow> pipes s'"
proof (induction rule: conn_work.induct)
  case (refresh s frame wait pick queued c)
  then show ?case by (intro pipes_sent) (auto dest: posted_frame)
qed (auto simp: pipes_def conn_defs write_next_Some take_next_Some ending_torn dest!: may_write_running)

lemma env_pipes: "conn_env s s' \<Longrightarrow> pipes s \<Longrightarrow> pipes s'"
proof (induction rule: conn_env.induct)
  case (send msg s pick c)
  then show ?case by (intro pipes_sent) (auto dest: posted_send)
qed (auto simp: pipes_def conn_defs)

lemma work_ending: "conn_work s s' \<Longrightarrow> ending s \<Longrightarrow> ending s'"
proof (induction rule: conn_work.induct)
  case (refresh s frame wait pick queued c)
  then show ?case
    by (intro ending_sent) (auto dest: posted_frame simp: ending_def SetReadDeadline_def next_read_def split: option.splits)
qed (auto simp: ending_def conn_defs write_next_Some take_next_Some)

lemma env_ending: "conn_env s s' \<Longrightarrow> ending s \<Longrightarrow> ending s'"
proof (induction rule: conn_env.induct)
  case (send msg s pick c)
  then show ?case by (intro ending_sent) (auto dest: posted_send)
qed (auto simp: ending_def conn_defs)

text \<open>When \<open>WriteLoop\<close> finds the queue empty at the end, all that was sent before the close is written.\<close>

lemma work_due: "conn_work s s' \<Longrightarrow> pipes s \<Longrightarrow> ending s \<Longrightarrow> due_ok s \<Longrightarrow> due_ok s'"
proof (induction rule: conn_work.induct)
  case (refresh s frame wait pick queued c)
  then show ?case by (intro due_sent) (auto dest: posted_frame)
next
  case (flushed s deadline)
  then have "cn_torn s = []" "cl_done (cn_client s)" by (simp_all add: ending_torn) (simp add: ending_def)
  with flushed show ?case by (auto simp: due_ok_def pipes_def leave_write_def)
next
  case (written s data c)
  then have "cn_writer s \<noteq> WDone" by auto
  with written show ?case by (auto simp: due_ok_def write_frame_def write_next_Some)
qed (simp_all add: due_ok_def conn_defs write_next_Some take_next_Some, auto)

lemma env_due: "conn_env s s' \<Longrightarrow> due_ok s \<Longrightarrow> due_ok s'"
proof (induction rule: conn_env.induct)
  case (send msg s pick c)
  then show ?case by (intro due_sent) (auto dest: posted_send)
qed (auto simp: due_ok_def conn_defs)

text \<open>A client as \<open>NewClient\<close> makes it.\<close>

definition fresh_client :: "'v Client \<Rightarrow> bool" where
  "fresh_client c \<longleftrightarrow> cl_send c = [] \<and> cl_handles c = [] \<and> \<not> cl_done c"

lemma NewClient_fresh: "fresh_client (fst (NewClient i pick t bus))"
  by (simp add: NewClient_def Let_def fresh_client_def)

lemma conn_reach_ok: "conn_reach c now s \<Longrightarrow> fresh_client c \<Longrightarrow> pipes s \<and> ending s \<and> due_ok s"
proof (induction rule: conn_reach.induct)
  case init
  then show ?case by (simp add: start_loops_def pipes_def ending_def due_ok_def fresh_client_def)
qed (auto intro: work_pipes work_ending work_due env_pipes env_ending env_due)

section \<open>The deadline\<close>

text \<open>
  The deadline lies one of the two waits after the last sign of life, unless the reader is about to set
  it; then it has one of the two in its hands, and the old deadline is no later.
\<close>

fun wait_in_hand :: "rpc \<Rightarrow> duration \<Rightarrow> duration" where
  "wait_in_hand (RGot frame wait) d = wait"
| "wait_in_hand _ d = d"

definition deadline_ok :: "tuning \<Rightarrow> 'v conn \<Rightarrow> bool" where
  "deadline_ok t s \<longleftrightarrow> cl_tuning (cn_client s) = t \<and> cn_heard s \<le> cn_now s \<and>
     cn_deadline s \<le> cn_heard s + max (tn_authTimeout t) (tn_pongWait t) \<and>
     wait_in_hand (cn_reader s) (cn_deadline s - cn_heard s) \<in> {tn_authTimeout t, tn_pongWait t}"

lemma work_deadline: "conn_work s s' \<Longrightarrow> deadline_ok t s \<Longrightarrow> deadline_ok t s'"
proof (induction rule: conn_work.induct)
  case (refresh s frame wait pick queued c)
  then have "cl_tuning c = t" using posted_sel(2) [OF posted_frame [OF refresh(2)]] by (simp add: deadline_ok_def)
  moreover have "wait \<in> {tn_authTimeout t, tn_pongWait t}" using refresh unfolding deadline_ok_def by simp
  ultimately show ?case by (auto simp: deadline_ok_def SetReadDeadline_def next_read_def split: option.splits)
qed (auto simp: deadline_ok_def conn_defs write_next_Some take_next_Some)

lemma env_deadline: "conn_env s s' \<Longrightarrow> deadline_ok t s \<Longrightarrow> deadline_ok t s'"
proof (induction rule: conn_env.induct)
  case (send msg s pick c)
  then have "cl_tuning c = t" using posted_sel(2) [OF posted_send [OF send(1)]] by (simp add: deadline_ok_def)
  with send show ?case by (simp add: deadline_ok_def)
next
  case (login s sess)
  then show ?case by (cases "cn_reader s") (auto simp: deadline_ok_def conn_defs)
qed (auto simp: deadline_ok_def conn_defs frame_wait_def)

lemma conn_reach_deadline: "conn_reach c now s \<Longrightarrow> deadline_ok (cl_tuning c) s"
proof (induction rule: conn_reach.induct)
  case init
  then show ?case by (simp add: start_loops_def deadline_ok_def)
qed (auto intro: work_deadline env_deadline)

text \<open>A reader that reads leaves on its own only when the deadline has passed or the socket is closed; and
  once the deadline has passed, no step of the loops makes it wait for a frame again.\<close>

lemma reader_leaves:
  "conn_work s s' \<Longrightarrow> cn_reader s = RRead \<Longrightarrow> cn_reader s' = RLeave \<Longrightarrow> \<not> cn_open s \<or> cn_deadline s \<le> cn_now s"
  by (induction rule: conn_work.induct) (auto simp: conn_defs)

definition late_reader :: "'v conn \<Rightarrow> bool" where
  "late_reader s \<longleftrightarrow> cn_reader s = RRead \<and> cn_deadline s \<le> cn_now s \<or> cn_reader s = RLeave \<or> cn_reader s = RDone"

lemma late_reader_work: "conn_work s s' \<Longrightarrow> late_reader s \<Longrightarrow> late_reader s'"
  by (induction rule: conn_work.induct) (auto simp: late_reader_def conn_defs)

lemma late_reader_run: "(conn_work ^^ n) s s' \<Longrightarrow> late_reader s \<Longrightarrow> late_reader s'"
  by (induction n arbitrary: s') (auto intro: late_reader_work)

section \<open>The work left\<close>

fun reader_left :: "rpc \<Rightarrow> nat" where
  "reader_left RDone = 0"
| "reader_left RLeave = 1"
| "reader_left RRead = 2"
| "reader_left (RPut msg) = 5"
| "reader_left (RGot frame wait) = 7"

fun writer_left :: "wpc \<Rightarrow> nat" where
  "writer_left WDone = 0"
| "writer_left (WFlush d) = 1"
| "writer_left WLoop = 2"

fun handler_left :: "hpc \<Rightarrow> nat" where
  "handler_left HDone = 0"
| "handler_left HLoop = 1"
| "handler_left (HBusy msg) = 2"

text \<open>
  A frame that waits to be looked at is an answer to write or a message to queue, take and handle; a
  message in the channel is to be taken and handled.
\<close>

definition loops_left :: "'v conn \<Rightarrow> nat" where
  "loops_left s = reader_left (cn_reader s) + writer_left (cn_writer s) + handler_left (cn_handler s) +
     length (cl_send (cn_client s)) + 2 * length (cl_handles (cn_client s)) + (if cn_tick s then 1 else 0)"

lemma read_frame_answers:
  assumes "read_frame frame (c\<lparr>cl_pick := pick\<rparr>) = Val (queued, c')"
  shows "length (cl_send c') + reader_left (next_read queued) < length (cl_send c) + 7" "cl_handles c' = cl_handles c"
proof -
  have "length (cl_send c') \<le> Suc (length (cl_send c))"
    using assms by (cases frame)
      (auto simp: bindO_Val SendError_def SendServerMessage_Val Client_Close_def split: sum.splits if_splits)
  moreover have "length (cl_send c') = length (cl_send c)" if "queued \<noteq> None"
    using assms that by (cases frame) (auto simp: bindO_Val split: sum.splits if_splits)
  ultimately show "length (cl_send c') + reader_left (next_read queued) < length (cl_send c) + 7"
    by (cases queued) (simp_all add: next_read_def)
  show "cl_handles c' = cl_handles c" using posted_sel(1) [OF posted_frame [OF assms]] .
qed

lemma work_left_less: "conn_work s s' \<Longrightarrow> loops_left s' < loops_left s"
proof (induction rule: conn_work.induct)
  case (refresh s frame wait pick queued c)
  then show ?case using read_frame_answers [OF refresh(2)] by (simp add: loops_left_def SetReadDeadline_def)
next
  case (unwritten s data c)
  then show ?case by (cases "cn_writer s") (auto simp: loops_left_def conn_defs write_next_Some)
qed (auto simp: loops_left_def conn_defs write_next_Some take_next_Some)

lemma loops_run: "(conn_work ^^ n) s s' \<Longrightarrow> loops_left s' + n \<le> loops_left s"
proof (induction n arbitrary: s')
  case (Suc n)
  then obtain u where "(conn_work ^^ n) s u" "conn_work u s'" by auto
  with Suc.IH [of u] work_left_less [of u s'] show ?case by simp
qed simp

text \<open>What the loops wait for when none of them can move.\<close>

lemma stuck_writer:
  assumes "\<nexists>t. conn_work s t"
  shows "cn_writer s = WDone \<or> cn_writer s = WLoop \<and> cl_send (cn_client s) = [] \<and> \<not> cl_done (cn_client s)"
proof (cases "cl_send (cn_client s)")
  case Nil
  with assms show ?thesis using conn_work.flush [of s] conn_work.flushed [of s] by (cases "cn_writer s") auto
next
  case (Cons data ds)
  then have "write_next (cn_client s) = Some (data, (cn_client s)\<lparr>cl_send := ds\<rparr>)" by (simp add: write_next_Some)
  with assms show ?thesis using conn_work.unwritten by blast
qed

lemma stuck_handler:
  assumes "\<nexists>t. conn_work s t"
  shows "cn_handler s = HDone \<or> cn_handler s = HLoop \<and> cl_handles (cn_client s) = [] \<and> \<not> cl_done (cn_client s)"
proof (cases "cn_handler s")
  case HLoop
  have "cl_handles (cn_client s) = []"
  proof (rule ccontr)
    assume "cl_handles (cn_client s) \<noteq> []"
    then obtain m ms where "cl_handles (cn_client s) = m # ms" by (cases "cl_handles (cn_client s)") auto
    then have "handle_next ((cn_client s)\<lparr>cl_pick := True\<rparr>) = Some (m, (cn_client s)\<lparr>cl_pick := True, cl_handles := ms\<rparr>)"
      by (simp add: take_next_Some)
    with HLoop assms show False using conn_work.take by blast
  qed
  with HLoop assms show ?thesis using conn_work.stop by blast
qed (use assms conn_work.handled in blast)+

lemma read_frame_returns: "\<exists>queued c'. read_frame frame c = Val (queued, c')"
proof -
  have *: "\<exists>c'. SendServerMessage m c = Val c'"
    if "sm_Channel m = []" "sm_Payload m = []" "length (sm_Error m) < 30" for m
    using that by (intro SendServerMessage_returns) (simp add: sendable_def fits16_def)
  show ?thesis
    by (cases frame)
       (auto simp: bindO_Val SendError_def ServerMessage_zero_def intro!: * split: sum.splits)
qed

lemma stuck_reader:
  assumes "\<nexists>t. conn_work s t"
  shows "cn_reader s = RDone \<or> cn_reader s = RRead \<and> cn_open s \<and> cn_now s < cn_deadline s \<or>
    (\<exists>msg. cn_reader s = RPut msg \<and> handleBufferSize \<le> length (cl_handles (cn_client s)) \<and> \<not> cl_done (cn_client s))"
proof (cases "cn_reader s")
  case RRead
  with assms conn_work.read_error [of s] show ?thesis by (meson not_le)
next
  case (RGot frame wait)
  obtain queued c where "read_frame frame ((cn_client s)\<lparr>cl_pick := True\<rparr>) = Val (queued, c)"
    using read_frame_returns by blast
  from conn_work.refresh [OF RGot this] assms show ?thesis by blast
next
  case (RPut msg)
  with assms conn_work.put [OF RPut] conn_work.give_up [OF RPut] show ?thesis by (meson not_le)
qed (use assms conn_work.disconnected in blast)+

section \<open>The atomic steps of a client\<close>

text \<open>
  The steps in which \<^verbatim>\<open>Gateway\<close> counts for one connection: a whole iteration of a loop, a send, a change of
  the subscriptions, a login, a close. \<open>choose\<close> re-draws the choice of a \<open>select\<close>.
\<close>

inductive client_move :: "'v Client \<Rightarrow> 'v Client \<Rightarrow> bool" where
  read: "read_step frame c = Continue c' \<Longrightarrow> client_move c c'"
| flush: "write_next c = Some (data, c') \<Longrightarrow> client_move c c'"
| handle: "handle_next c = Some (msg, c') \<Longrightarrow> client_move c c'"
| send: "SendServerMessage msg c = Val c' \<Longrightarrow> client_move c c'"
| subscribe: "client_move c (fst (Client_Subscribe topic c bus))"
| unsubscribe: "client_move c (fst (Client_Unsubscribe topic c bus))"
| login: "client_move c (SetSession sess c)"
| close: "client_move c (Client_Close c)"
| choose: "client_move c (c\<lparr>cl_pick := pick\<rparr>)"

text \<open>A message about to be queued passed the tests of the read loop, and would pass them again.\<close>

definition put_ok :: "'v conn \<Rightarrow> bool" where
  "put_ok s \<longleftrightarrow> (\<forall>msg. cn_reader s = RPut msg \<longrightarrow> ClientMessage_fits msg \<and> cm_Type msg \<noteq> MessagePing \<and>
     (cl_authenticated (cn_client s) \<or> cm_Type msg = MessageAuth))"

lemma read_frame_Some:
  assumes "read_frame frame c = Val (Some msg, c')"
  shows "ClientMessage_fits msg \<and> cm_Type msg \<noteq> MessagePing \<and> (cl_authenticated c \<or> cm_Type msg = MessageAuth) \<and> c' = c"
  using assms clientMessage.unmarshal_bound
  by (cases frame) (auto simp: bindO_Val IsAuthenticated_def split: sum.splits if_splits)

lemma put_ok_sent: "posted (cn_client s) c \<Longrightarrow> put_ok s \<Longrightarrow> put_ok (sent c s)"
  by (simp add: put_ok_def posted_sel)

lemma work_put_ok: "conn_work s s' \<Longrightarrow> put_ok s \<Longrightarrow> put_ok s'"
proof (induction rule: conn_work.induct)
  case (refresh s frame wait pick queued c)
  show ?case
  proof (cases queued)
    case (Some msg)
    with read_frame_Some [of frame _ msg c] refresh(2) show ?thesis by (auto simp: put_ok_def next_read_def)
  qed (simp add: put_ok_def next_read_def)
qed (auto simp: put_ok_def conn_defs write_next_Some take_next_Some)

lemma env_put_ok: "conn_env s s' \<Longrightarrow> put_ok s \<Longrightarrow> put_ok s'"
proof (induction rule: conn_env.induct)
  case (send msg s pick c)
  then show ?case by (intro put_ok_sent) (auto dest: posted_send)
qed (auto simp: put_ok_def conn_defs)

lemma conn_reach_put_ok: "conn_reach c now s \<Longrightarrow> put_ok s"
proof (induction rule: conn_reach.induct)
  case init
  then show ?case by (simp add: start_loops_def put_ok_def)
qed (auto intro: work_put_ok env_put_ok)

lemma chosen_move: "client_move (c\<lparr>cl_pick := pick\<rparr>) c' \<Longrightarrow> client_move\<^sup>*\<^sup>* c c'"
  using client_move.choose [of c pick] by (rule converse_rtranclp_into_rtranclp [OF _ r_into_rtranclp])

text \<open>Queueing a message is an iteration of the read loop on a frame that carries it.\<close>

lemma put_move:
  assumes "put_ok s" "cn_reader s = RPut msg" "length (cl_handles (cn_client s)) < handleBufferSize"
  shows "client_move\<^sup>*\<^sup>* (cn_client s) (cn_client (put_handle msg s))"
proof -
  let ?c = "(cn_client s)\<lparr>cl_pick := True\<rparr>" and ?f = "BinaryMessage (ClientMessage_enc msg)"
  have ok: "ClientMessage_fits msg" "cm_Type msg \<noteq> MessagePing" "cl_authenticated (cn_client s) \<or> cm_Type msg = MessageAuth"
    using assms(1,2) by (auto simp: put_ok_def)
  have "ClientMessage_Unmarshal ClientMessage_zero (ClientMessage_enc msg) = Inr (msg, length (ClientMessage_enc msg))"
    using clientMessage.unmarshal_enc [OF ok(1), of ClientMessage_zero "[]"] by simp
  then have "read_step ?f ?c = Continue (?c\<lparr>cl_handles := cl_handles (cn_client s) @ [msg]\<rparr>)"
    using ok(2,3) assms(3) by (auto simp: IsAuthenticated_def enqueue_def)
  from chosen_move [OF client_move.read [OF this]]
  have "client_move\<^sup>*\<^sup>* (cn_client s) (?c\<lparr>cl_handles := cl_handles (cn_client s) @ [msg]\<rparr>)" .
  moreover have "client_move (?c\<lparr>cl_handles := cl_handles (cn_client s) @ [msg]\<rparr>) (cn_client (put_handle msg s))"
    using client_move.choose [of "?c\<lparr>cl_handles := cl_handles (cn_client s) @ [msg]\<rparr>" "cl_pick (cn_client s)"]
    by (simp add: put_handle_def)
  ultimately show ?thesis by (rule rtranclp.rtrancl_into_rtrancl)
qed

lemma refresh_move:
  assumes "read_frame frame (c\<lparr>cl_pick := pick\<rparr>) = Val (queued, c')"
  shows "client_move\<^sup>*\<^sup>* c c'"
proof (cases queued)
  case None
  then have "read_step frame (c\<lparr>cl_pick := pick\<rparr>) = Continue c'" using assms by (simp add: read_step_split)
  then show ?thesis by (intro chosen_move client_move.read)
next
  case (Some msg)
  then show ?thesis using read_frame_Some [of frame _ msg c'] assms by (auto intro: client_move.choose)
qed

lemma work_moves: "conn_work s s' \<Longrightarrow> put_ok s \<Longrightarrow> client_move\<^sup>*\<^sup>* (cn_client s) (cn_client s')"
proof (induction rule: conn_work.induct)
  case (refresh s frame wait pick queued c)
  then show ?case using refresh_move by simp
next
  case (put s msg)
  then show ?case by (intro put_move)
next
  case (take s msg c)
  then show ?case using chosen_move [OF client_move.handle] by (simp add: take_message_def)
qed (auto simp: leave_read_def write_frame_def leave_write_def lose_frame_def intro: client_move.close client_move.flush)

lemma env_moves: "conn_env s s' \<Longrightarrow> client_move\<^sup>*\<^sup>* (cn_client s) (cn_client s')"
proof (induction rule: conn_env.induct)
  case (send msg s pick c)
  then show ?case using chosen_move [OF client_move.send] by simp
qed (auto simp: leave_read_def SetReadDeadline_def intro: client_move.intros)

section \<open>At rest\<close>

lemma conn_at_rest:
  assumes "pipes s" "ending s" "\<nexists>u. conn_work s u"
  shows "if cl_done (cn_client s) \<or> \<not> cn_open s
    then cn_reader s = RDone \<and> cn_writer s = WDone \<and> cn_handler s = HDone \<and> \<not> cn_open s
    else cn_reader s = RRead \<and> cn_now s < cn_deadline s \<and> cn_wire s = cn_sent s \<and> cn_ran s = cn_got s"
  using stuck_writer [OF assms(3)] stuck_handler [OF assms(3)] stuck_reader [OF assms(3)] assms(1,2) ending_torn [OF assms(2)]
  by (auto simp: pipes_def ending_def handleBufferSize_def)

lemma run_to_rest: "\<exists>n s'. (conn_work ^^ n) s s' \<and> (\<nexists>u. conn_work s' u)"
proof (induction "loops_left s" arbitrary: s rule: less_induct)
  case less
  show ?case
  proof (cases "\<exists>u. conn_work s u")
    case True
    then obtain u where u: "conn_work s u" by blast
    with less [OF work_left_less [OF u]] obtain n s' where "(conn_work ^^ n) u s'" "\<nexists>u. conn_work s' u" by blast
    with relpowp_Suc_I2 [of conn_work s u n s'] u show ?thesis by blast
  qed (auto intro: exI [of _ "0::nat"])
qed

end
