(* ===== verification/Connection_Theorems.thy ===== *)
theory Connection_Theorems
  imports Connection_Props
begin

text \<open>The properties of the loops of a connection, and executions of a connection with the default limits.\<close>

section \<open>Concrete executions\<close>

definition visitor :: "unit Client" where
  "visitor = fst (NewClient 1 True \<lparr>tn_writeWait = 0, tn_pongWait = 0, tn_pingPeriod = 0, tn_authTimeout = 0,
     tn_maxMessageSize = 0, tn_sendBufferSize = 0, tn_shutdownTimeout = 0\<rparr> EventBus_New)"

text \<open>A connection between two frames: nothing is queued, nobody has logged in, the socket is fine.\<close>

definition idle_at :: "duration \<Rightarrow> nat \<Rightarrow> unit conn \<Rightarrow> bool" where
  "idle_at now n s \<longleftrightarrow> conn_reach visitor 0 s \<and> cl_tuning (cn_client s) = cl_tuning visitor \<and>
     \<not> cl_authenticated (cn_client s) \<and> \<not> cl_done (cn_client s) \<and> cl_send (cn_client s) = [] \<and> cl_handles (cn_client s) = [] \<and>
     cn_now s = now \<and> cn_deadline s = now + 10 * Second \<and> cn_open s \<and> cn_reader s = RRead \<and> cn_writer s = WLoop \<and>
     cn_handler s = HLoop \<and> \<not> cn_tick s \<and> length (cn_wire s) = n \<and> \<not> cn_missed s"

lemma visitor_tuning:
  "tn_authTimeout (cl_tuning visitor) = 10 * Second" "tn_pongWait (cl_tuning visitor) = 60 * Second"
  "tn_maxMessageSize (cl_tuning visitor) = 65536" "tn_sendBufferSize (cl_tuning visitor) = 256"
  by (simp_all add: visitor_def NewClient_def Let_def withDefaults_sel tuning_consts)

lemma visitor_fresh: "fresh_client visitor" "\<not> cl_authenticated visitor"
  unfolding visitor_def using NewClient_fresh by blast (simp add: NewClient_def Let_def)

lemma idle_start: "idle_at 0 0 (start_loops visitor 0)"
  using conn_reach.init [of visitor 0] visitor_fresh visitor_tuning(1)
  by (simp add: idle_at_def start_loops_def fresh_client_def)

text \<open>The error that answers a frame that is not binary.\<close>

definition refusal :: bytes where
  "refusal = ServerMessage_enc (ServerMessage_zero\<lparr>sm_Type := MessageError, sm_ID := 0,
     sm_Error := ''binary messages only'', sm_Code := word_of_int 400\<rparr>)"

lemma refusal_sent:
  assumes "cl_send c = []" "\<not> cl_done c" "cl_tuning c = cl_tuning visitor"
  shows "read_frame (OtherMessage []) (c\<lparr>cl_pick := True\<rparr>) = Val (None, c\<lparr>cl_pick := True, cl_send := [refusal]\<rparr>)"
proof -
  have "SendError 0 ''binary messages only'' 400 (c\<lparr>cl_pick := True\<rparr>) = Val (c\<lparr>cl_pick := True, cl_send := [refusal]\<rparr>)"
    using assms by (simp add: SendError_def SendServerMessage_Val sendable_def fits16_def ServerMessage_zero_def has_room_def
        visitor_tuning refusal_def)
  then show ?thesis by simp
qed

text \<open>After nine seconds the peer sends an empty text frame, and the server refuses it.\<close>

lemma idle_step:
  assumes "idle_at now n s"
  shows "\<exists>s'. idle_at (now + 9 * Second) (Suc n) s'"
proof -
  let ?c = "(cn_client s)\<lparr>cl_pick := True, cl_send := [refusal]\<rparr>"
  let ?s1 = "s\<lparr>cn_now := cn_now s + 9 * Second, cn_missed := cn_missed s \<or> cn_reader s = RRead \<and> cn_deadline s \<le> cn_now s + 9 * Second\<rparr>"
  let ?s2 = "?s1\<lparr>cn_reader := RGot (OtherMessage []) (frame_wait (cn_client ?s1)), cn_heard := cn_now ?s1\<rparr>"
  let ?s3 = "sent ?c ((SetReadDeadline (frame_wait (cn_client ?s1)) ?s2)\<lparr>cn_reader := next_read None, cn_heard := cn_now ?s2\<rparr>)"
  let ?s4 = "write_frame refusal (?c\<lparr>cl_send := []\<rparr>) ?s3"
  note a = assms [unfolded idle_at_def]
  have "conn_env s ?s1" by (rule conn_env.elapse) (simp add: Second_def)
  moreover have "conn_env ?s1 ?s2"
    by (rule conn_env.receive) (use a in \<open>simp_all add: frame_size_def visitor_tuning\<close>)
  moreover have "read_frame (OtherMessage []) ((cn_client ?s2)\<lparr>cl_pick := True\<rparr>) = Val (None, ?c)"
    using refusal_sent [of "cn_client s"] a by (simp del: read_frame.simps)
  then have "conn_work ?s2 ?s3" by (rule conn_work.refresh [rotated]) simp
  moreover have "conn_work ?s3 ?s4"
    by (rule conn_work.written) (use a in \<open>simp_all add: SetReadDeadline_def write_next_def\<close>)
  ultimately have "conn_reach visitor 0 ?s4" using a by (meson conn_reach.work conn_reach.env)
  then have "idle_at (now + 9 * Second) (Suc n) ?s4"
    using a by (simp add: idle_at_def write_frame_def SetReadDeadline_def next_read_def frame_wait_def IsAuthenticated_def
        visitor_tuning Second_def)
  then show ?thesis ..
qed

lemma idle_reached: "\<exists>s. idle_at (int n * (9 * Second)) n s"
proof (induction n)
  case 0
  then show ?case using idle_start by auto
next
  case (Suc n)
  then obtain s where "idle_at (int n * (9 * Second)) n s" ..
  from idle_step [OF this] show ?case by (simp add: algebra_simps)
qed

section \<open>Order and delivery\<close>

text \<open>C5: a connection delivers in order. In every state its loops can reach, the frames written to the socket
  are the frames that were sent, in the order in which they were sent, up to the one whose write
  failed and those still queued; at most one write of a frame fails, and \<open>WriteLoop\<close> ends with it. The messages
  dispatched are those queued by the reader, in their order, up to at most 64 that wait. And when
  \<open>WriteLoop\<close> has ended without a failed write, every frame sent before the connection was closed
  has been written.\<close>

theorem connection_delivers_in_order:
  assumes "conn_reach (fst (NewClient i pick t bus)) now s"
  shows "cn_sent s = cn_wire s @ cn_torn s @ cl_send (cn_client s) \<and>
    length (cn_torn s) \<le> 1 \<and> (cn_torn s \<noteq> [] \<longrightarrow> cn_writer s = WDone) \<and>
    cn_got s = cn_ran s @ cl_handles (cn_client s) \<and> length (cl_handles (cn_client s)) \<le> 64 \<and>
    (cn_writer s = WDone \<and> \<not> cn_broken s \<longrightarrow> (\<exists>more. cn_wire s = cn_due s @ more))"
  using conn_reach_ok [OF assms NewClient_fresh]
  by (auto simp: pipes_def ending_def due_ok_def handleBufferSize_def)

theorem connection_delivers_in_order_witness:
  "\<exists>s. conn_reach visitor 0 s \<and> length (cn_wire s) = 3 \<and> cn_sent s = cn_wire s"
proof -
  obtain s where s: "idle_at (int 3 * (9 * Second)) 3 s" using idle_reached by blast
  then have r: "conn_reach visitor 0 s" and "cl_send (cn_client s) = []" "length (cn_wire s) = 3" "cn_writer s = WLoop"
    by (simp_all add: idle_at_def)
  with connection_delivers_in_order [OF r [unfolded visitor_def]] show ?thesis by auto
qed

text \<open>C12: a connection comes to rest, and a closed one ends. From every reachable state the loops can take at
  most \<open>loops_left\<close> more steps, unless the peer, a sender or the clock does something. When no loop can
  move, then either the connection was closed or its socket is gone, and all three goroutines have
  ended and the socket is closed; or the reader waits for a frame within its deadline, and every
  frame sent is written and every message received is handled.\<close>

theorem connection_comes_to_rest:
  assumes "conn_reach (fst (NewClient i pick t bus)) now s" "(conn_work ^^ n) s s'"
  shows "n \<le> loops_left s \<and>
    ((\<nexists>u. conn_work s' u) \<longrightarrow>
       (if cl_done (cn_client s') \<or> \<not> cn_open s'
        then cn_reader s' = RDone \<and> cn_writer s' = WDone \<and> cn_handler s' = HDone \<and> \<not> cn_open s'
        else cn_reader s' = RRead \<and> cn_now s' < cn_deadline s' \<and> cn_wire s' = cn_sent s' \<and> cn_ran s' = cn_got s'))"
proof -
  have "conn_reach (fst (NewClient i pick t bus)) now s'"
    using assms(2,1) by (induction n arbitrary: s') (auto intro: conn_reach.work)
  then have ok: "pipes s'" "ending s'" using conn_reach_ok [OF _ NewClient_fresh] by blast+
  then show ?thesis using loops_run [OF assms(2)] conn_at_rest [OF ok] by auto
qed

text \<open>A connection that is closed at once: the five steps that end its loops.\<close>

definition cut_off :: "unit conn" where
  "cut_off = (start_loops visitor 0)\<lparr>cn_client := Client_Close visitor\<rparr>"

lemma cut_off_reached: "conn_reach visitor 0 cut_off"
  using conn_reach.env [OF conn_reach.init conn_env.shut, of visitor 0] by (simp add: cut_off_def start_loops_def)

lemma cut_off_run: "\<exists>s. (conn_work ^^ 5) cut_off s \<and> cl_done (cn_client s)"
proof -
  let ?s1 = "cut_off\<lparr>cn_writer := WFlush (cn_now cut_off + flushWait)\<rparr>"
  let ?s2 = "leave_write ?s1"
  let ?s3 = "leave_read ?s2"
  let ?s4 = "?s3\<lparr>cn_reader := RDone\<rparr>"
  let ?s5 = "?s4\<lparr>cn_handler := HDone\<rparr>"
  have sel: "cn_writer cut_off = WLoop" "cn_reader cut_off = RRead" "cn_handler cut_off = HLoop"
    "cl_done (cn_client cut_off)" "cl_send (cn_client cut_off) = []"
    using visitor_fresh(1) by (simp_all add: cut_off_def start_loops_def Client_Close_def fresh_client_def)
  have five: "5 = Suc (Suc (Suc (Suc (Suc 0))))" by simp
  have "conn_work cut_off ?s1" by (rule conn_work.flush) (simp_all add: sel)
  moreover have "conn_work ?s1 ?s2" by (rule conn_work.flushed) (simp_all add: sel)
  moreover have "conn_work ?s2 ?s3" by (rule conn_work.read_error) (simp_all add: sel leave_write_def)
  moreover have "conn_work ?s3 ?s4" by (rule conn_work.disconnected) (simp add: leave_read_def)
  moreover have d: "cl_done (cn_client ?s4)" by (simp add: leave_read_def Client_Close_def)
  moreover have "conn_work ?s4 ?s5" by (rule conn_work.stop [OF _ d]) (simp add: sel leave_read_def leave_write_def)
  ultimately have "(conn_work ^^ 5) cut_off ?s5" unfolding five by (intro relpowp_Suc_I) (assumption | simp)+
  then show ?thesis using d by (intro exI [of _ ?s5]) simp
qed

theorem connection_comes_to_rest_witness:
  "\<exists>s. (conn_work ^^ 5) cut_off s \<and> loops_left cut_off = 5 \<and> cn_reader s = RDone \<and> cn_writer s = WDone \<and> cn_handler s = HDone"
proof -
  obtain s where s: "(conn_work ^^ 5) cut_off s" and d: "cl_done (cn_client s)" using cut_off_run by blast
  note r = connection_comes_to_rest [OF cut_off_reached [unfolded visitor_def] s]
  have l: "loops_left cut_off = 5" using visitor_fresh(1)
    by (simp add: loops_left_def cut_off_def start_loops_def Client_Close_def fresh_client_def)
  have "\<nexists>u. conn_work s u" using loops_run [OF s] work_left_less [of s] l by fastforce
  with r s l d show ?thesis by auto
qed

text \<open>The loops refine the atomic steps of the server. What any reachable step of a loop, of the peer or of a
  sender does to the client can be done by whole iterations as the server model has them: \<open>read_step\<close>,
  \<open>write_next\<close>, \<open>handle_next\<close>, a send, a change of the subscriptions, a login or a close. So a property of the
  client that these keep is kept by the goroutines as they interleave.\<close>

lemma loops_refine_atomic_steps:
  assumes "conn_reach (fst (NewClient i pick t bus)) now s"
  shows "client_move\<^sup>*\<^sup>* (fst (NewClient i pick t bus)) (cn_client s) \<and>
    (\<forall>s'. conn_work s s' \<or> conn_env s s' \<longrightarrow> client_move\<^sup>*\<^sup>* (cn_client s) (cn_client s'))"
proof -
  have "client_move\<^sup>*\<^sup>* (fst (NewClient i pick t bus)) (cn_client s)" using assms
  proof (induction rule: conn_reach.induct)
    case init
    then show ?case by (simp add: start_loops_def)
  next
    case (work s s')
    then show ?case using work_moves [OF _ conn_reach_put_ok] by (meson rtranclp_trans)
  next
    case (env s s')
    then show ?case using env_moves by (meson rtranclp_trans)
  qed
  then show ?thesis using work_moves [OF _ conn_reach_put_ok [OF assms]] env_moves by blast
qed

section \<open>Deadlines\<close>

text \<open>C22: a silent peer is dropped, and not too early. While the reader waits for a frame, its deadline lies the
  authentication timeout or the pong wait after the last sign of life: the last frame that came in and
  was looked at, the last pong, or the last login. As long as the socket is open the reader does not
  give up before the shorter of the two has passed in silence; and once the longer has, the loops, left
  to themselves, come to rest only with all three goroutines ended and the socket closed.\<close>

theorem silent_peer_is_dropped:
  assumes "conn_reach (fst (NewClient i pick t bus)) now s" "cn_reader s = RRead"
  shows "let auth = tn_authTimeout (withDefaults t); pong = tn_pongWait (withDefaults t) in
    0 < auth \<and> 0 < pong \<and> cn_deadline s - cn_heard s \<in> {auth, pong} \<and>
    (\<forall>s'. cn_open s \<and> conn_work s s' \<and> cn_reader s' = RLeave \<longrightarrow> cn_heard s + min auth pong \<le> cn_now s) \<and>
    (\<forall>n s'. cn_heard s + max auth pong \<le> cn_now s \<and> (conn_work ^^ n) s s' \<and> (\<nexists>u. conn_work s' u) \<longrightarrow>
       cn_reader s' = RDone \<and> cn_writer s' = WDone \<and> cn_handler s' = HDone \<and> \<not> cn_open s')"
proof -
  let ?a = "tn_authTimeout (withDefaults t)" and ?p = "tn_pongWait (withDefaults t)"
  have pos: "0 < ?a" "0 < ?p" by (simp_all add: withDefaults_sel tuning_consts)
  have t: "cl_tuning (fst (NewClient i pick t bus)) = withDefaults t" by (simp add: NewClient_def Let_def)
  have d: "cn_deadline s - cn_heard s \<in> {?a, ?p}"
    using conn_reach_deadline [OF assms(1)] assms(2) unfolding t deadline_ok_def by simp
  have early: "cn_heard s + min ?a ?p \<le> cn_now s" if "cn_open s" "conn_work s s'" "cn_reader s' = RLeave" for s'
    using reader_leaves [OF that(2) assms(2) that(3)] that(1) d by auto
  have late: "cn_reader s' = RDone \<and> cn_writer s' = WDone \<and> cn_handler s' = HDone \<and> \<not> cn_open s'"
    if "cn_heard s + max ?a ?p \<le> cn_now s" and run: "(conn_work ^^ n) s s'" and rest: "\<nexists>u. conn_work s' u" for n s'
  proof -
    have "late_reader s" using that(1) d assms(2) by (auto simp: late_reader_def)
    then have l: "late_reader s'" by (rule late_reader_run [OF run])
    have "conn_reach (fst (NewClient i pick t bus)) now s'"
      using run assms(1) by (induction n arbitrary: s') (auto intro: conn_reach.work)
    then have "pipes s'" "ending s'" using conn_reach_ok [OF _ NewClient_fresh] by blast+
    from conn_at_rest [OF this rest] l show ?thesis by (auto simp: late_reader_def split: if_splits)
  qed
  show ?thesis unfolding Let_def using pos d early late by blast
qed

theorem silent_peer_is_dropped_witness:
  "\<exists>n s'. (conn_work ^^ n) ((start_loops visitor 0)\<lparr>cn_now := 60 * Second, cn_missed := True\<rparr>) s' \<and>
     cn_reader s' = RDone \<and> \<not> cn_open s'"
proof -
  let ?s = "(start_loops visitor 0)\<lparr>cn_now := 60 * Second, cn_missed := True\<rparr>"
  have r: "conn_reach visitor 0 ?s"
    using conn_reach.env [OF conn_reach.init conn_env.elapse, of "60 * Second" visitor 0]
    by (simp add: start_loops_def visitor_tuning Second_def)
  have rd: "cn_reader ?s = RRead" "cn_heard ?s = 0" "cn_now ?s = 60 * Second" by (simp_all add: start_loops_def)
  obtain n s' where run: "(conn_work ^^ n) ?s s'" "\<nexists>u. conn_work s' u" using run_to_rest by blast
  have "cn_reader s' = RDone \<and> \<not> cn_open s'"
    using silent_peer_is_dropped [OF r [unfolded visitor_def] rd(1) [unfolded visitor_def], folded visitor_def] run rd(2,3)
    by (auto simp: Let_def withDefaults_sel tuning_consts)
  with run(1) show ?thesis by blast
qed

text \<open>C30: the authentication timeout does not bound the time before a login. A peer that sends any frame
  every nine seconds, here an empty text frame that is refused each time, stays connected for as
  long as it likes without ever logging in: the deadline of ten seconds is never missed.\<close>

theorem unauthenticated_peer_can_stay:
  "\<exists>s. conn_reach visitor 0 s \<and> int k * tn_authTimeout (cl_tuning visitor) \<le> cn_now s \<and> \<not> cn_missed s \<and>
     \<not> IsAuthenticated (cn_client s) \<and> \<not> cl_done (cn_client s) \<and> cn_open s \<and> cn_reader s = RRead \<and>
     cn_wire s = cn_sent s \<and> 2 * k \<le> length (cn_wire s)"
proof -
  obtain s where s: "idle_at (int (2 * k) * (9 * Second)) (2 * k) s" using idle_reached by blast
  then have "conn_reach visitor 0 s" by (simp add: idle_at_def)
  then have "pipes s" "ending s" using conn_reach_ok visitor_fresh(1) by blast+
  with s have "cn_wire s = cn_sent s" using ending_torn [of s] by (auto simp: idle_at_def pipes_def)
  then show ?thesis using s by (intro exI [of _ s]) (auto simp: idle_at_def IsAuthenticated_def visitor_tuning Second_def)
qed

section \<open>Backpressure\<close>

text \<open>A login request, and a connection whose handler is busy with one while \<open>n\<close> more wait.\<close>

definition knock :: ClientMessage where
  "knock = ClientMessage_zero\<lparr>cm_Type := MessageAuth\<rparr>"

definition crowded :: "nat \<Rightarrow> unit conn \<Rightarrow> bool" where
  "crowded n s \<longleftrightarrow> conn_reach visitor 0 s \<and> cl_tuning (cn_client s) = cl_tuning visitor \<and>
     \<not> cl_done (cn_client s) \<and> cl_send (cn_client s) = [] \<and> cl_handles (cn_client s) = replicate n knock \<and>
     cn_open s \<and> cn_reader s = RRead \<and> cn_writer s = WLoop \<and> cn_handler s = HBusy knock \<and> \<not> cn_tick s"

lemma knock_read: "read_frame (BinaryMessage (ClientMessage_enc knock)) c = Val (Some knock, c)"
proof -
  have "ClientMessage_Unmarshal ClientMessage_zero (ClientMessage_enc knock) = Inr (knock, length (ClientMessage_enc knock))"
    using clientMessage.unmarshal_enc [of knock ClientMessage_zero "[]"]
    by (simp add: knock_def ClientMessage_fits_def ClientMessage_zero_def fits16_def)
  then show ?thesis by (simp add: knock_def ClientMessage_zero_def)
qed

text \<open>A frame with a login request arrives and is about to be queued.\<close>

definition knocking :: "unit conn \<Rightarrow> unit conn" where
  "knocking s = sent ((cn_client s)\<lparr>cl_pick := True\<rparr>) ((SetReadDeadline (frame_wait (cn_client s)) s)\<lparr>cn_reader := RPut knock, cn_heard := cn_now s\<rparr>)"

lemma knocking_reached:
  assumes "conn_reach visitor 0 s" "cn_reader s = RRead" "cn_open s" "cl_tuning (cn_client s) = cl_tuning visitor"
  shows "conn_reach visitor 0 (knocking s)"
proof -
  let ?f = "BinaryMessage (ClientMessage_enc knock)" and ?w = "frame_wait (cn_client s)"
  let ?s1 = "s\<lparr>cn_reader := RGot ?f ?w, cn_heard := cn_now s\<rparr>"
  have "length (ClientMessage_enc knock) \<le> 65536" by (simp add: knock_def ClientMessage_zero_def ClientMessage_enc_def)
  then have "conn_env s ?s1" using conn_env.receive [of s ?f] assms by (simp add: frame_size_def visitor_tuning)
  moreover have "conn_work ?s1 (sent ((cn_client s)\<lparr>cl_pick := True\<rparr>) ((SetReadDeadline ?w ?s1)\<lparr>cn_reader := next_read (Some knock), cn_heard := cn_now ?s1\<rparr>))"
    by (rule conn_work.refresh [where frame = ?f and pick = True]) (simp_all add: knock_read del: read_frame.simps)
  ultimately show ?thesis using assms(1)
    by (simp add: knocking_def next_read_def SetReadDeadline_def) (meson conn_reach.work conn_reach.env)
qed

lemma crowded_start: "\<exists>s. crowded 0 s \<and> \<not> cl_authenticated (cn_client s) \<and> cn_now s = 0 \<and> cn_next s = 30 * Second"
proof -
  let ?s = "start_loops visitor 0"
  let ?s1 = "put_handle knock (knocking ?s)"
  let ?s2 = "take_message knock ((cn_client ?s1)\<lparr>cl_pick := True, cl_handles := []\<rparr>) ?s1"
  note a = idle_start [unfolded idle_at_def]
  have sel: "cl_handles (cn_client (knocking ?s)) = []" "cn_reader (knocking ?s) = RPut knock" "cn_handler (knocking ?s) = HLoop"
    using a by (simp_all add: knocking_def SetReadDeadline_def)
  have "conn_work (knocking ?s) ?s1" by (rule conn_work.put) (simp_all add: sel handleBufferSize_def)
  moreover have "conn_work ?s1 ?s2"
    by (rule conn_work.take) (simp_all add: put_handle_def sel handle_next_def)
  ultimately have "conn_reach visitor 0 ?s2" using knocking_reached [of ?s] a by (meson conn_reach.work)
  then have "crowded 0 ?s2" using a by (simp add: crowded_def take_message_def put_handle_def knocking_def SetReadDeadline_def)
  moreover have "\<not> cl_authenticated (cn_client ?s2)" "cn_now ?s2 = 0"
    using a by (simp_all add: take_message_def put_handle_def knocking_def SetReadDeadline_def)
  moreover have "cn_next ?s2 = 30 * Second"
    by (simp add: take_message_def put_handle_def knocking_def SetReadDeadline_def start_loops_def visitor_def NewClient_def
        Let_def withDefaults_sel tuning_consts)
  ultimately show ?thesis by blast
qed

lemma crowded_step:
  assumes "crowded n s" "n < 64"
  shows "crowded (Suc n) (put_handle knock (knocking s))"
proof -
  note a = assms(1) [unfolded crowded_def]
  have "conn_work (knocking s) (put_handle knock (knocking s))"
    by (rule conn_work.put) (use a assms(2) in \<open>simp_all add: knocking_def SetReadDeadline_def handleBufferSize_def\<close>)
  then have "conn_reach visitor 0 (put_handle knock (knocking s))"
    using knocking_reached [of s] a by (meson conn_reach.work)
  then show ?thesis using a by (simp add: crowded_def put_handle_def knocking_def SetReadDeadline_def replicate_append_same)
qed

lemma crowded_reached: "n \<le> 64 \<Longrightarrow> \<exists>s. crowded n s"
proof (induction n)
  case (Suc n)
  then show ?case using crowded_step [of n] by auto
qed (use crowded_start in blast)

lemma stalled_work:
  assumes "cn_reader s = RPut msg" "length (cl_handles (cn_client s)) = 64" "cn_handler s = HBusy m" "cn_writer s = WLoop"
    "cl_send (cn_client s) = []" "\<not> cl_done (cn_client s)" "\<not> cn_tick s"
  shows "conn_work s s' \<longleftrightarrow> s' = s\<lparr>cn_handler := HLoop\<rparr>"
proof
  show "conn_work s s' \<Longrightarrow> s' = s\<lparr>cn_handler := HLoop\<rparr>"
    using assms by (auto elim!: conn_workE simp: write_next_def handleBufferSize_def)
qed (use assms conn_work.handled in blast)

text \<open>C31: a slow handler stalls the reads of its connection, and no deadline ends the stall. When 64 messages
  wait for a handler that does not return, the reader waits at the channel and not at the socket.
  However long ago the read deadline passed, the connection stays open, and the only step any of its
  loops can take is the return of the handler.\<close>

theorem stalled_reader_outlives_its_deadline:
  "\<exists>s. conn_reach visitor 0 s \<and> cn_deadline s + k \<le> cn_now s \<and> cn_reader s = RPut knock \<and> cn_handler s = HBusy knock \<and>
     cn_open s \<and> \<not> cl_done (cn_client s) \<and> (\<forall>s'. conn_work s s' \<longleftrightarrow> s' = s\<lparr>cn_handler := HLoop\<rparr>)"
proof -
  obtain s where s: "crowded 64 s" using crowded_reached by blast
  note a = s [unfolded crowded_def]
  let ?d = "max 1 (cn_deadline (knocking s) + k - cn_now s)"
  let ?s = "(knocking s)\<lparr>cn_now := cn_now (knocking s) + ?d, cn_missed := cn_missed (knocking s) \<or>
      cn_reader (knocking s) = RRead \<and> cn_deadline (knocking s) \<le> cn_now (knocking s) + ?d\<rparr>"
  have "conn_env (knocking s) ?s" by (rule conn_env.elapse) simp
  then have "conn_reach visitor 0 ?s" using knocking_reached [of s] a by (meson conn_reach.env)
  moreover have "\<forall>s'. conn_work ?s s' \<longleftrightarrow> s' = ?s\<lparr>cn_handler := HLoop\<rparr>"
    using a by (intro allI stalled_work) (simp_all add: knocking_def SetReadDeadline_def)
  ultimately show ?thesis using a by (intro exI [of _ ?s]) (simp add: knocking_def SetReadDeadline_def)
qed

section \<open>A login beside the reader\<close>

text \<open>C39: a login can lose its deadline. While the handler works on the login request, the peer sends another
  frame; a login that completes between the read of that frame and the renewal of the deadline is
  overtaken by the renewal: the connection is logged in, the handler that did it has not even
  returned, and its deadline is the authentication timeout, not the pong wait that the login set, and
  lies before the first ping that would make a silent peer answer.\<close>

theorem login_can_lose_its_deadline:
  "\<exists>s. conn_reach visitor 0 s \<and> IsAuthenticated (cn_client s) \<and> cn_handler s = HBusy knock \<and> cn_reader s = RRead \<and>
     cn_deadline s = cn_heard s + tn_authTimeout (cl_tuning visitor) \<and> cn_deadline s < cn_next s"
proof -
  obtain s where s: "crowded 0 s" "\<not> cl_authenticated (cn_client s)" "cn_now s = 0" "cn_next s = 30 * Second"
    using crowded_start by blast
  note a = s(1) [unfolded crowded_def]
  let ?w = "10 * Second" and ?cs = "SetSession (Session_New ''s'' ''u'') (cn_client s)"
  let ?c = "?cs\<lparr>cl_pick := True, cl_send := [refusal]\<rparr>"
  let ?s1 = "s\<lparr>cn_reader := RGot (OtherMessage []) ?w, cn_heard := 0\<rparr>"
  let ?s2 = "(SetReadDeadline (60 * Second) (?s1\<lparr>cn_client := ?cs\<rparr>))\<lparr>cn_heard := cn_now ?s1\<rparr>"
  let ?s3 = "sent ?c ((SetReadDeadline ?w ?s2)\<lparr>cn_reader := next_read None, cn_heard := cn_now ?s2\<rparr>)"
  have "conn_env s ?s1"
    using conn_env.receive [of s "OtherMessage []"] a s
    by (simp add: frame_size_def visitor_tuning frame_wait_def IsAuthenticated_def)
  moreover have "conn_env ?s1 ?s2"
    using conn_env.login [of ?s1 "Session_New ''s'' ''u''"] a by (simp add: visitor_tuning)
  moreover have "read_frame (OtherMessage []) ((cn_client ?s2)\<lparr>cl_pick := True\<rparr>) = Val (None, ?c)"
    using refusal_sent [of ?cs] a by (simp add: SetReadDeadline_def SetSession_def del: read_frame.simps)
  then have "conn_work ?s2 ?s3" by (rule conn_work.refresh [rotated]) (simp add: SetReadDeadline_def)
  ultimately have "conn_reach visitor 0 ?s3" using a by (meson conn_reach.work conn_reach.env)
  then show ?thesis
    using a s by (intro exI [of _ ?s3])
      (simp add: SetReadDeadline_def SetSession_def IsAuthenticated_def next_read_def visitor_tuning Second_def)
qed

end
