(* ===== verification/Room.thy ===== *)
theory Room
  imports Event_Bus
begin

text \<open>
  The room actor: \<^verbatim>\<open>room/types.go\<close>, \<^verbatim>\<open>room/module.go\<close> and \<^verbatim>\<open>room/room.go\<close>.

  A room runs its operations one at a time. Every operation is a function of the room that returns
  the new room and its outward effects in order: events published on the bus and goroutines
  started. The blocking methods first run a closure on the actor (\<open>do\<close>), which does nothing once the
  room's context is cancelled (\<open>rm_done\<close>), and then act on the caller's goroutine.

  The hooks and handlers of a module are code of the game and so arguments of the model. A hook
  reads the room and returns what it does through the exported API as a list of actions
  (\<open>act\<close>): only these can change a room from outside its package. \<open>APanic\<close> is a panic of the
  hook; the actions before it have happened.
\<close>

section \<open>Players, configuration, rooms\<close>

record Player =
  pl_ID :: uint64
  pl_UserID :: string
  pl_JoinedAt :: int

record RoomConfig =
  rc_Name :: string
  rc_Type :: string
  rc_MaxPlayers :: uint16
  rc_SingletonMode :: uint8
  rc_Options :: "(string, string) gomap"
  rc_EmptyGrace :: duration

definition ApplyDefaults :: "RoomConfig \<Rightarrow> RoomConfig" where
  "ApplyDefaults c = (if rc_Name c = [] then c\<lparr>rc_Name := rc_Type c\<rparr> else c)"

text \<open>The timer of \<open>time.AfterFunc\<close>: waiting, or already running its function.\<close>

datatype timer = Armed | Fired

record 's Room =
  rm_id :: string
  rm_config :: RoomConfig
  rm_State :: 's
  rm_players :: "(uint64, Player) gomap"
  rm_isOpen :: bool
  rm_emptyTimer :: "timer option"
  rm_keepOnEmpty :: bool
  rm_onEmpty :: bool \<comment> \<open>the callback of \<open>setOnEmpty\<close> is set\<close>
  rm_done :: bool \<comment> \<open>the room's context is cancelled\<close>

text \<open>
  Outward effects: \<open>Pub\<close> is \<open>bus.Publish\<close>, \<open>GoOnEmpty\<close> is \<open>go r.onEmpty(r.id)\<close>, and \<open>GoNilFunc\<close> is the
  same statement while the callback is still nil, which ends the process.
\<close>

datatype eff = Pub string Event | GoOnEmpty string | GoNilFunc

section \<open>Direct accessors and sends\<close>

definition Room_topic :: "'s Room \<Rightarrow> string" where
  "Room_topic r = ''room:'' @ rm_id r"

definition clientTopic :: "uint64 \<Rightarrow> string" where
  "clientTopic clientID = ''client:'' @ FormatUint clientID"

definition hasPlayer :: "uint64 \<Rightarrow> 's Room \<Rightarrow> bool" where
  "hasPlayer clientID r = mhas (rm_players r) clientID"

definition playerList :: "'s Room \<Rightarrow> Player list" where
  "playerList r = mvals (rm_players r)"

fun find_user :: "string \<Rightarrow> Player list \<Rightarrow> Player option" where
  "find_user userID [] = None"
| "find_user userID (p # ps) = (if pl_UserID p = userID then Some p else find_user userID ps)"

definition PlayerByUserID :: "string \<Rightarrow> 's Room \<Rightarrow> Player option" where
  "PlayerByUserID userID r = find_user userID (mvals (rm_players r))"

definition roomInfo :: "'s Room \<Rightarrow> RoomInfo" where
  "roomInfo r =
     \<lparr>ri_ID = rm_id r, ri_Name = rc_Name (rm_config r), ri_Type = rc_Type (rm_config r),
      ri_MaxPlayers = rc_MaxPlayers (rm_config r), ri_PlayerCount = of_nat (mlen (rm_players r)),
      ri_IsOpen = rm_isOpen r, ri_SingletonMode = rc_SingletonMode (rm_config r)\<rparr>"

text \<open>What a send does: the events published so far, and the panic of an encoder if there was one.\<close>

type_synonym sends = "eff list \<times> string option"

definition Room_Broadcast :: "uint16 \<Rightarrow> marshaler \<Rightarrow> 's Room \<Rightarrow> sends" where
  "Room_Broadcast op msg r =
     (case NewEvent op msg of Val e \<Rightarrow> ([Pub (Room_topic r) e], None) | Panic p \<Rightarrow> ([], Some p))"

definition Room_BroadcastBytes :: "uint16 \<Rightarrow> bytes \<Rightarrow> 's Room \<Rightarrow> sends" where
  "Room_BroadcastBytes op payload r = ([Pub (Room_topic r) (NewEventBytes op payload)], None)"

definition id_set :: "string list \<Rightarrow> (string, unit) gomap" where
  "id_set userIDs = fold (\<lambda>i w. mput i () w) userIDs mempty"

definition sendToUserIDs :: "string list \<Rightarrow> uint16 \<Rightarrow> marshaler \<Rightarrow> 's Room \<Rightarrow> sends" where
  "sendToUserIDs userIDs op msg r =
     (case Encode msg of
        Panic p \<Rightarrow> ([], Some p)
      | Val payload \<Rightarrow>
          let want = id_set userIDs in
          (map (\<lambda>p. Pub (clientTopic (pl_ID p)) (NewEventBytes op payload))
             (filter (\<lambda>p. mhas want (pl_UserID p)) (mvals (rm_players r))), None))"

definition Room_Send :: "Player \<Rightarrow> uint16 \<Rightarrow> marshaler \<Rightarrow> 's Room \<Rightarrow> sends" where
  "Room_Send p op msg r = sendToUserIDs [pl_UserID p] op msg r"

definition Room_SendTo :: "string list \<Rightarrow> uint16 \<Rightarrow> marshaler \<Rightarrow> 's Room \<Rightarrow> sends" where
  "Room_SendTo userIDs op msg r = sendToUserIDs userIDs op msg r"

definition Room_BroadcastExcept :: "string list \<Rightarrow> uint16 \<Rightarrow> marshaler \<Rightarrow> 's Room \<Rightarrow> sends" where
  "Room_BroadcastExcept except op msg r =
     (case Encode msg of
        Panic p \<Rightarrow> ([], Some p)
      | Val payload \<Rightarrow>
          let skip = id_set except in
          (map (\<lambda>p. Pub (clientTopic (pl_ID p)) (NewEventBytes op payload))
             (filter (\<lambda>p. \<not> mhas skip (pl_UserID p)) (mvals (rm_players r))), None))"

text \<open>\<open>fn\<close> is code of the game: it returns a message and whether to send it, or panics.\<close>

fun broadcast_loop ::
  "uint16 \<Rightarrow> (Player \<Rightarrow> (marshaler \<times> bool) outcome) \<Rightarrow> Player list \<Rightarrow> sends" where
  "broadcast_loop op fn [] = ([], None)"
| "broadcast_loop op fn (p # ps) =
     (case fn p of
        Panic e \<Rightarrow> ([], Some e)
      | Val (msg, ok) \<Rightarrow>
          if \<not> ok then broadcast_loop op fn ps
          else (case NewEvent op msg of
                  Panic e \<Rightarrow> ([], Some e)
                | Val ev \<Rightarrow>
                    let (es, pan) = broadcast_loop op fn ps
                    in (Pub (clientTopic (pl_ID p)) ev # es, pan)))"

definition Room_BroadcastFunc ::
  "uint16 \<Rightarrow> (Player \<Rightarrow> (marshaler \<times> bool) outcome) \<Rightarrow> 's Room \<Rightarrow> sends" where
  "Room_BroadcastFunc op fn r = broadcast_loop op fn (mvals (rm_players r))"

section \<open>Empty rooms\<close>

definition cancelEmptyRemoval :: "'s Room \<Rightarrow> 's Room" where
  "cancelEmptyRemoval r = (if rm_emptyTimer r \<noteq> None then r\<lparr>rm_emptyTimer := None\<rparr> else r)"

definition go_onEmpty :: "'s Room \<Rightarrow> eff" where
  "go_onEmpty r = (if rm_onEmpty r then GoOnEmpty (rm_id r) else GoNilFunc)"

definition scheduleEmptyRemoval :: "'s Room \<Rightarrow> 's Room \<times> eff list" where
  "scheduleEmptyRemoval r =
     (if rm_keepOnEmpty r then (r, [])
      else let r = cancelEmptyRemoval r in
        if rc_EmptyGrace (rm_config r) \<le> 0 then (r, [go_onEmpty r])
        else (r\<lparr>rm_emptyTimer := Some Armed\<rparr>, []))"

definition SetKeepOnEmpty :: "bool \<Rightarrow> 's Room \<Rightarrow> 's Room \<times> eff list" where
  "SetKeepOnEmpty keep r =
     (let wasKept = rm_keepOnEmpty r; r = r\<lparr>rm_keepOnEmpty := keep\<rparr> in
      if keep then (cancelEmptyRemoval r, [])
      else if wasKept \<and> mlen (rm_players r) = 0 then scheduleEmptyRemoval r
      else (r, []))"

text \<open>The function the timer runs, as a closure on the actor.\<close>

definition timer_check :: "'s Room \<Rightarrow> 's Room \<times> eff list" where
  "timer_check r =
     (if \<not> rm_keepOnEmpty r \<and> mlen (rm_players r) = 0 then (r, [go_onEmpty r]) else (r, []))"

section \<open>Hooks\<close>

datatype 's act =
    ASetState 's
  | ASetKeepOnEmpty bool
  | ABroadcast uint16 marshaler
  | ABroadcastBytes uint16 bytes
  | ASend Player uint16 marshaler
  | ASendTo "string list" uint16 marshaler
  | ABroadcastExcept "string list" uint16 marshaler
  | ABroadcastFunc uint16 "Player \<Rightarrow> (marshaler \<times> bool) outcome"
  | APanic string

fun run_act :: "'s act \<Rightarrow> 's Room \<Rightarrow> 's Room \<times> sends" where
  "run_act (ASetState s) r = (r\<lparr>rm_State := s\<rparr>, [], None)"
| "run_act (ASetKeepOnEmpty k) r = (case SetKeepOnEmpty k r of (r', es) \<Rightarrow> (r', es, None))"
| "run_act (ABroadcast op m) r = (r, Room_Broadcast op m r)"
| "run_act (ABroadcastBytes op p) r = (r, Room_BroadcastBytes op p r)"
| "run_act (ASend p op m) r = (r, Room_Send p op m r)"
| "run_act (ASendTo us op m) r = (r, Room_SendTo us op m r)"
| "run_act (ABroadcastExcept us op m) r = (r, Room_BroadcastExcept us op m r)"
| "run_act (ABroadcastFunc op f) r = (r, Room_BroadcastFunc op f r)"
| "run_act (APanic e) r = (r, [], Some e)"

fun run_acts :: "'s act list \<Rightarrow> 's Room \<Rightarrow> 's Room \<times> sends" where
  "run_acts [] r = (r, [], None)"
| "run_acts (a # as) r =
     (case run_act a r of
        (r1, es1, Some e) \<Rightarrow> (r1, es1, Some e)
      | (r1, es1, None) \<Rightarrow> (case run_acts as r1 of (r2, es2, pan) \<Rightarrow> (r2, es1 @ es2, pan)))"

type_synonym 's hook = "'s Room \<Rightarrow> 's act list"
type_synonym 's player_hook = "'s Room \<Rightarrow> Player \<Rightarrow> 's act list"

text \<open>\<open>MessageHandler\<close>: the request context (cancelled or not), the room, the player, the payload.\<close>

type_synonym 's MessageHandler =
  "bool \<Rightarrow> 's Room \<Rightarrow> Player \<Rightarrow> bytes \<Rightarrow> 's act list \<times> (goerror + marshaler)"

end
