(* ===== verification/Room_Module.thy ===== *)
theory Room_Module
  imports Room
begin

text \<open>
  Room types: \<^verbatim>\<open>room/module.go\<close> and the fluent builder of \<^verbatim>\<open>room.go\<close>. A module is a record of
  configuration, hooks and message handlers; the builder methods return the updated module. The
  rooms of all modules share one state type \<open>'s\<close> (the disjoint sum of the games' state types), and
  \<open>md_zero\<close> is the zero value of the module's own state type.
\<close>

record 's Module =
  md_typ :: string
  md_config :: RoomConfig
  md_zero :: 's
  md_newState :: "'s option option" \<comment> \<open>no factory, or a factory returning nil or a state\<close>
  md_onInit :: "'s hook option"
  md_onJoin :: "'s player_hook option"
  md_onLeave :: "'s player_hook option"
  md_onClose :: "'s hook option"
  md_tickRate :: duration
  md_onTick :: "('s Room \<Rightarrow> duration \<Rightarrow> 's act list) option"
  md_handlers :: "(uint16, 's MessageHandler) gomap"

definition RoomConfig_zero :: RoomConfig where
  "RoomConfig_zero = \<lparr>rc_Name = [], rc_Type = [], rc_MaxPlayers = 0, rc_SingletonMode = 0,
     rc_Options = [], rc_EmptyGrace = 0\<rparr>"

definition NewModule :: "'s \<Rightarrow> string \<Rightarrow> 's Module" where
  "NewModule zero typ =
     \<lparr>md_typ = typ, md_config = RoomConfig_zero, md_zero = zero, md_newState = None, md_onInit = None,
      md_onJoin = None, md_onLeave = None, md_onClose = None, md_tickRate = 0, md_onTick = None,
      md_handlers = []\<rparr>"

text \<open>The module of a plain room.\<close>

definition plainModule :: "'s \<Rightarrow> 's Module" where
  "plainModule zero = NewModule zero []"

section \<open>Builder methods\<close>

definition Module_State :: "'s option option \<Rightarrow> 's Module \<Rightarrow> 's Module" where
  "Module_State fn m = m\<lparr>md_newState := fn\<rparr>"

definition Module_MaxPlayers :: "uint16 \<Rightarrow> 's Module \<Rightarrow> 's Module" where
  "Module_MaxPlayers n m = m\<lparr>md_config := (md_config m)\<lparr>rc_MaxPlayers := n\<rparr>\<rparr>"

definition Module_Singleton :: "uint8 \<Rightarrow> 's Module \<Rightarrow> 's Module" where
  "Module_Singleton mode m = m\<lparr>md_config := (md_config m)\<lparr>rc_SingletonMode := mode\<rparr>\<rparr>"

definition Module_EmptyGrace :: "duration \<Rightarrow> 's Module \<Rightarrow> 's Module" where
  "Module_EmptyGrace d m = m\<lparr>md_config := (md_config m)\<lparr>rc_EmptyGrace := d\<rparr>\<rparr>"

definition Module_OnInit :: "'s hook option \<Rightarrow> 's Module \<Rightarrow> 's Module" where
  "Module_OnInit fn m = m\<lparr>md_onInit := fn\<rparr>"

definition Module_OnJoin :: "'s player_hook option \<Rightarrow> 's Module \<Rightarrow> 's Module" where
  "Module_OnJoin fn m = m\<lparr>md_onJoin := fn\<rparr>"

definition Module_OnLeave :: "'s player_hook option \<Rightarrow> 's Module \<Rightarrow> 's Module" where
  "Module_OnLeave fn m = m\<lparr>md_onLeave := fn\<rparr>"

definition Module_OnClose :: "'s hook option \<Rightarrow> 's Module \<Rightarrow> 's Module" where
  "Module_OnClose fn m = m\<lparr>md_onClose := fn\<rparr>"

definition Module_Tick ::
  "duration \<Rightarrow> ('s Room \<Rightarrow> duration \<Rightarrow> 's act list) option \<Rightarrow> 's Module \<Rightarrow> 's Module" where
  "Module_Tick rate fn m = m\<lparr>md_tickRate := rate, md_onTick := fn\<rparr>"

definition Module_HandleRaw :: "uint16 \<Rightarrow> 's MessageHandler \<Rightarrow> 's Module \<Rightarrow> 's Module outcome" where
  "Module_HandleRaw op h m =
     (if mhas (md_handlers m) op
      then Panic (''room: opcode '' @ format_nat (unat op) @ '' already registered in module '' @ md_typ m)
      else Val (m\<lparr>md_handlers := mput op h (md_handlers m)\<rparr>))"

text \<open>
  \<open>Handle\<close> wraps a typed handler: \<open>zero\<close>, \<open>unmarshal\<close> and \<open>validate\<close> are the methods of the request
  type, \<open>marshal\<close> that of the response type.
\<close>

definition Module_Handle ::
  "'req \<Rightarrow> ('req \<Rightarrow> bytes \<Rightarrow> string + ('req \<times> nat)) \<Rightarrow> ('req \<Rightarrow> goerror option) option \<Rightarrow>
   ('resp \<Rightarrow> bytes \<Rightarrow> bytes outcome) \<Rightarrow> uint16 \<Rightarrow>
   (bool \<Rightarrow> 's Room \<Rightarrow> Player \<Rightarrow> 'req \<Rightarrow> 's act list \<times> (goerror + 'resp option)) \<Rightarrow>
   's Module \<Rightarrow> 's Module outcome" where
  "Module_Handle zero unmarshal validate marshal op fn m =
     Module_HandleRaw op
       (\<lambda>ctx r p payload. Call zero unmarshal validate marshal payload (fn ctx r p)) m"

definition Module_RoomType :: "'s Module \<Rightarrow> string" where
  "Module_RoomType m = md_typ m"

definition Module_BaseConfig :: "'s Module \<Rightarrow> RoomConfig" where
  "Module_BaseConfig m = md_config m"

definition Module_Ops :: "'s Module \<Rightarrow> uint16 list" where
  "Module_Ops m = mkeys (md_handlers m)"

end
