(* ===== verification/Room_Ops.thy ===== *)
theory Room_Ops
  imports Room_Module
begin

text \<open>
  The operations of \<^verbatim>\<open>room/room.go\<close>. A method that blocks on the actor is split as the code is:
  the closure that runs on the actor (\<open>_step\<close>) and the part on the caller's goroutine. The whole
  method runs them in sequence; \<^verbatim>\<open>Room_Steps.thy\<close> lets other closures run in between.
  Times and the random part of a room ID come from outside: \<open>now\<close> is \<open>time.Now().Unix()\<close> and
  \<open>uuid\<close> is \<open>uuid.NewString()\<close>.
\<close>

section \<open>Construction\<close>

text \<open>\<open>safe\<close>: the panic of a hook ends the hook and is logged.\<close>

definition safe_hook :: "'s act list \<Rightarrow> 's Room \<Rightarrow> 's Room \<times> eff list" where
  "safe_hook acts r = (case run_acts acts r of (r', es, pan) \<Rightarrow> (r', es))"

definition newRoom :: "string \<Rightarrow> RoomConfig \<Rightarrow> 's Module \<Rightarrow> 's Room \<times> eff list" where
  "newRoom uuid config module =
     (let state = (case md_newState module of
                     Some (Some s) \<Rightarrow> s
                   | _ \<Rightarrow> md_zero module);
          r = \<lparr>rm_id = rc_Name config @ ''_'' @ uuid, rm_config = config, rm_State = state,
               rm_players = mempty, rm_isOpen = True, rm_emptyTimer = None, rm_keepOnEmpty = False,
               rm_onEmpty = False, rm_done = False\<rparr>
      in case md_onInit module of None \<Rightarrow> (r, []) | Some h \<Rightarrow> safe_hook (h r) r)"

definition Room_setOnEmpty :: "'s Room \<Rightarrow> 's Room" where
  "Room_setOnEmpty r = r\<lparr>rm_onEmpty := True\<rparr>"

section \<open>Running on the actor\<close>

text \<open>\<open>do\<close>: the closure runs unless the room is shut down, and the caller learns which.\<close>

definition room_do :: "('s Room \<Rightarrow> 's Room \<times> eff list \<times> 'a) \<Rightarrow> 's Room \<Rightarrow> 's Room \<times> eff list \<times> 'a option" where
  "room_do fn r =
     (if rm_done r then (r, [], None)
      else case fn r of (r', es, a) \<Rightarrow> (r', es, Some a))"

text \<open>A hook inside a closure: its panic ends the closure, so it is handed to the caller.\<close>

definition player_hook :: "'s player_hook option \<Rightarrow> Player \<Rightarrow> 's Room \<Rightarrow> 's Room \<times> sends" where
  "player_hook h p r = (case h of None \<Rightarrow> (r, [], None) | Some f \<Rightarrow> run_acts (f r p) r)"

definition at_capacity :: "'s Room \<Rightarrow> bool" where
  "at_capacity r \<longleftrightarrow> rc_MaxPlayers (rm_config r) > 0 \<and>
     (of_nat (mlen (rm_players r)) :: uint16) \<ge> rc_MaxPlayers (rm_config r)"

section \<open>Join\<close>

text \<open>The closure of \<open>Join\<close>: the error it leaves in \<open>joinErr\<close> and the flag \<open>joined\<close>.\<close>

definition join_step ::
  "'s Module \<Rightarrow> int \<Rightarrow> uint64 \<Rightarrow> string \<Rightarrow> 's Room \<Rightarrow> 's Room \<times> eff list \<times> (goerror option \<times> bool)" where
  "join_step module now clientID userID r =
     (if \<not> rm_isOpen r then (r, [], (Some ErrRoomClosed, False))
      else if at_capacity r then (r, [], (Some ErrRoomFull, False))
      else if hasPlayer clientID r then (r, [], (None, False))
      else
        let p = \<lparr>pl_ID = clientID, pl_UserID = userID, pl_JoinedAt = now\<rparr>;
            r1 = cancelEmptyRemoval (r\<lparr>rm_players := mput clientID p (rm_players r)\<rparr>)
        in case player_hook (md_onJoin module) p r1 of (r2, es, pan) \<Rightarrow> (r2, es, (None, True)))"

definition playerJoined_event :: "uint64 \<Rightarrow> string \<Rightarrow> Event outcome" where
  "playerJoined_event clientID userID =
     NewEvent EventPlayerJoined
       (Some (PlayerJoined_Marshal \<lparr>pj_PlayerID = clientID, pj_UserID = userID\<rparr>))"

definition playerLeft_event :: "uint64 \<Rightarrow> Event outcome" where
  "playerLeft_event clientID =
     NewEvent EventPlayerLeft (Some (PlayerLeft_Marshal \<lparr>plf_PlayerID = clientID\<rparr>))"

definition Room_Join ::
  "'s Module \<Rightarrow> int \<Rightarrow> uint64 \<Rightarrow> string \<Rightarrow> 's Room \<Rightarrow> goerror option outcome \<times> 's Room \<times> eff list" where
  "Room_Join module now clientID userID r =
     (case room_do (join_step module now clientID userID) r of
        (r1, es, None) \<Rightarrow> (Val (Some ErrRoomClosed), r1, es)
      | (r1, es, Some (Some joinErr, joined)) \<Rightarrow> (Val (Some joinErr), r1, es)
      | (r1, es, Some (None, False)) \<Rightarrow> (Val None, r1, es)
      | (r1, es, Some (None, True)) \<Rightarrow>
          (case playerJoined_event clientID userID of
             Panic e \<Rightarrow> (Panic e, r1, es)
           | Val ev \<Rightarrow> (Val None, r1, es @ [Pub (Room_topic r1) ev])))"

section \<open>JoinReplace\<close>

text \<open>
  The closure of \<open>JoinReplace\<close>: \<open>joinErr\<close> and \<open>becameEmpty\<close>. A panic of \<open>OnLeave\<close> leaves the closure
  before the new player is added, with both variables still unset.
\<close>

definition joinReplace_step ::
  "'s Module \<Rightarrow> int \<Rightarrow> uint64 \<Rightarrow> uint64 \<Rightarrow> string \<Rightarrow> 's Room \<Rightarrow>
   's Room \<times> eff list \<times> (goerror option \<times> bool)" where
  "joinReplace_step module now oldClientID clientID userID r =
     (if \<not> rm_isOpen r then (r, [], (Some ErrRoomClosed, False))
      else
        let (r1, es1, pan1) =
          (case mget (rm_players r) oldClientID of
             None \<Rightarrow> (r, [], None)
           | Some old \<Rightarrow>
               player_hook (md_onLeave module) old
                 (r\<lparr>rm_players := mdel oldClientID (rm_players r)\<rparr>))
        in if pan1 \<noteq> None then (r1, es1, (None, False))
           else if at_capacity r1
           then (r1, es1, (Some ErrRoomFull, mlen (rm_players r1) = 0 \<and> \<not> rm_keepOnEmpty r1))
           else
             let p = \<lparr>pl_ID = clientID, pl_UserID = userID, pl_JoinedAt = now\<rparr>;
                 r2 = cancelEmptyRemoval (r1\<lparr>rm_players := mput clientID p (rm_players r1)\<rparr>)
             in case player_hook (md_onJoin module) p r2 of
                  (r3, es3, pan3) \<Rightarrow> (r3, es1 @ es3, (None, False)))"

definition Room_JoinReplace ::
  "'s Module \<Rightarrow> int \<Rightarrow> uint64 \<Rightarrow> uint64 \<Rightarrow> string \<Rightarrow> 's Room \<Rightarrow>
   goerror option outcome \<times> 's Room \<times> eff list" where
  "Room_JoinReplace module now oldClientID clientID userID r =
     (case room_do (joinReplace_step module now oldClientID clientID userID) r of
        (r1, es, None) \<Rightarrow> (Val (Some ErrRoomClosed), r1, es)
      | (r1, es, Some (Some joinErr, becameEmpty)) \<Rightarrow>
          (Val (Some joinErr), r1,
           es @ (if becameEmpty \<and> rm_onEmpty r1 then [GoOnEmpty (rm_id r1)] else []))
      | (r1, es, Some (None, becameEmpty)) \<Rightarrow>
          (case playerLeft_event oldClientID of
             Panic e \<Rightarrow> (Panic e, r1, es)
           | Val left \<Rightarrow>
               (case playerJoined_event clientID userID of
                  Panic e \<Rightarrow> (Panic e, r1, es @ [Pub (Room_topic r1) left])
                | Val joined \<Rightarrow>
                    (Val None, r1, es @ [Pub (Room_topic r1) left, Pub (Room_topic r1) joined]))))"

section \<open>Leave\<close>

text \<open>
  The first closure of \<open>Leave\<close>: the flags \<open>existed\<close> and \<open>empty\<close>; a panic of \<open>OnLeave\<close> leaves the
  closure before \<open>empty\<close> is set.
\<close>

definition leave_step ::
  "'s Module \<Rightarrow> uint64 \<Rightarrow> 's Room \<Rightarrow> 's Room \<times> eff list \<times> (bool \<times> bool)" where
  "leave_step module clientID r =
     (case mget (rm_players r) clientID of
        None \<Rightarrow> (r, [], (False, False))
      | Some p \<Rightarrow>
          (case player_hook (md_onLeave module) p
                  (r\<lparr>rm_players := mdel clientID (rm_players r)\<rparr>) of
             (r1, es, Some pan) \<Rightarrow> (r1, es, (True, False))
           | (r1, es, None) \<Rightarrow> (r1, es, (True, mlen (rm_players r1) = 0))))"

definition schedule_step :: "'s Room \<Rightarrow> 's Room \<times> eff list \<times> unit" where
  "schedule_step r = (case scheduleEmptyRemoval r of (r1, es) \<Rightarrow> (r1, es, ()))"

definition Room_Leave :: "'s Module \<Rightarrow> uint64 \<Rightarrow> 's Room \<Rightarrow> unit outcome \<times> 's Room \<times> eff list" where
  "Room_Leave module clientID r =
     (case room_do (leave_step module clientID) r of
        (r1, es, None) \<Rightarrow> (Val (), r1, es)
      | (r1, es, Some (False, nowEmpty)) \<Rightarrow> (Val (), r1, es)
      | (r1, es, Some (True, nowEmpty)) \<Rightarrow>
          (case playerLeft_event clientID of
             Panic e \<Rightarrow> (Panic e, r1, es)
           | Val ev \<Rightarrow>
               let es1 = es @ [Pub (Room_topic r1) ev] in
               if nowEmpty \<and> rm_onEmpty r1
               then (case room_do schedule_step r1 of (r2, es2, _) \<Rightarrow> (Val (), r2, es1 @ es2))
               else (Val (), r1, es1)))"

section \<open>The other blocking methods\<close>

definition Room_Close :: "'s Room \<Rightarrow> 's Room" where
  "Room_Close r = fst (room_do (\<lambda>r. (r\<lparr>rm_isOpen := False\<rparr>, [], ())) r)"

definition Room_Open :: "'s Room \<Rightarrow> 's Room" where
  "Room_Open r = fst (room_do (\<lambda>r. (r\<lparr>rm_isOpen := True\<rparr>, [], ())) r)"

definition Room_IsOpen :: "'s Room \<Rightarrow> bool" where
  "Room_IsOpen r = (case room_do (\<lambda>r. (r, [], rm_isOpen r)) r of (r, es, None) \<Rightarrow> False | (r, es, Some b) \<Rightarrow> b)"

definition Room_Info :: "'s Room \<Rightarrow> goerror + RoomInfo" where
  "Room_Info r = (case room_do (\<lambda>r. (r, [], roomInfo r)) r of
     (r, es, None) \<Rightarrow> Inl ErrRoomClosed | (r, es, Some info) \<Rightarrow> Inr info)"

definition Room_Players :: "'s Room \<Rightarrow> Player list" where
  "Room_Players r = (case room_do (\<lambda>r. (r, [], playerList r)) r of
     (r, es, None) \<Rightarrow> [] | (r, es, Some out) \<Rightarrow> out)"

definition Room_HasPlayer :: "uint64 \<Rightarrow> 's Room \<Rightarrow> bool" where
  "Room_HasPlayer clientID r = (case room_do (\<lambda>r. (r, [], hasPlayer clientID r)) r of
     (r, es, None) \<Rightarrow> False | (r, es, Some b) \<Rightarrow> b)"

definition Room_Options :: "'s Room \<Rightarrow> (string, string) gomap" where
  "Room_Options r = rc_Options (rm_config r)"

section \<open>Messages\<close>

definition Room_HandlesOp :: "'s Module \<Rightarrow> uint16 \<Rightarrow> bool" where
  "Room_HandlesOp module op \<longleftrightarrow> mhas (md_handlers module) op"

text \<open>Calling a missing handler is a nil call inside the recovered part of the closure.\<close>

definition handle_step ::
  "'s Module \<Rightarrow> bool \<Rightarrow> uint64 \<Rightarrow> uint16 \<Rightarrow> bytes \<Rightarrow> 's Room \<Rightarrow>
   's Room \<times> eff list \<times> (goerror + marshaler)" where
  "handle_step module ctx clientID op payload r =
     (case mget (rm_players r) clientID of
        None \<Rightarrow> (r, [], Inl ErrNotInRoom)
      | Some p \<Rightarrow>
          (case mget (md_handlers module) op of
             None \<Rightarrow> (r, [], Inl (NewError 500 ''internal error''))
           | Some h \<Rightarrow>
               (case h ctx r p payload of (acts, res) \<Rightarrow>
                  (case run_acts acts r of
                     (r1, es, Some pan) \<Rightarrow> (r1, es, Inl (NewError 500 ''internal error''))
                   | (r1, es, None) \<Rightarrow> (r1, es, res)))))"

definition Room_HandleMessage ::
  "'s Module \<Rightarrow> bool \<Rightarrow> uint64 \<Rightarrow> uint16 \<Rightarrow> bytes \<Rightarrow> 's Room \<Rightarrow>
   (goerror + marshaler) \<times> 's Room \<times> eff list" where
  "Room_HandleMessage module ctx clientID op payload r =
     (case room_do (handle_step module ctx clientID op payload) r of
        (r1, es, None) \<Rightarrow> (Inl ErrRoomClosed, r1, es)
      | (r1, es, Some res) \<Rightarrow> (res, r1, es))"

section \<open>Ticks and shutdown\<close>

definition has_ticker :: "'s Module \<Rightarrow> bool" where
  "has_ticker module \<longleftrightarrow> md_tickRate module > 0 \<and> md_onTick module \<noteq> None"

definition tick_step :: "'s Module \<Rightarrow> duration \<Rightarrow> 's Room \<Rightarrow> 's Room \<times> eff list" where
  "tick_step module dt r =
     (case md_onTick module of None \<Rightarrow> (r, []) | Some f \<Rightarrow> safe_hook (f r dt) r)"

text \<open>What the loop does on its way out, once the context is cancelled.\<close>

definition exit_loop :: "'s Module \<Rightarrow> 's Room \<Rightarrow> 's Room \<times> eff list" where
  "exit_loop module r =
     (let r1 = cancelEmptyRemoval r in
      case md_onClose module of None \<Rightarrow> (r1, []) | Some h \<Rightarrow> safe_hook (h r1) r1)"

text \<open>\<open>Shutdown\<close> cancels the context and waits for the loop; the loop is gone on a second call.\<close>

definition Room_Shutdown :: "'s Module \<Rightarrow> 's Room \<Rightarrow> 's Room \<times> eff list" where
  "Room_Shutdown module r =
     (if rm_done r then (r, []) else exit_loop module (r\<lparr>rm_done := True\<rparr>))"

end
