(* ===== verification/Room_Props.thy ===== *)
theory Room_Props
  imports Room_Ops
begin

text \<open>
  Lemmas on the room operations: the frame of the hooks, the well-formedness and capacity
  invariant, the behaviour of every operation on every branch, and the contract of a room
  (\<open>any_room\<close>) that the manager relies on, interpreted on the operations.
\<close>

section \<open>What hooks cannot change\<close>

text \<open>The fields only the room package writes.\<close>

definition same_core :: "'s Room \<Rightarrow> 's Room \<Rightarrow> bool" where
  "same_core r r' \<longleftrightarrow> rm_id r' = rm_id r \<and> rm_config r' = rm_config r \<and> rm_players r' = rm_players r \<and>
     rm_isOpen r' = rm_isOpen r \<and> rm_onEmpty r' = rm_onEmpty r \<and> rm_done r' = rm_done r"

lemma same_core_refl [simp]: "same_core r r"
  by (simp add: same_core_def)

lemma same_core_trans: "same_core r r' \<Longrightarrow> same_core r' r'' \<Longrightarrow> same_core r r''"
  by (simp add: same_core_def)

lemma same_coreD:
  assumes "same_core r r'"
  shows "rm_id r' = rm_id r" "rm_config r' = rm_config r" "rm_players r' = rm_players r"
    "rm_isOpen r' = rm_isOpen r" "rm_onEmpty r' = rm_onEmpty r" "rm_done r' = rm_done r"
  using assms by (simp_all add: same_core_def)

lemma cancelEmptyRemoval_eq: "cancelEmptyRemoval r = r\<lparr>rm_emptyTimer := None\<rparr>"
  by (simp add: cancelEmptyRemoval_def)

lemma cancelEmptyRemoval_core [simp]: "same_core r (cancelEmptyRemoval r)"
  by (simp add: cancelEmptyRemoval_eq same_core_def)

lemma schedule_core: "scheduleEmptyRemoval r = (r', es) \<Longrightarrow> same_core r r'"
  by (auto simp: scheduleEmptyRemoval_def cancelEmptyRemoval_eq same_core_def Let_def split: if_splits)

lemma SetKeepOnEmpty_core: "SetKeepOnEmpty k r = (r', es) \<Longrightarrow> same_core r r'"
  by (auto simp: SetKeepOnEmpty_def scheduleEmptyRemoval_def cancelEmptyRemoval_eq same_core_def
      Let_def split: if_splits)

lemma run_act_core: "run_act a r = (r', es, pan) \<Longrightarrow> same_core r r'"
  by (cases a) (auto dest: SetKeepOnEmpty_core simp: same_core_def split: prod.splits)

lemma run_acts_core: "run_acts as r = (r', es, pan) \<Longrightarrow> same_core r r'"
proof (induction as arbitrary: r es)
  case Nil
  then show ?case by simp
next
  case (Cons a as)
  obtain r1 es1 pan1 where a: "run_act a r = (r1, es1, pan1)" by (metis prod_cases3)
  then have c: "same_core r r1" by (rule run_act_core)
  show ?case
  proof (cases pan1)
    case None
    with Cons.prems a obtain es2 where "run_acts as r1 = (r', es2, pan)"
      by (auto split: prod.splits)
    with Cons.IH c show ?thesis by (blast intro: same_core_trans)
  next
    case (Some e)
    with Cons.prems a c show ?thesis by simp
  qed
qed

lemma player_hook_core: "player_hook h p r = (r', es, pan) \<Longrightarrow> same_core r r'"
  by (auto simp: player_hook_def dest: run_acts_core split: option.splits)

lemma safe_hook_core: "safe_hook as r = (r', es) \<Longrightarrow> same_core r r'"
  by (auto simp: safe_hook_def dest: run_acts_core split: prod.splits)

lemmas hook_cores = schedule_core SetKeepOnEmpty_core run_acts_core player_hook_core safe_hook_core

section \<open>The invariant\<close>

text \<open>
  Players are stored under their own client ID, and a room with a player cap never holds more
  players than the cap.
\<close>

definition room_wf :: "'s Room \<Rightarrow> bool" where
  "room_wf r \<longleftrightarrow> mwf (rm_players r) \<and>
     (\<forall>k p. mget (rm_players r) k = Some p \<longrightarrow> pl_ID p = k) \<and>
     (rc_MaxPlayers (rm_config r) > 0 \<longrightarrow>
        mlen (rm_players r) \<le> unat (rc_MaxPlayers (rm_config r)))"

lemma room_wf_core: "same_core r r' \<Longrightarrow> room_wf r' \<longleftrightarrow> room_wf r"
  by (simp add: room_wf_def same_coreD)

lemma at_capacity_core: "same_core r r' \<Longrightarrow> at_capacity r' \<longleftrightarrow> at_capacity r"
  by (simp add: at_capacity_def same_coreD)

lemma unat_of_nat16: "n \<le> 65535 \<Longrightarrow> unat (of_nat n :: uint16) = n"
  by (simp add: unat_of_nat)

text \<open>Under the invariant the conversion to 16 bits is exact, so the test means what it says.\<close>

lemma at_capacity_iff:
  assumes "room_wf r"
  shows "at_capacity r \<longleftrightarrow> rc_MaxPlayers (rm_config r) > 0 \<and>
    mlen (rm_players r) = unat (rc_MaxPlayers (rm_config r))"
proof (cases "rc_MaxPlayers (rm_config r) > 0")
  case True
  let ?m = "rc_MaxPlayers (rm_config r)"
  have "mlen (rm_players r) \<le> unat ?m" using assms True by (simp add: room_wf_def)
  moreover from this have "mlen (rm_players r) \<le> 65535"
    using unat_uint16_le [of ?m] by linarith
  ultimately show ?thesis
    using True by (auto simp: at_capacity_def word_le_nat_alt unat_of_nat16)
qed (simp add: at_capacity_def)

lemma room_wf_add:
  assumes "room_wf r" "\<not> at_capacity r" "pl_ID p = k"
  shows "room_wf (r\<lparr>rm_players := mput k p (rm_players r)\<rparr>)"
  using assms at_capacity_iff [OF assms(1)]
  by (auto simp: room_wf_def mlen_mput)

lemma room_wf_remove: "room_wf r \<Longrightarrow> room_wf (r\<lparr>rm_players := mdel k (rm_players r)\<rparr>)"
  by (auto simp: room_wf_def intro: order_trans [OF mlen_mdel_le])

lemma newRoom_core:
  assumes "newRoom uuid config md = (r, es)"
  shows "rm_id r = rc_Name config @ ''_'' @ uuid" "rm_config r = config" "rm_players r = []"
    "rm_isOpen r" "\<not> rm_onEmpty r" "\<not> rm_done r"
  using assms
  by (auto simp: newRoom_def Let_def mempty_def split: option.splits dest!: safe_hook_core
      simp: same_core_def)

lemma newRoom_wf: "newRoom uuid config md = (r, es) \<Longrightarrow> room_wf r"
  using newRoom_core [of uuid config md r es] by (simp add: room_wf_def)

section \<open>Join\<close>

lemma join_step_cases:
  "join_step md now c u r =
     (if \<not> rm_isOpen r then (r, [], (Some ErrRoomClosed, False))
      else if at_capacity r then (r, [], (Some ErrRoomFull, False))
      else if hasPlayer c r then (r, [], (None, False))
      else case player_hook (md_onJoin md) \<lparr>pl_ID = c, pl_UserID = u, pl_JoinedAt = now\<rparr>
             (r\<lparr>rm_players := mput c \<lparr>pl_ID = c, pl_UserID = u, pl_JoinedAt = now\<rparr> (rm_players r),
                rm_emptyTimer := None\<rparr>) of
             (r2, es, pan) \<Rightarrow> (r2, es, (None, True)))"
  by (simp add: join_step_def cancelEmptyRemoval_eq Let_def)

lemma join_step_wf:
  assumes "join_step md now c u r = (r', es, a)" "room_wf r"
  shows "room_wf r'"
proof (cases "\<not> rm_isOpen r \<or> at_capacity r \<or> hasPlayer c r")
  case True
  then have "r' = r" using assms(1) by (auto simp: join_step_cases split: if_splits)
  with assms(2) show ?thesis by simp
next
  case False
  let ?p = "\<lparr>pl_ID = c, pl_UserID = u, pl_JoinedAt = now\<rparr>"
  let ?r = "r\<lparr>rm_players := mput c ?p (rm_players r)\<rparr>"
  from False assms(1) obtain es' pan where
    "player_hook (md_onJoin md) ?p (cancelEmptyRemoval ?r) = (r', es', pan)"
    by (auto simp: join_step_def Let_def split: prod.splits)
  then have "same_core ?r r'"
    by (blast intro: same_core_trans cancelEmptyRemoval_core player_hook_core)
  moreover have "room_wf ?r" using assms(2) False by (intro room_wf_add) auto
  ultimately show ?thesis by (simp add: room_wf_core)
qed

lemma join_step_players:
  assumes "join_step md now c u r = (r', es, (err, joined))"
  shows "mget (rm_players r') =
      (if joined then (mget (rm_players r))(c \<mapsto> \<lparr>pl_ID = c, pl_UserID = u, pl_JoinedAt = now\<rparr>)
       else mget (rm_players r))"
    and "err = None \<Longrightarrow> hasPlayer c r'" and "err \<noteq> None \<Longrightarrow> r' = r \<and> es = [] \<and> \<not> joined"
    and "rm_id r' = rm_id r" and "rm_config r' = rm_config r" and "rm_done r' = rm_done r"
    and "rm_onEmpty r' = rm_onEmpty r" and "rm_isOpen r' = rm_isOpen r"
    and "joined \<Longrightarrow> \<not> hasPlayer c r"
  using assms
  by (auto simp: join_step_cases hasPlayer_def dest!: player_hook_core simp: same_core_def
      split: if_splits prod.splits)

definition members :: "'s Room \<Rightarrow> uint64 set" where
  "members r = dom (mget (rm_players r))"

lemma hasPlayer_members: "hasPlayer c r \<longleftrightarrow> c \<in> members r"
  by (auto simp: hasPlayer_def members_def mhas_def)

lemma members_core: "same_core r r' \<Longrightarrow> members r' = members r"
  by (simp add: members_def same_coreD)

lemma members_card: "room_wf r \<Longrightarrow> card (members r) = mlen (rm_players r)"
  by (simp add: members_def room_wf_def mlen_card)

lemma playerJoined_event_eq:
  "fits16 u \<Longrightarrow> playerJoined_event c u =
     Val \<lparr>ev_Op = EventPlayerJoined,
          ev_Payload = PlayerJoined_enc \<lparr>pj_PlayerID = c, pj_UserID = u\<rparr>\<rparr>"
  by (simp add: playerJoined_event_def NewEvent_def Encode_def PlayerJoined_marshal_fits
      PlayerJoined_fits_def)

lemma playerLeft_event_eq:
  "playerLeft_event c =
     Val \<lparr>ev_Op = EventPlayerLeft, ev_Payload = PlayerLeft_enc \<lparr>plf_PlayerID = c\<rparr>\<rparr>"
  by (simp add: playerLeft_event_def NewEvent_def Encode_def PlayerLeft_marshal_fits
      PlayerLeft_fits_def)

lemma Room_Join_done: "rm_done r \<Longrightarrow> Room_Join md now c u r = (Val (Some ErrRoomClosed), r, [])"
  by (simp add: Room_Join_def room_do_def)

text \<open>The room after \<open>Join\<close> is the room after its closure.\<close>

lemma Room_Join_step:
  assumes "Room_Join md now c u r = (res, r', es)" "\<not> rm_done r"
  obtains es0 err joined where "join_step md now c u r = (r', es0, (err, joined))"
    and "err \<noteq> None \<Longrightarrow> res = Val err \<and> es = es0"
    and "err = None \<Longrightarrow> \<not> joined \<Longrightarrow> res = Val None \<and> es = es0"
    and "err = None \<Longrightarrow> joined \<Longrightarrow> fits16 u \<Longrightarrow> res = Val None \<and>
      es = es0 @ [Pub (Room_topic r') \<lparr>ev_Op = EventPlayerJoined,
          ev_Payload = PlayerJoined_enc \<lparr>pj_PlayerID = c, pj_UserID = u\<rparr>\<rparr>]"
    and "res = Val None \<Longrightarrow> err = None"
proof -
  obtain r1 es0 err joined where st: "join_step md now c u r = (r1, es0, (err, joined))"
    by (metis prod_cases3 surj_pair)
  have "r1 = r'" using assms st
    by (auto simp: Room_Join_def room_do_def split: option.splits bool.splits outcome.splits)
  with st have st': "join_step md now c u r = (r', es0, (err, joined))" by simp
  show ?thesis
    by (rule that [OF st'])
       (use assms st' in \<open>auto simp: Room_Join_def room_do_def playerJoined_event_eq
          split: option.splits bool.splits outcome.splits\<close>)
qed

lemma Room_Join_wf: "Room_Join md now c u r = (res, r', es) \<Longrightarrow> room_wf r \<Longrightarrow> room_wf r'"
  by (cases "rm_done r") (auto simp: Room_Join_done elim: Room_Join_step dest: join_step_wf)

lemma Room_Join_error:
  assumes "Room_Join md now c u r = (Val (Some e), r', es)"
  shows "r' = r" and "es = []"
proof -
  have "r' = r \<and> es = []"
  proof (cases "rm_done r")
    case True
    with assms show ?thesis by (simp add: Room_Join_done)
  next
    case False
    show ?thesis
    proof (rule Room_Join_step [OF assms False])
      fix es0 err joined
      assume st: "join_step md now c u r = (r', es0, (err, joined))"
        and e: "err \<noteq> None \<Longrightarrow> Val (Some e) = Val err \<and> es = es0"
        and n: "err = None \<Longrightarrow> \<not> joined \<Longrightarrow> Val (Some e) = Val None \<and> es = es0"
      have "err \<noteq> None"
      proof
        assume "err = None"
        moreover have "joined" using n \<open>err = None\<close> by auto
        ultimately show False using assms st False
          by (auto simp: Room_Join_def room_do_def split: outcome.splits)
      qed
      with e join_step_players(3) [OF st] show ?thesis by auto
    qed
  qed
  then show "r' = r" and "es = []" by auto
qed

lemma Room_Join_ok:
  assumes "Room_Join md now c u r = (Val None, r', es)"
  shows "members r' = insert c (members r)" and "\<not> rm_done r" and "rm_isOpen r"
proof -
  have nd: "\<not> rm_done r" using assms by (auto simp: Room_Join_done)
  then show "\<not> rm_done r" .
  from Room_Join_step [OF assms nd] obtain es0 joined
    where st: "join_step md now c u r = (r', es0, (None, joined))" by metis
  show "members r' = insert c (members r)"
    using join_step_players(1,2) [OF st] by (auto simp: members_def hasPlayer_members split: if_splits)
  show "rm_isOpen r" using st by (auto simp: join_step_cases split: if_splits prod.splits)
qed

end
