(* ===== verification/Room_Contract.thy ===== *)
theory Room_Contract
  imports Room_Props
begin

text \<open>
  The remaining operations of a room, and the contract of the interface \<open>AnyRoom\<close> that the manager
  relies on: the locale \<open>any_room\<close>, interpreted on the operations of the model.
\<close>

section \<open>JoinReplace\<close>

definition new_player :: "int \<Rightarrow> uint64 \<Rightarrow> string \<Rightarrow> Player" where
  "new_player now c u = \<lparr>pl_ID = c, pl_UserID = u, pl_JoinedAt = now\<rparr>"

text \<open>The room after the old player is dropped and \<open>OnLeave\<close> has run.\<close>

definition drop_old :: "'s Module \<Rightarrow> uint64 \<Rightarrow> 's Room \<Rightarrow> 's Room \<times> sends" where
  "drop_old md old r =
     (case mget (rm_players r) old of
        None \<Rightarrow> (r, [], None)
      | Some p \<Rightarrow> player_hook (md_onLeave md) p (r\<lparr>rm_players := mdel old (rm_players r)\<rparr>))"

lemma drop_old_core:
  "drop_old md old r = (r1, es, pan) \<Longrightarrow> same_core (r\<lparr>rm_players := rm_players r1\<rparr>) r1"
  by (auto simp: drop_old_def same_core_def dest!: player_hook_core split: option.splits)

lemma drop_old_players:
  "drop_old md old r = (r1, es, pan) \<Longrightarrow>
     rm_players r1 = (if hasPlayer old r then mdel old (rm_players r) else rm_players r)"
  by (auto simp: drop_old_def hasPlayer_def mhas_def same_core_def dest!: player_hook_core
      split: option.splits)

lemma drop_old_fields:
  assumes "drop_old md old r = (r1, es, pan)"
  shows "rm_id r1 = rm_id r" "rm_config r1 = rm_config r" "rm_isOpen r1 = rm_isOpen r"
    "rm_onEmpty r1 = rm_onEmpty r" "rm_done r1 = rm_done r" "members r1 = members r - {old}"
  using drop_old_core [OF assms] drop_old_players [OF assms]
  by (auto simp: same_core_def members_def hasPlayer_def mhas_def split: if_splits)

lemma drop_old_wf: "drop_old md old r = (r1, es, pan) \<Longrightarrow> room_wf r \<Longrightarrow> room_wf r1"
  using drop_old_core [of md old r r1 es pan] drop_old_players [of md old r r1 es pan]
    room_wf_remove [of r old]
  by (auto simp: room_wf_core split: if_splits)

lemma drop_old_room:
  assumes "drop_old md old r = (r1, es, pan)" "room_wf r" "hasPlayer old r"
  shows "\<not> at_capacity r1"
proof -
  have wf: "room_wf r1" by (rule drop_old_wf [OF assms(1,2)])
  have "mlen (rm_players r1) < mlen (rm_players r)"
    using assms drop_old_players [OF assms(1)] mlen_pos [of "rm_players r" old]
    by (simp add: mlen_mdel room_wf_def hasPlayer_def)
  moreover have "rm_config r1 = rm_config r" by (rule drop_old_fields(2) [OF assms(1)])
  ultimately show ?thesis
    using assms(2) by (auto simp: at_capacity_iff [OF wf] room_wf_def)
qed

lemma joinReplace_step_cases:
  "joinReplace_step md now old c u r =
     (if \<not> rm_isOpen r then (r, [], (Some ErrRoomClosed, False))
      else case drop_old md old r of (r1, es1, pan1) \<Rightarrow>
        if pan1 \<noteq> None then (r1, es1, (None, False))
        else if at_capacity r1
        then (r1, es1, (Some ErrRoomFull, mlen (rm_players r1) = 0 \<and> \<not> rm_keepOnEmpty r1))
        else case player_hook (md_onJoin md) (new_player now c u)
               (r1\<lparr>rm_players := mput c (new_player now c u) (rm_players r1), rm_emptyTimer := None\<rparr>) of
               (r3, es3, pan3) \<Rightarrow> (r3, es1 @ es3, (None, False)))"
  by (simp add: joinReplace_step_def drop_old_def new_player_def cancelEmptyRemoval_eq Let_def
      split: prod.splits option.splits)

lemma add_player_hook:
  assumes "player_hook h p (r\<lparr>rm_players := mput c p (rm_players r), rm_emptyTimer := t\<rparr>) = (r', es, pan)"
  shows "rm_id r' = rm_id r" "rm_config r' = rm_config r" "rm_isOpen r' = rm_isOpen r"
    "rm_onEmpty r' = rm_onEmpty r" "rm_done r' = rm_done r" "members r' = insert c (members r)"
    "rm_players r' = mput c p (rm_players r)"
  using player_hook_core [OF assms] by (auto simp: same_core_def members_def)

lemma add_player_wf:
  assumes "player_hook h p (r\<lparr>rm_players := mput c p (rm_players r), rm_emptyTimer := t\<rparr>) = (r', es, pan)"
    "room_wf r" "\<not> at_capacity r" "pl_ID p = c"
  shows "room_wf r'"
proof -
  have "same_core (r\<lparr>rm_players := mput c p (rm_players r)\<rparr>) r'"
    using player_hook_core [OF assms(1)] by (simp add: same_core_def)
  then show ?thesis using room_wf_add [OF assms(2,3,4)] by (simp add: room_wf_core)
qed

lemma joinReplace_step_fields:
  assumes "joinReplace_step md now old c u r = (r', es, a)"
  shows "rm_id r' = rm_id r" "rm_config r' = rm_config r" "rm_isOpen r' = rm_isOpen r"
    "rm_onEmpty r' = rm_onEmpty r" "rm_done r' = rm_done r"
    "members r' \<subseteq> insert c (members r)" "members r - {old} \<subseteq> members r'"
  using assms
  by (auto simp: joinReplace_step_cases drop_old_fields add_player_hook
      split: if_splits prod.splits)

lemma joinReplace_step_wf:
  assumes "joinReplace_step md now old c u r = (r', es, a)" "room_wf r"
  shows "room_wf r'"
proof (cases "rm_isOpen r")
  case True
  obtain r1 es1 pan1 where d: "drop_old md old r = (r1, es1, pan1)" by (metis prod_cases3)
  have "room_wf r1" by (rule drop_old_wf [OF d assms(2)])
  then show ?thesis using assms(1) True d
    by (auto simp: joinReplace_step_cases new_player_def split: if_splits prod.splits
        intro: add_player_wf [where c = c])
qed (use assms in \<open>auto simp: joinReplace_step_cases\<close>)

text \<open>A capacity that refuses the newcomer is never met by an empty room.\<close>

lemma joinReplace_never_empties:
  assumes "joinReplace_step md now old c u r = (r', es, (err, becameEmpty))" "room_wf r"
  shows "\<not> becameEmpty"
proof
  assume b: "becameEmpty"
  with assms(1) have "at_capacity r'" "mlen (rm_players r') = 0"
    by (auto simp: joinReplace_step_cases split: if_splits prod.splits)
  moreover have "room_wf r'" using joinReplace_step_wf [OF assms] .
  ultimately show False by (auto simp: at_capacity_iff unat_eq_zero)
qed

lemma Room_JoinReplace_done:
  "rm_done r \<Longrightarrow> Room_JoinReplace md now old c u r = (Val (Some ErrRoomClosed), r, [])"
  by (simp add: Room_JoinReplace_def room_do_def)

text \<open>The room after \<open>JoinReplace\<close> is the room after its closure.\<close>

lemma Room_JoinReplace_step:
  assumes "Room_JoinReplace md now old c u r = (res, r', es)" "\<not> rm_done r"
  obtains es0 err e where "joinReplace_step md now old c u r = (r', es0, (err, e))"
    and "err \<noteq> None \<Longrightarrow> res = Val err" and "res = Val None \<Longrightarrow> err = None"
    and "\<And>x. res = Val (Some x) \<Longrightarrow> err = Some x"
proof -
  obtain r1 es0 err e where st: "joinReplace_step md now old c u r = (r1, es0, (err, e))"
    by (metis prod_cases3 surj_pair)
  have "r1 = r'" using assms st
    by (auto simp: Room_JoinReplace_def room_do_def split: option.splits outcome.splits)
  with st have st': "joinReplace_step md now old c u r = (r', es0, (err, e))" by simp
  show ?thesis
    by (rule that [OF st'])
       (use assms st' in \<open>auto simp: Room_JoinReplace_def room_do_def
          split: option.splits outcome.splits\<close>)
qed

lemma Room_JoinReplace_wf:
  "Room_JoinReplace md now old c u r = (res, r', es) \<Longrightarrow> room_wf r \<Longrightarrow> room_wf r'"
  by (cases "rm_done r")
     (auto simp: Room_JoinReplace_done elim: Room_JoinReplace_step dest: joinReplace_step_wf)

lemma Room_JoinReplace_fields:
  assumes "Room_JoinReplace md now old c u r = (res, r', es)"
  shows "rm_id r' = rm_id r \<and> rm_config r' = rm_config r \<and> rm_isOpen r' = rm_isOpen r \<and>
    rm_onEmpty r' = rm_onEmpty r \<and> rm_done r' = rm_done r \<and>
    members r' \<subseteq> insert c (members r) \<and> members r - {old} \<subseteq> members r'"
proof (cases "rm_done r")
  case True
  with assms show ?thesis by (auto simp: Room_JoinReplace_done)
next
  case False
  from Room_JoinReplace_step [OF assms False] obtain es0 a
    where "joinReplace_step md now old c u r = (r', es0, a)" by metis
  from joinReplace_step_fields [OF this] show ?thesis by simp
qed

text \<open>A present old player always makes room: the swap of a live, open room cannot be refused.\<close>

lemma joinReplace_step_swap:
  assumes "room_wf r" "rm_isOpen r" "hasPlayer old r" "md_onLeave md = None"
    and "joinReplace_step md now old c u r = (r', es, (err, e))"
  shows "err = None \<and> members r' = insert c (members r - {old})"
proof -
  obtain r1 es1 pan1 where d: "drop_old md old r = (r1, es1, pan1)" by (metis prod_cases3)
  have p: "pan1 = None" using d assms(4) by (auto simp: drop_old_def player_hook_def split: option.splits)
  have "\<not> at_capacity r1" by (rule drop_old_room [OF d assms(1,3)])
  with p d assms(2,5) drop_old_fields(6) [OF d] show ?thesis
    by (auto simp: joinReplace_step_cases add_player_hook split: prod.splits)
qed

section \<open>Leave\<close>

lemma leave_step_drop:
  "leave_step md c r =
     (if \<not> hasPlayer c r then (r, [], (False, False))
      else case drop_old md c r of (r1, es, pan) \<Rightarrow>
        (r1, es, (True, pan = None \<and> mlen (rm_players r1) = 0)))"
  by (simp add: leave_step_def drop_old_def hasPlayer_def mhas_def split: option.splits prod.splits)

lemma leave_step_members:
  assumes "leave_step md c r = (r', es, (existed, nowEmpty))"
  shows "members r' = members r - {c}" and "existed \<longleftrightarrow> c \<in> members r"
    and "\<not> existed \<Longrightarrow> r' = r \<and> es = []"
  using assms
  by (auto simp: leave_step_drop hasPlayer_members drop_old_fields(6) split: if_splits prod.splits)

lemma leave_step_empty: "leave_step md c r = (r', es, (existed, True)) \<Longrightarrow> rm_players r' = []"
  by (auto simp: leave_step_drop split: if_splits prod.splits)

lemma leave_step_fields:
  assumes "leave_step md c r = (r', es, a)"
  shows "rm_id r' = rm_id r" "rm_config r' = rm_config r" "rm_isOpen r' = rm_isOpen r"
    "rm_onEmpty r' = rm_onEmpty r" "rm_done r' = rm_done r"
  using assms by (auto simp: leave_step_drop drop_old_fields split: if_splits prod.splits)

lemma leave_step_wf: "leave_step md c r = (r', es, a) \<Longrightarrow> room_wf r \<Longrightarrow> room_wf r'"
  by (auto simp: leave_step_drop split: if_splits prod.splits dest: drop_old_wf)

lemma Room_Leave_done: "rm_done r \<Longrightarrow> Room_Leave md c r = (Val (), r, [])"
  by (simp add: Room_Leave_def room_do_def)

lemma Room_Leave_absent: "c \<notin> members r \<Longrightarrow> Room_Leave md c r = (Val (), r, [])"
  by (simp add: Room_Leave_def room_do_def leave_step_drop hasPlayer_members)

text \<open>\<open>Leave\<close> of a player: the first closure, the event, then the second closure if it emptied the room.\<close>

lemma Room_Leave_eq:
  assumes "\<not> rm_done r" "leave_step md c r = (r1, es, (True, nowEmpty))"
  shows "Room_Leave md c r =
    (let ev = Pub (Room_topic r1) \<lparr>ev_Op = EventPlayerLeft, ev_Payload = PlayerLeft_enc \<lparr>plf_PlayerID = c\<rparr>\<rparr>
     in if nowEmpty \<and> rm_onEmpty r1
        then case scheduleEmptyRemoval r1 of (r2, es2) \<Rightarrow> (Val (), r2, (es @ [ev]) @ es2)
        else (Val (), r1, es @ [ev]))"
  using assms leave_step_fields(5) [OF assms(2)]
  by (simp add: Room_Leave_def room_do_def playerLeft_event_eq schedule_step_def Let_def
      split: prod.splits)

lemma Room_Leave_core:
  assumes "Room_Leave md c r = (res, r', es)" "\<not> rm_done r"
  obtains r1 es1 a where "leave_step md c r = (r1, es1, a)" and "same_core r1 r'"
proof -
  obtain r1 es1 existed nowEmpty where st: "leave_step md c r = (r1, es1, (existed, nowEmpty))"
    by (metis prod_cases3 surj_pair)
  have "same_core r1 r'"
  proof (cases existed)
    case True
    with st have "leave_step md c r = (r1, es1, (True, nowEmpty))" by simp
    from Room_Leave_eq [OF assms(2) this] assms(1) show ?thesis
      by (auto simp: Let_def dest: schedule_core split: if_splits prod.splits)
  next
    case False
    with st assms show ?thesis by (simp add: Room_Leave_def room_do_def)
  qed
  with st that show ?thesis by blast
qed

lemma Room_Leave_members:
  assumes "Room_Leave md c r = (res, r', es)"
  shows "members r' = (if rm_done r then members r else members r - {c})"
proof (cases "rm_done r")
  case False
  obtain r1 es1 a where "leave_step md c r = (r1, es1, a)" "same_core r1 r'"
    using Room_Leave_core [OF assms False] by blast
  then show ?thesis using False leave_step_members(1) [of md c r r1 es1 "fst a" "snd a"]
    by (simp add: members_core)
qed (use assms in \<open>auto simp: Room_Leave_done\<close>)

lemma Room_Leave_fields:
  assumes "Room_Leave md c r = (res, r', es)"
  shows "rm_id r' = rm_id r" "rm_config r' = rm_config r" "rm_isOpen r' = rm_isOpen r"
    "rm_onEmpty r' = rm_onEmpty r" "rm_done r' = rm_done r" "res = Val ()"
proof -
  have "rm_id r' = rm_id r \<and> rm_config r' = rm_config r \<and> rm_isOpen r' = rm_isOpen r \<and>
    rm_onEmpty r' = rm_onEmpty r \<and> rm_done r' = rm_done r"
  proof (cases "rm_done r")
    case False
    obtain r1 es1 a where "leave_step md c r = (r1, es1, a)" "same_core r1 r'"
      using Room_Leave_core [OF assms False] by blast
    then show ?thesis by (simp add: same_core_def leave_step_fields)
  qed (use assms in \<open>auto simp: Room_Leave_done\<close>)
  moreover have "res = Val ()"
    using assms by (auto simp: Room_Leave_def playerLeft_event_eq Let_def
        split: option.splits prod.splits bool.splits if_splits)
  ultimately show "rm_id r' = rm_id r" "rm_config r' = rm_config r" "rm_isOpen r' = rm_isOpen r"
    "rm_onEmpty r' = rm_onEmpty r" "rm_done r' = rm_done r" "res = Val ()" by auto
qed

lemma Room_Leave_wf:
  assumes "Room_Leave md c r = (res, r', es)" "room_wf r"
  shows "room_wf r'"
proof (cases "rm_done r")
  case False
  obtain r1 es1 a where "leave_step md c r = (r1, es1, a)" "same_core r1 r'"
    using Room_Leave_core [OF assms(1) False] by blast
  then show ?thesis using leave_step_wf [of md c r r1 es1 a] assms(2) by (simp add: room_wf_core)
qed (use assms in \<open>auto simp: Room_Leave_done\<close>)

section \<open>Messages, ticks, shutdown\<close>

lemma handle_step_core: "handle_step md ctx c op pl r = (r', es, res) \<Longrightarrow> same_core r r'"
  by (auto simp: handle_step_def dest: run_acts_core split: option.splits prod.splits)

lemma Room_HandleMessage_core: "Room_HandleMessage md ctx c op pl r = (res, r', es) \<Longrightarrow> same_core r r'"
  by (auto simp: Room_HandleMessage_def room_do_def dest: handle_step_core
      split: if_splits prod.splits option.splits)

lemma tick_step_core: "tick_step md dt r = (r', es) \<Longrightarrow> same_core r r'"
  by (auto simp: tick_step_def dest: safe_hook_core split: option.splits)

lemma exit_loop_core: "exit_loop md r = (r', es) \<Longrightarrow> same_core r r'"
  by (auto simp: exit_loop_def Let_def split: option.splits
      intro: same_core_trans [OF cancelEmptyRemoval_core safe_hook_core])

lemma Room_Shutdown_core:
  "Room_Shutdown md r = (r', es) \<Longrightarrow> same_core (r\<lparr>rm_done := True\<rparr>) r'"
  by (auto simp: Room_Shutdown_def dest: exit_loop_core split: if_splits) (simp add: same_core_def)

lemma Room_Shutdown_fields:
  assumes "Room_Shutdown md r = (r', es)"
  shows "rm_id r' = rm_id r" "rm_config r' = rm_config r" "rm_players r' = rm_players r" "rm_done r'"
  using Room_Shutdown_core [OF assms] by (auto simp: same_core_def)

section \<open>The contract of a room\<close>

text \<open>The calls the manager makes on a room, and a sequence of them.\<close>

datatype room_call =
    CJoin uint64 string
  | CReplace uint64 uint64 string
  | CLeave uint64
  | CMessage bool uint64 uint16 bytes
  | CShutdown

fun any_call ::
  "(uint64 \<Rightarrow> string \<Rightarrow> 'r \<Rightarrow> goerror option outcome \<times> 'r \<times> eff list) \<Rightarrow>
   (uint64 \<Rightarrow> uint64 \<Rightarrow> string \<Rightarrow> 'r \<Rightarrow> goerror option outcome \<times> 'r \<times> eff list) \<Rightarrow>
   (uint64 \<Rightarrow> 'r \<Rightarrow> unit outcome \<times> 'r \<times> eff list) \<Rightarrow>
   (bool \<Rightarrow> uint64 \<Rightarrow> uint16 \<Rightarrow> bytes \<Rightarrow> 'r \<Rightarrow> (goerror + marshaler) \<times> 'r \<times> eff list) \<Rightarrow>
   ('r \<Rightarrow> 'r \<times> eff list) \<Rightarrow> room_call \<Rightarrow> 'r \<Rightarrow> 'r" where
  "any_call join replace leave handle shutdown (CJoin c u) r = fst (snd (join c u r))"
| "any_call join replace leave handle shutdown (CReplace old c u) r = fst (snd (replace old c u r))"
| "any_call join replace leave handle shutdown (CLeave c) r = fst (snd (leave c r))"
| "any_call join replace leave handle shutdown (CMessage ctx c op pl) r = fst (snd (handle ctx c op pl r))"
| "any_call join replace leave handle shutdown CShutdown r = fst (shutdown r)"

text \<open>Who may be in the room after a call: only the clients the call names.\<close>

fun call_adds :: "room_call \<Rightarrow> uint64 set" where
  "call_adds (CJoin c u) = {c}"
| "call_adds (CReplace old c u) = {c}"
| "call_adds _ = {}"

locale any_room =
  fixes inv :: "'r \<Rightarrow> bool"
    and ident :: "'r \<Rightarrow> 'i"
    and mem :: "'r \<Rightarrow> uint64 set"
    and dead :: "'r \<Rightarrow> bool"
    and join :: "uint64 \<Rightarrow> string \<Rightarrow> 'r \<Rightarrow> goerror option outcome \<times> 'r \<times> eff list"
    and replace :: "uint64 \<Rightarrow> uint64 \<Rightarrow> string \<Rightarrow> 'r \<Rightarrow> goerror option outcome \<times> 'r \<times> eff list"
    and leave :: "uint64 \<Rightarrow> 'r \<Rightarrow> unit outcome \<times> 'r \<times> eff list"
    and handle :: "bool \<Rightarrow> uint64 \<Rightarrow> uint16 \<Rightarrow> bytes \<Rightarrow> 'r \<Rightarrow> (goerror + marshaler) \<times> 'r \<times> eff list"
    and shutdown :: "'r \<Rightarrow> 'r \<times> eff list"
  assumes join_inv: "join c u r = (a, r', es) \<Longrightarrow> inv r \<Longrightarrow> inv r'"
    and replace_inv: "replace old c u r = (a, r', es) \<Longrightarrow> inv r \<Longrightarrow> inv r'"
    and leave_inv: "leave c r = (b, r', es) \<Longrightarrow> inv r \<Longrightarrow> inv r'"
    and handle_inv: "handle ctx c op pl r = (h, r', es) \<Longrightarrow> inv r \<Longrightarrow> inv r'"
    and shutdown_inv: "shutdown r = (r', es) \<Longrightarrow> inv r \<Longrightarrow> inv r'"
    and join_ident: "join c u r = (a, r', es) \<Longrightarrow> ident r' = ident r \<and> dead r' = dead r"
    and replace_ident: "replace old c u r = (a, r', es) \<Longrightarrow> ident r' = ident r \<and> dead r' = dead r"
    and leave_ident: "leave c r = (b, r', es) \<Longrightarrow> ident r' = ident r \<and> dead r' = dead r"
    and handle_ident: "handle ctx c op pl r = (h, r', es) \<Longrightarrow> ident r' = ident r \<and> dead r' = dead r"
    and shutdown_ident: "shutdown r = (r', es) \<Longrightarrow> ident r' = ident r \<and> dead r'"
    and join_mem: "join c u r = (a, r', es) \<Longrightarrow> mem r \<subseteq> mem r' \<and> mem r' \<subseteq> insert c (mem r)"
    and join_ok: "join c u r = (a, r', es) \<Longrightarrow> (\<And>e. a \<noteq> Val (Some e)) \<Longrightarrow> c \<in> mem r' \<and> \<not> dead r"
    and join_error: "join c u r = (Val (Some e), r', es) \<Longrightarrow> r' = r \<and> es = []"
    and join_dead: "dead r \<Longrightarrow> join c u r = (Val (Some ErrRoomClosed), r, [])"
    and replace_mem: "replace old c u r = (a, r', es) \<Longrightarrow>
      mem r - {old} \<subseteq> mem r' \<and> mem r' \<subseteq> insert c (mem r)"
    and replace_dead: "dead r \<Longrightarrow> replace old c u r = (Val (Some ErrRoomClosed), r, [])"
    and leave_mem: "leave c r = (b, r', es) \<Longrightarrow> mem r' = (if dead r then mem r else mem r - {c})"
    and leave_returns: "leave c r = (b, r', es) \<Longrightarrow> b = Val ()"
    and handle_mem: "handle ctx c op pl r = (h, r', es) \<Longrightarrow> mem r' = mem r"
    and handle_dead: "dead r \<Longrightarrow> handle ctx c op pl r = (Inl ErrRoomClosed, r, [])"
    and shutdown_mem: "shutdown r = (r', es) \<Longrightarrow> mem r' = mem r"
begin

lemmas inv_rules = join_inv replace_inv leave_inv handle_inv shutdown_inv
lemmas ident_rules = join_ident replace_ident leave_ident handle_ident shutdown_ident
lemmas mem_rules = join_mem replace_mem leave_mem handle_mem shutdown_mem

lemma call_inv: "inv r \<Longrightarrow> inv (any_call join replace leave handle shutdown x r)"
  by (cases x) (auto intro: inv_rules [OF surjective_pairing [THEN trans]] simp: prod_eq_iff)

lemma calls_inv: "inv r \<Longrightarrow> inv (fold (any_call join replace leave handle shutdown) xs r)"
  by (induction xs arbitrary: r) (auto simp: call_inv)

lemma call_ident: "ident (any_call join replace leave handle shutdown x r) = ident r"
proof (cases x)
  case (CJoin c u)
  then show ?thesis by (cases "join c u r") (auto dest: join_ident)
next
  case (CReplace old c u)
  then show ?thesis by (cases "replace old c u r") (auto dest: replace_ident)
next
  case (CLeave c)
  then show ?thesis by (cases "leave c r") (auto dest: leave_ident)
next
  case (CMessage ctx c op pl)
  then show ?thesis by (cases "handle ctx c op pl r") (auto dest: handle_ident)
next
  case CShutdown
  then show ?thesis by (cases "shutdown r") (auto dest: shutdown_ident)
qed

lemma calls_ident: "ident (fold (any_call join replace leave handle shutdown) xs r) = ident r"
  by (induction xs arbitrary: r) (auto simp: call_ident)

lemma call_mem:
  "mem (any_call join replace leave handle shutdown x r) \<subseteq> mem r \<union> call_adds x"
proof (cases x)
  case (CJoin c u)
  then show ?thesis by (cases "join c u r") (auto dest: join_mem)
next
  case (CReplace old c u)
  then show ?thesis by (cases "replace old c u r") (auto dest: replace_mem)
next
  case (CLeave c)
  then show ?thesis by (cases "leave c r") (auto dest: leave_mem split: if_splits)
next
  case (CMessage ctx c op pl)
  then show ?thesis by (cases "handle ctx c op pl r") (auto dest: handle_mem)
next
  case CShutdown
  then show ?thesis by (cases "shutdown r") (auto dest: shutdown_mem)
qed

text \<open>Nobody is in a room who did not join it.\<close>

lemma calls_mem:
  "mem (fold (any_call join replace leave handle shutdown) xs r) \<subseteq> mem r \<union> (\<Union>x\<in>set xs. call_adds x)"
proof (induction xs arbitrary: r)
  case (Cons x xs)
  show ?case using Cons [of "any_call join replace leave handle shutdown x r"] call_mem [of x r]
    by auto
qed simp

lemma join_leave:
  assumes "join c u r = (Val None, r1, es1)" "leave c r1 = (b, r2, es2)"
  shows "mem r2 = mem r - {c}"
  using join_mem [OF assms(1)] join_ok [OF assms(1)] join_ident [OF assms(1)] leave_mem [OF assms(2)]
  by simp blast

text \<open>A shut-down room refuses every request and its members never change again.\<close>

lemma call_dead: "dead r \<Longrightarrow> dead (any_call join replace leave handle shutdown x r) \<and>
    mem (any_call join replace leave handle shutdown x r) = mem r"
proof (cases x)
  case (CLeave c)
  then show "dead r \<Longrightarrow> ?thesis" by (cases "leave c r") (auto dest: leave_mem leave_ident)
next
  case CShutdown
  then show "dead r \<Longrightarrow> ?thesis" by (cases "shutdown r") (auto dest: shutdown_mem shutdown_ident)
qed (auto simp: join_dead replace_dead handle_dead)

lemma calls_dead: "dead r \<Longrightarrow> dead (fold (any_call join replace leave handle shutdown) xs r) \<and>
    mem (fold (any_call join replace leave handle shutdown) xs r) = mem r"
  by (induction xs arbitrary: r) (auto simp: call_dead)

end

lemma Room_Join_fields:
  assumes "Room_Join md now c u r = (a, r', es)"
  shows "rm_id r' = rm_id r \<and> rm_config r' = rm_config r \<and> rm_isOpen r' = rm_isOpen r \<and>
    rm_onEmpty r' = rm_onEmpty r \<and> rm_done r' = rm_done r \<and>
    members r \<subseteq> members r' \<and> members r' \<subseteq> insert c (members r)"
proof (cases "rm_done r")
  case True
  with assms show ?thesis by (auto simp: Room_Join_done)
next
  case False
  from Room_Join_step [OF assms False] obtain es0 err joined
    where "join_step md now c u r = (r', es0, (err, joined))" by metis
  from join_step_players [OF this] show ?thesis by (auto simp: members_def split: if_splits)
qed

lemma Room_Join_accepted:
  assumes "Room_Join md now c u r = (a, r', es)" "\<And>e. a \<noteq> Val (Some e)"
  shows "c \<in> members r' \<and> \<not> rm_done r"
proof -
  have nd: "\<not> rm_done r"
    using assms(1) assms(2) [of ErrRoomClosed] Room_Join_done [of r md now c u] by auto
  from Room_Join_step [OF assms(1) nd] obtain es0 err joined
    where st: "join_step md now c u r = (r', es0, (err, joined))" and e: "err \<noteq> None \<Longrightarrow> a = Val err"
    by metis
  have "err = None" using e assms(2) by (cases err) auto
  with join_step_players(2) [OF st] nd show ?thesis by (simp add: hasPlayer_members)
qed

lemma Room_HandleMessage_done: "rm_done r \<Longrightarrow> Room_HandleMessage md ctx c op pl r = (Inl ErrRoomClosed, r, [])"
  by (simp add: Room_HandleMessage_def room_do_def)

interpretation ar: any_room room_wf "\<lambda>r. (rm_id r, rm_config r, rm_onEmpty r)" members rm_done
    "Room_Join md now" "Room_JoinReplace md now" "Room_Leave md" "Room_HandleMessage md" "Room_Shutdown md"
    for md :: "'s Module" and now :: int
proof unfold_locales
  fix c u and r r' :: "'s Room" and es a
  assume "Room_Join md now c u r = (a, r', es)" "\<And>e. a \<noteq> Val (Some e)"
  then show "c \<in> members r' \<and> \<not> rm_done r" by (rule Room_Join_accepted)
next
  fix c u and r r' :: "'s Room" and es e
  assume "Room_Join md now c u r = (Val (Some e), r', es)"
  then show "r' = r \<and> es = []" using Room_Join_error by blast
next
  fix r r' :: "'s Room" and es
  assume "Room_Shutdown md r = (r', es)"
  note s = Room_Shutdown_core [OF this]
  show "room_wf r \<Longrightarrow> room_wf r'" using s by (simp add: room_wf_def same_core_def)
  show "(rm_id r', rm_config r', rm_onEmpty r') = (rm_id r, rm_config r, rm_onEmpty r) \<and> rm_done r'"
    using s by (simp add: same_core_def)
  show "members r' = members r" using s by (simp add: members_def same_core_def)
qed (auto simp: Room_Join_done Room_JoinReplace_done Room_HandleMessage_done room_wf_core members_core
     dest: Room_Join_wf Room_JoinReplace_wf Room_Leave_wf Room_HandleMessage_core
       Room_JoinReplace_fields Room_Leave_fields Room_Leave_members Room_Join_fields Room_Join_ok same_coreD)

end
