(* ===== verification/Room_Steps.thy ===== *)
theory Room_Steps
  imports Room_Contract
begin

text \<open>
  A room among concurrent callers. The actor runs one closure at a time, but \<open>Leave\<close> submits two
  closures and other callers' closures may run in between; a timer's function submits its own; and
  \<open>go r.onEmpty\<close> starts a goroutine that calls \<open>Manager.Remove\<close> at some later moment. A state of this
  system is the room with the number of pending continuations of each kind, and a step is one
  closure, one expiry or one removal. Every interleaving of the callers is a sequence of steps.
\<close>

section \<open>The step relation\<close>

record 's rsys =
  sy_room :: "'s Room"
  sy_leaving :: nat \<comment> \<open>callers of \<open>Leave\<close> before their second closure\<close>
  sy_fired :: nat \<comment> \<open>expired timers before their closure\<close>
  sy_removals :: nat \<comment> \<open>goroutines running \<open>onEmpty\<close>\<close>
  sy_used :: bool \<comment> \<open>a player was in the room at some time\<close>

fun is_removal :: "eff \<Rightarrow> bool" where
  "is_removal (GoOnEmpty i) = True"
| "is_removal _ = False"

definition removals :: "eff list \<Rightarrow> nat" where
  "removals es = length (filter is_removal es)"

text \<open>The state after a closure that left the room \<open>r\<close> and the effects \<open>es\<close>.\<close>

definition ran_closure :: "'s rsys \<Rightarrow> 's Room \<Rightarrow> eff list \<Rightarrow> 's rsys" where
  "ran_closure s r es = s\<lparr>sy_room := r, sy_removals := sy_removals s + removals es,
     sy_used := (sy_used s \<or> rm_players r \<noteq> [])\<rparr>"

inductive room_step :: "'s Module \<Rightarrow> 's rsys \<Rightarrow> 's rsys \<Rightarrow> bool" for md where
  join: "\<lbrakk>\<not> rm_done (sy_room s); join_step md now c u (sy_room s) = (r, es, a)\<rbrakk>
    \<Longrightarrow> room_step md s (ran_closure s r es)"
| replace: "\<lbrakk>\<not> rm_done (sy_room s); joinReplace_step md now old c u (sy_room s) = (r, es, (err, e));
      n = (if err \<noteq> None \<and> e \<and> rm_onEmpty r then 1 else 0)\<rbrakk>
    \<Longrightarrow> room_step md s ((ran_closure s r es)\<lparr>sy_removals := sy_removals s + removals es + n\<rparr>)"
| leave: "\<lbrakk>\<not> rm_done (sy_room s); leave_step md c (sy_room s) = (r, es, (existed, e));
      n = (if existed \<and> e \<and> rm_onEmpty r then 1 else 0)\<rbrakk>
    \<Longrightarrow> room_step md s ((ran_closure s r es)\<lparr>sy_leaving := sy_leaving s + n\<rparr>)"
| schedule: "\<lbrakk>\<not> rm_done (sy_room s); sy_leaving s = Suc n; schedule_step (sy_room s) = (r, es, a)\<rbrakk>
    \<Longrightarrow> room_step md s ((ran_closure s r es)\<lparr>sy_leaving := n\<rparr>)"
| schedule_dead: "\<lbrakk>rm_done (sy_room s); sy_leaving s = Suc n\<rbrakk>
    \<Longrightarrow> room_step md s (s\<lparr>sy_leaving := n\<rparr>)"
| expire: "\<lbrakk>rm_emptyTimer (sy_room s) = Some Armed\<rbrakk>
    \<Longrightarrow> room_step md s (s\<lparr>sy_room := (sy_room s)\<lparr>rm_emptyTimer := Some Fired\<rparr>,
          sy_fired := Suc (sy_fired s)\<rparr>)"
| check: "\<lbrakk>\<not> rm_done (sy_room s); sy_fired s = Suc n; timer_check (sy_room s) = (r, es)\<rbrakk>
    \<Longrightarrow> room_step md s ((ran_closure s r es)\<lparr>sy_fired := n\<rparr>)"
| check_dead: "\<lbrakk>rm_done (sy_room s); sy_fired s = Suc n\<rbrakk>
    \<Longrightarrow> room_step md s (s\<lparr>sy_fired := n\<rparr>)"
| message: "\<lbrakk>\<not> rm_done (sy_room s); handle_step md ctx c op pl (sy_room s) = (r, es, a)\<rbrakk>
    \<Longrightarrow> room_step md s (ran_closure s r es)"
| tick: "\<lbrakk>\<not> rm_done (sy_room s); has_ticker md; tick_step md dt (sy_room s) = (r, es)\<rbrakk>
    \<Longrightarrow> room_step md s (ran_closure s r es)"
| close: "\<not> rm_done (sy_room s) \<Longrightarrow> room_step md s (s\<lparr>sy_room := Room_Close (sy_room s)\<rparr>)"
| reopen: "\<not> rm_done (sy_room s) \<Longrightarrow> room_step md s (s\<lparr>sy_room := Room_Open (sy_room s)\<rparr>)"
| remove: "\<lbrakk>sy_removals s = Suc n; Room_Shutdown md (sy_room s) = (r, es)\<rbrakk>
    \<Longrightarrow> room_step md s (s\<lparr>sy_room := r, sy_removals := n + removals es\<rparr>)"
| shutdown: "Room_Shutdown md (sy_room s) = (r, es)
    \<Longrightarrow> room_step md s (s\<lparr>sy_room := r, sy_removals := sy_removals s + removals es\<rparr>)"

text \<open>The room as \<open>Manager.Create\<close> hands it out.\<close>

definition created :: "string \<Rightarrow> RoomConfig \<Rightarrow> 's Module \<Rightarrow> 's rsys" where
  "created uuid config md =
     (case newRoom uuid config md of (r, es) \<Rightarrow>
        \<lparr>sy_room = Room_setOnEmpty r, sy_leaving = 0, sy_fired = 0, sy_removals = removals es,
         sy_used = False\<rparr>)"

inductive room_reach :: "'s Module \<Rightarrow> 's rsys \<Rightarrow> 's rsys \<Rightarrow> bool" for md s0 where
  start: "room_reach md s0 s0"
| more: "\<lbrakk>room_reach md s0 s; room_step md s s'\<rbrakk> \<Longrightarrow> room_reach md s0 s'"

inductive_cases room_stepE: "room_step md s s'"

lemma ran_closure_simps [simp]:
  "sy_room (ran_closure s r es) = r" "sy_leaving (ran_closure s r es) = sy_leaving s"
  "sy_fired (ran_closure s r es) = sy_fired s"
  "sy_removals (ran_closure s r es) = sy_removals s + removals es"
  "sy_used (ran_closure s r es) \<longleftrightarrow> sy_used s \<or> rm_players r \<noteq> []"
  by (simp_all add: ran_closure_def)

lemma removals_simps [simp]:
  "removals [] = 0" "removals (e # es) = (if is_removal e then Suc (removals es) else removals es)"
  "removals (es @ es') = removals es + removals es'"
  by (simp_all add: removals_def)

section \<open>Capacity under every interleaving\<close>

lemma Room_Close_eq: "\<not> rm_done r \<Longrightarrow> Room_Close r = r\<lparr>rm_isOpen := False\<rparr>"
  and Room_Open_eq: "\<not> rm_done r \<Longrightarrow> Room_Open r = r\<lparr>rm_isOpen := True\<rparr>"
  by (simp_all add: Room_Close_def Room_Open_def room_do_def)

lemma timer_check_core: "timer_check r = (r', es) \<Longrightarrow> same_core r r'"
  by (auto simp: timer_check_def split: if_splits)

lemma join_step_fields:
  assumes "join_step md now c u r = (r', es, a)"
  shows "rm_id r' = rm_id r" "rm_config r' = rm_config r" "rm_onEmpty r' = rm_onEmpty r"
  using join_step_players [of md now c u r r' es "fst a" "snd a"] assms by auto

lemma schedule_step_core: "schedule_step r = (r', es, a) \<Longrightarrow> same_core r r'"
  by (auto simp: schedule_step_def dest: schedule_core split: prod.splits)

lemma room_step_wf: "room_step md s s' \<Longrightarrow> room_wf (sy_room s) \<Longrightarrow> room_wf (sy_room s')"
proof (induction rule: room_step.induct)
  case (schedule s n r es a)
  then show ?case by (simp add: room_wf_core [OF schedule_step_core])
next
  case (message s ctx c op pl r es a)
  then show ?case by (simp add: room_wf_core [OF handle_step_core])
next
  case (tick s dt r es)
  then show ?case by (simp add: room_wf_core [OF tick_step_core])
next
  case (check s n r es)
  then show ?case by (simp add: room_wf_core [OF timer_check_core])
qed (simp_all add: join_step_wf joinReplace_step_wf leave_step_wf Room_Close_eq Room_Open_eq
      ar.shutdown_inv, simp_all add: room_wf_def)

lemma created_wf: "room_wf (sy_room (created uuid config md))"
proof -
  obtain r es where n: "newRoom uuid config md = (r, es)" by (cases "newRoom uuid config md")
  have "room_wf r" by (rule newRoom_wf [OF n])
  then show ?thesis by (simp add: created_def n Room_setOnEmpty_def room_wf_def)
qed

lemma room_reach_wf: "room_reach md (created uuid config md) s \<Longrightarrow> room_wf (sy_room s)"
  by (induction rule: room_reach.induct) (auto simp: created_wf dest: room_step_wf)

lemma room_step_config: "room_step md s s' \<Longrightarrow>
    rm_id (sy_room s') = rm_id (sy_room s) \<and> rm_config (sy_room s') = rm_config (sy_room s) \<and>
    rm_onEmpty (sy_room s') = rm_onEmpty (sy_room s)"
  by (induction rule: room_step.induct)
     (simp_all add: join_step_fields joinReplace_step_fields leave_step_fields
      same_coreD [OF timer_check_core] Room_Close_eq Room_Open_eq same_coreD [OF schedule_step_core] same_coreD [OF handle_step_core]
      same_coreD [OF tick_step_core] same_coreD(1,2,3,4,5) [OF Room_Shutdown_core])

lemma created_fields:
  "rm_id (sy_room (created uuid config md)) = rc_Name config @ ''_'' @ uuid"
  "rm_config (sy_room (created uuid config md)) = config"
  "rm_onEmpty (sy_room (created uuid config md))"
  "rm_players (sy_room (created uuid config md)) = []"
  "\<not> sy_used (created uuid config md)"
  by (cases "newRoom uuid config md"; simp add: created_def Room_setOnEmpty_def newRoom_core)+

lemma room_reach_config:
  assumes "room_reach md (created uuid config md) s"
  shows "rm_id (sy_room s) = rc_Name config @ ''_'' @ uuid" "rm_config (sy_room s) = config"
    "rm_onEmpty (sy_room s)"
proof -
  have "rm_id (sy_room s) = rc_Name config @ ''_'' @ uuid \<and> rm_config (sy_room s) = config \<and>
      rm_onEmpty (sy_room s)"
    using assms by (induction rule: room_reach.induct) (auto simp: created_fields dest: room_step_config)
  then show "rm_id (sy_room s) = rc_Name config @ ''_'' @ uuid" "rm_config (sy_room s) = config"
    "rm_onEmpty (sy_room s)" by auto
qed

section \<open>When a removal may start\<close>

lemma removals_sends: "removals (map (\<lambda>p. Pub (f p) (g p)) ps) = 0"
  by (induction ps) auto

lemma broadcast_loop_removals: "removals (fst (broadcast_loop op fn ps)) = 0"
  by (induction op fn ps rule: broadcast_loop.induct)
     (auto split: outcome.splits prod.splits)

lemma sends_removals [simp]:
  "removals (fst (Room_Broadcast op m r)) = 0" "removals (fst (Room_BroadcastBytes op pl r)) = 0"
  "removals (fst (Room_Send p op m r)) = 0" "removals (fst (Room_SendTo us op m r)) = 0"
  "removals (fst (Room_BroadcastExcept us op m r)) = 0" "removals (fst (Room_BroadcastFunc op fn r)) = 0"
  by (simp_all add: Room_Broadcast_def Room_BroadcastBytes_def Room_Send_def Room_SendTo_def
      sendToUserIDs_def Room_BroadcastExcept_def Room_BroadcastFunc_def broadcast_loop_removals
      removals_sends Let_def split: outcome.splits)

text \<open>With a positive grace nothing but an expired timer starts a removal.\<close>

lemma schedule_grace:
  "rc_EmptyGrace (rm_config r) > 0 \<Longrightarrow> scheduleEmptyRemoval r = (r', es) \<Longrightarrow> es = []"
  by (auto simp: scheduleEmptyRemoval_def cancelEmptyRemoval_eq Let_def split: if_splits)

lemma run_act_grace:
  "rc_EmptyGrace (rm_config r) > 0 \<Longrightarrow> run_act a r = (r', es, pan) \<Longrightarrow> removals es = 0"
proof (cases a)
  case (ASetKeepOnEmpty k)
  assume "rc_EmptyGrace (rm_config r) > 0" "run_act a r = (r', es, pan)"
  with ASetKeepOnEmpty show ?thesis
    by (auto simp: SetKeepOnEmpty_def Let_def dest!: schedule_grace [rotated]
        split: prod.splits if_splits)
qed (metis fst_conv snd_conv run_act.simps sends_removals removals_simps(1))+

lemma run_acts_grace:
  "rc_EmptyGrace (rm_config r) > 0 \<Longrightarrow> run_acts as r = (r', es, pan) \<Longrightarrow> removals es = 0"
proof (induction as arbitrary: r es)
  case (Cons a as)
  obtain r1 es1 pan1 where a: "run_act a r = (r1, es1, pan1)" by (metis prod_cases3)
  have "rm_config r1 = rm_config r" using run_act_core [OF a] by (simp add: same_core_def)
  then have "\<And>es2. run_acts as r1 = (r', es2, pan) \<Longrightarrow> removals es2 = 0"
    using Cons.IH [of r1] Cons.prems(1) by simp
  with Cons.prems(2) run_act_grace [OF Cons.prems(1) a] a show ?case
    by (auto split: option.splits prod.splits)
qed simp

lemma player_hook_grace:
  "rc_EmptyGrace (rm_config r) > 0 \<Longrightarrow> player_hook h p r = (r', es, pan) \<Longrightarrow> removals es = 0"
  by (auto simp: player_hook_def dest: run_acts_grace split: option.splits)

lemma safe_hook_grace:
  "rc_EmptyGrace (rm_config r) > 0 \<Longrightarrow> safe_hook as r = (r', es) \<Longrightarrow> removals es = 0"
  by (auto simp: safe_hook_def dest: run_acts_grace split: prod.splits)

lemma drop_old_grace:
  "rc_EmptyGrace (rm_config r) > 0 \<Longrightarrow> drop_old md c r = (r', es, pan) \<Longrightarrow> removals es = 0"
  by (auto simp: drop_old_def dest: player_hook_grace [rotated] split: option.splits)

lemma joinReplace_grace:
  assumes "rc_EmptyGrace (rm_config r) > 0" "joinReplace_step md now old c u r = (r', es, a)"
  shows "removals es = 0"
proof -
  obtain r1 es1 pan1 where d: "drop_old md old r = (r1, es1, pan1)" by (metis prod_cases3)
  have "removals es1 = 0" by (rule drop_old_grace [OF assms(1) d])
  moreover have "rm_config r1 = rm_config r" by (rule drop_old_fields(2) [OF d])
  ultimately show ?thesis using assms d
    by (auto simp: joinReplace_step_cases dest!: player_hook_grace [rotated]
        split: if_splits prod.splits)
qed

lemma closures_grace:
  assumes "rc_EmptyGrace (rm_config r) > 0"
  shows "join_step md now c u r = (r', es, a) \<Longrightarrow> removals es = 0"
    and "leave_step md c r = (r', es, b) \<Longrightarrow> removals es = 0"
    and "handle_step md ctx c op pl r = (r', es, h) \<Longrightarrow> removals es = 0"
    and "tick_step md dt r = (r', es) \<Longrightarrow> removals es = 0"
    and "Room_Shutdown md r = (r', es) \<Longrightarrow> removals es = 0"
  using assms
  by (auto simp: join_step_cases leave_step_drop handle_step_def tick_step_def
      Room_Shutdown_def exit_loop_def cancelEmptyRemoval_eq Let_def
      dest: player_hook_grace [rotated] drop_old_grace [rotated] run_acts_grace [rotated]
        safe_hook_grace [rotated]
      split: if_splits prod.splits option.splits)

text \<open>A step that starts a removal of a room with a grace is the check of an expired timer.\<close>

lemma removal_start_grace:
  assumes "room_step md s s'" "sy_removals s < sy_removals s'" "room_wf (sy_room s)"
    "rc_EmptyGrace (rm_config (sy_room s)) > 0"
  shows "sy_room s' = sy_room s \<and> rm_players (sy_room s) = [] \<and> \<not> rm_keepOnEmpty (sy_room s) \<and>
    sy_fired s = Suc (sy_fired s')"
  using assms
proof (induction rule: room_step.induct)
  case (replace s now old c u r es err e n)
  then have "removals es = 0" "\<not> e"
    by (auto dest: joinReplace_grace joinReplace_never_empties)
  with replace show ?case by simp
next
  case (schedule s n r es a)
  then have "es = []" by (auto simp: schedule_step_def dest: schedule_grace split: prod.splits)
  with schedule show ?case by simp
next
  case (check s n r es)
  then show ?case by (auto simp: timer_check_def split: if_splits)
qed (auto simp: closures_grace)

section \<open>An emptied room is not forgotten\<close>

text \<open>
  \<open>settled\<close>: the room has players, or is kept, or its removal is armed, or one of the effects \<open>es\<close>
  is its removal.
\<close>

definition settled :: "'s Room \<Rightarrow> eff list \<Rightarrow> bool" where
  "settled r es \<longleftrightarrow> rm_players r \<noteq> [] \<or> rm_keepOnEmpty r \<or> rm_emptyTimer r = Some Armed \<or> 0 < removals es"

lemma settled_append: "settled r es \<Longrightarrow> settled r (es @ es')" "settled r es' \<Longrightarrow> settled r (es @ es')"
  by (auto simp: settled_def)

lemma schedule_settled: "scheduleEmptyRemoval r = (r', es) \<Longrightarrow> rm_onEmpty r \<Longrightarrow> settled r' es"
  by (auto simp: scheduleEmptyRemoval_def settled_def cancelEmptyRemoval_eq go_onEmpty_def Let_def
      split: if_splits)

lemma SetKeep_settled:
  assumes "SetKeepOnEmpty k r = (r', es')" "rm_onEmpty r" "settled r es"
  shows "settled r' (es @ es')"
proof (cases "\<not> k \<and> rm_keepOnEmpty r \<and> rm_players r = []")
  case True
  then have "scheduleEmptyRemoval (r\<lparr>rm_keepOnEmpty := k\<rparr>) = (r', es')"
    using assms(1) by (simp add: SetKeepOnEmpty_def)
  then show ?thesis using assms(2) by (auto intro!: settled_append(2) schedule_settled)
qed (use assms in \<open>auto simp: SetKeepOnEmpty_def settled_def cancelEmptyRemoval_eq Let_def split: if_splits\<close>)

lemma run_act_settled:
  assumes "run_act a r = (r', es', pan)" "rm_onEmpty r" "settled r es"
  shows "settled r' (es @ es')"
proof (cases a)
  case (ASetKeepOnEmpty k)
  with assms show ?thesis by (auto intro: SetKeep_settled split: prod.splits)
next
  case (ASetState x)
  with assms show ?thesis by (auto simp: settled_def)
qed (use assms in \<open>auto intro: settled_append(1)\<close>)

lemma run_acts_settled:
  "run_acts as r = (r', es', pan) \<Longrightarrow> rm_onEmpty r \<Longrightarrow> settled r es \<Longrightarrow> settled r' (es @ es')"
proof (induction as arbitrary: r es es')
  case (Cons a as)
  obtain r1 es1 pan1 where a: "run_act a r = (r1, es1, pan1)" by (metis prod_cases3)
  have s1: "settled r1 (es @ es1)" by (rule run_act_settled [OF a Cons.prems(2,3)])
  have o1: "rm_onEmpty r1" using Cons.prems(2) run_act_core [OF a] by (simp add: same_core_def)
  show ?case
  proof (cases pan1)
    case None
    with Cons.prems(1) a obtain es2 where r: "run_acts as r1 = (r', es2, pan)" and e: "es' = es1 @ es2"
      by (auto split: prod.splits)
    from Cons.IH [OF r o1 s1] e show ?thesis by simp
  next
    case (Some x)
    with Cons.prems(1) a s1 show ?thesis by simp
  qed
qed simp

text \<open>
  The invariant: once used, a live room is settled or somebody is still to look at it. Only a
  panicking \<open>OnLeave\<close> can break it, since the panic skips the code that schedules the removal.
\<close>

definition quiet_leave :: "'s Module \<Rightarrow> bool" where
  "quiet_leave md \<longleftrightarrow>
     (\<forall>f r p. md_onLeave md = Some f \<longrightarrow> snd (snd (run_acts (f r p) r)) = None)"

definition watched :: "'s rsys \<Rightarrow> bool" where
  "watched s \<longleftrightarrow> (sy_used s \<and> \<not> rm_done (sy_room s) \<longrightarrow>
     0 < sy_leaving s \<or> 0 < sy_fired s \<or> 0 < sy_removals s \<or> settled (sy_room s) [])"

lemma settled_removals: "settled r es \<Longrightarrow> removals es = 0 \<Longrightarrow> settled r []"
  by (simp add: settled_def)

lemma watched_hook:
  assumes "watched s" "same_core (sy_room s) r" "settled (sy_room s) [] \<Longrightarrow> settled r es"
  shows "watched (ran_closure s r es)"
  using assms by (cases "removals es") (auto simp: watched_def settled_def same_core_def)

lemma quiet_drop:
  assumes "quiet_leave md" "drop_old md c r = (r', es, pan)"
  shows "pan = None"
  using assms
  by (auto simp: quiet_leave_def drop_old_def player_hook_def split: option.splits)
     (metis snd_conv option.distinct(1))

lemma handle_settled:
  "handle_step md ctx c op pl r = (r', es, a) \<Longrightarrow> rm_onEmpty r \<Longrightarrow> settled r [] \<Longrightarrow> settled r' es"
  by (auto simp: handle_step_def split: option.splits prod.splits
      dest: run_acts_settled [where es = "[]"])

lemma tick_settled:
  "tick_step md dt r = (r', es) \<Longrightarrow> rm_onEmpty r \<Longrightarrow> settled r [] \<Longrightarrow> settled r' es"
  by (auto simp: tick_step_def safe_hook_def split: option.splits prod.splits
      dest: run_acts_settled [where es = "[]"])

lemma members_empty: "members r = {} \<longleftrightarrow> rm_players r = []"
  using mlen_0_get [of "rm_players r"] by (auto simp: members_def)

lemma join_watched:
  assumes "join_step md now c u (sy_room s) = (r, es, a)" "watched s"
  shows "watched (ran_closure s r es)"
proof (cases "a = (None, True)")
  case True
  then have "hasPlayer c r" using join_step_players(2) [of md now c u "sy_room s" r es] assms(1) by simp
  then have "rm_players r \<noteq> []" by (auto simp: hasPlayer_def)
  then show ?thesis by (simp add: watched_def settled_def)
next
  case False
  with assms(1) have "r = sy_room s" "es = []"
    by (auto simp: join_step_cases split: if_splits prod.splits)
  then show ?thesis using assms(2) by (auto simp: watched_def settled_def)
qed

lemma replace_players:
  assumes "joinReplace_step md now old c u r = (r', es, (err, e))" "room_wf r" "quiet_leave md"
  shows "r' = r \<and> es = [] \<or> rm_players r' \<noteq> []"
proof (cases "rm_isOpen r")
  case True
  obtain r1 es1 pan1 where d: "drop_old md old r = (r1, es1, pan1)" by (metis prod_cases3)
  have p: "pan1 = None" by (rule quiet_drop [OF assms(3) d])
  have "room_wf r1" by (rule drop_old_wf [OF d assms(2)])
  then have "at_capacity r1 \<Longrightarrow> rm_players r1 \<noteq> []"
    by (auto simp: at_capacity_iff unat_eq_zero)
  then show ?thesis using True assms(1) d p
    by (auto simp: joinReplace_step_cases members_empty [symmetric] add_player_hook
        split: if_splits prod.splits)
qed (use assms in \<open>auto simp: joinReplace_step_cases\<close>)

lemma leave_watched:
  assumes "leave_step md c (sy_room s) = (r, es, (existed, e))" "watched s" "quiet_leave md"
    "rm_onEmpty (sy_room s)"
  shows "watched ((ran_closure s r es)\<lparr>sy_leaving := sy_leaving s +
    (if existed \<and> e \<and> rm_onEmpty r then 1 else 0)\<rparr>)"
proof (cases existed)
  case True
  have "rm_onEmpty r" using leave_step_fields(4) [OF assms(1)] assms(4) by simp
  moreover have "e \<longleftrightarrow> rm_players r = []"
    using assms(1) True by (auto simp: leave_step_drop split: if_splits prod.splits
        dest: quiet_drop [OF assms(3)])
  ultimately show ?thesis using True by (simp add: watched_def settled_def)
next
  case False
  with leave_step_members(3) [OF assms(1)] have "r = sy_room s" "es = []" by auto
  then show ?thesis using False assms(2) by (auto simp: watched_def settled_def)
qed

lemma room_step_watched:
  "room_step md s s' \<Longrightarrow> watched s \<Longrightarrow> room_wf (sy_room s) \<Longrightarrow> rm_onEmpty (sy_room s) \<Longrightarrow>
   quiet_leave md \<Longrightarrow> watched s'"
proof (induction rule: room_step.induct)
  case (join s now c u r es a)
  then show ?case using join_watched by blast
next
  case (replace s now old c u r es err e n)
  from replace_players [OF replace.hyps(2) replace.prems(2,4)] replace.prems(1) show ?case
    by (auto simp: watched_def settled_def)
next
  case (leave s c r es existed e n)
  then show ?case using leave_watched by blast
next
  case (schedule s n r es a)
  then have "settled r es"
    by (auto simp: schedule_step_def dest: schedule_settled split: prod.splits)
  then show ?case by (cases "removals es") (auto simp: watched_def settled_def)
next
  case (expire s)
  then show ?case by (simp add: watched_def)
next
  case (check s n r es)
  then show ?case
    by (auto simp: timer_check_def watched_def settled_def go_onEmpty_def split: if_splits)
next
  case (message s ctx c op pl r es a)
  then show ?case by (auto intro: watched_hook handle_step_core handle_settled)
next
  case (tick s dt r es)
  then show ?case by (auto intro: watched_hook tick_step_core tick_settled)
next
  case (remove s n r es)
  then show ?case using Room_Shutdown_fields(4) [OF remove.hyps(2)] by (simp add: watched_def)
next
  case (shutdown s r es)
  then show ?case using Room_Shutdown_fields(4) [OF shutdown.hyps] by (simp add: watched_def)
qed (auto simp: watched_def settled_def Room_Close_eq Room_Open_eq)

lemma room_reach_watched:
  assumes "room_reach md (created uuid config md) s" "quiet_leave md"
  shows "watched s"
  using assms
proof (induction rule: room_reach.induct)
  case start
  then show ?case by (simp add: watched_def created_fields)
next
  case (more s s')
  then show ?case
    using room_reach_wf room_reach_config(3) by (blast intro: room_step_watched)
qed

section \<open>Two executions\<close>

text \<open>A room of a plain module without grace, and one of a module whose \<open>OnLeave\<close> panics.\<close>

definition demo_config :: RoomConfig where
  "demo_config = RoomConfig_zero\<lparr>rc_Name := ''r''\<rparr>"

definition demo_room :: "(uint64, Player) gomap \<Rightarrow> bool \<Rightarrow> unit Room" where
  "demo_room ps d = \<lparr>rm_id = ''r_x'', rm_config = demo_config, rm_State = (), rm_players = ps,
     rm_isOpen = True, rm_emptyTimer = None, rm_keepOnEmpty = False, rm_onEmpty = True, rm_done = d\<rparr>"

definition demo_sys :: "(uint64, Player) gomap \<Rightarrow> bool \<Rightarrow> nat \<Rightarrow> nat \<Rightarrow> bool \<Rightarrow> unit rsys" where
  "demo_sys ps d l n u = \<lparr>sy_room = demo_room ps d, sy_leaving = l, sy_fired = 0, sy_removals = n, sy_used = u\<rparr>"

definition panic_module :: "unit Module" where
  "panic_module = Module_OnLeave (Some (\<lambda>r p. [APanic ''boom''])) (NewModule () ''t'')"

lemmas demo_simps = demo_sys_def demo_room_def demo_config_def ran_closure_def plainModule_def
  NewModule_def RoomConfig_zero_def join_step_cases leave_step_def at_capacity_def hasPlayer_def
  player_hook_def new_player_def map_defs mhas_def panic_module_def Module_OnLeave_def
  schedule_step_def scheduleEmptyRemoval_def cancelEmptyRemoval_def go_onEmpty_def
  Room_Shutdown_def exit_loop_def

lemma demo_created:
  "created ''x'' demo_config (plainModule ()) = demo_sys [] False 0 0 False"
  "created ''x'' demo_config panic_module = demo_sys [] False 0 0 False"
  by (simp_all add: created_def newRoom_def Room_setOnEmpty_def demo_simps)

text \<open>Player 1 leaves, player 2 joins before the second closure of that \<open>Leave\<close>, which starts the removal.\<close>

lemma demo_race:
  "room_reach (plainModule ()) (demo_sys [] False 0 0 False)
     (demo_sys [(2, new_player 5 2 ''b'')] False 0 1 True)"
proof -
  let ?p1 = "[(1, new_player 5 1 ''a'')]" and ?p2 = "[(2, new_player 5 2 ''b'')]"
  let ?step = "room_step (plainModule ())"
  have s1: "?step (demo_sys [] False 0 0 False) (demo_sys ?p1 False 0 0 True)"
    using room_step.join [of "demo_sys [] False 0 0 False" "plainModule ()" 5 1 "''a''"
        "demo_room ?p1 False" "[]" "(None, True)"] by (simp add: demo_simps)
  have s2: "?step (demo_sys ?p1 False 0 0 True) (demo_sys [] False 1 0 True)"
    using room_step.leave [of "demo_sys ?p1 False 0 0 True" "plainModule ()" 1
        "demo_room [] False" "[]" True True 1] by (simp add: demo_simps)
  have s3: "?step (demo_sys [] False 1 0 True) (demo_sys ?p2 False 1 0 True)"
    using room_step.join [of "demo_sys [] False 1 0 True" "plainModule ()" 5 2 "''b''"
        "demo_room ?p2 False" "[]" "(None, True)"] by (simp add: demo_simps)
  have s4: "?step (demo_sys ?p2 False 1 0 True) (demo_sys ?p2 False 0 1 True)"
    using room_step.schedule [of "demo_sys ?p2 False 1 0 True" 0
        "demo_room ?p2 False" "[GoOnEmpty ''r_x'']" "()" "plainModule ()"]
    by (simp add: demo_simps)
  show ?thesis
    by (rule room_reach.more [OF room_reach.more [OF room_reach.more [OF room_reach.more
          [OF room_reach.start s1] s2] s3] s4])
qed

lemma demo_removed:
  "room_step (plainModule ()) (demo_sys [(2, new_player 5 2 ''b'')] False 0 1 True)
     (demo_sys [(2, new_player 5 2 ''b'')] True 0 0 True)"
  using room_step.remove [of "demo_sys [(2, new_player 5 2 ''b'')] False 0 1 True" 0 "plainModule ()"
      "demo_room [(2, new_player 5 2 ''b'')] True" "[]"] by (simp add: demo_simps)

text \<open>The last player leaves and \<open>OnLeave\<close> panics: nothing is left that would remove the room.\<close>

lemma demo_leak:
  "room_reach panic_module (demo_sys [] False 0 0 False) (demo_sys [] False 0 0 True)"
proof -
  let ?p1 = "[(1, new_player 5 1 ''a'')]"
  have s1: "room_step panic_module (demo_sys [] False 0 0 False) (demo_sys ?p1 False 0 0 True)"
    using room_step.join [of "demo_sys [] False 0 0 False" panic_module 5 1 "''a''"
        "demo_room ?p1 False" "[]" "(None, True)"] by (simp add: demo_simps)
  have s2: "room_step panic_module (demo_sys ?p1 False 0 0 True) (demo_sys [] False 0 0 True)"
    using room_step.leave [of "demo_sys ?p1 False 0 0 True" panic_module 1
        "demo_room [] False" "[]" True False 0] by (simp add: demo_simps)
  show ?thesis by (rule room_reach.more [OF room_reach.more [OF room_reach.start s1] s2])
qed

end
