(* ===== verification/Room_Theorems.thy ===== *)
theory Room_Theorems
  imports Room_Steps
begin

text \<open>
  The properties of a room: its operations one by one, the sends, and the room under every
  interleaving of concurrent callers.
\<close>

section \<open>Joining and leaving\<close>

lemma playerJoined_event_unfit:
  "\<not> fits16 u \<Longrightarrow> playerJoined_event c u = Panic ''arpack: string length for UserID exceeds uint16 limit''"
  by (simp add: playerJoined_event_def NewEvent_def Encode_def PlayerJoined_Marshal_def append_string_def
      arpackEnsureUint16Length_def fits16_def Let_def)

text \<open>C23: what \<open>Join\<close> does, on every branch. A shut-down or closed room refuses with
  \<open>ErrRoomClosed\<close>; a full one with \<open>ErrRoomFull\<close>; in both cases nothing changes and nothing is
  published. A member's rejoin succeeds silently. Anyone else is added under the client ID with the
  user and the time given, a pending removal is cancelled, \<open>OnJoin\<close> runs on that room and player, and
  whether it panics or not the join succeeds, with what the hook sent and then \<open>PlayerJoined\<close> on the
  room's topic published. A user ID that is too long for the wire is found out only then: the call
  panics, and the player stays in the room unannounced.\<close>

theorem join_on_every_branch:
  assumes "room_wf r"
  shows "if rm_done r \<or> \<not> rm_isOpen r then Room_Join md now c u r = (Val (Some ErrRoomClosed), r, [])
    else if 0 < rc_MaxPlayers (rm_config r) \<and> card (members r) = unat (rc_MaxPlayers (rm_config r))
    then Room_Join md now c u r = (Val (Some ErrRoomFull), r, [])
    else if c \<in> members r then Room_Join md now c u r = (Val None, r, [])
    else let p = \<lparr>pl_ID = c, pl_UserID = u, pl_JoinedAt = now\<rparr> in
      case player_hook (md_onJoin md) p (r\<lparr>rm_players := mput c p (rm_players r), rm_emptyTimer := None\<rparr>) of
        (r', es, pan) \<Rightarrow>
          mget (rm_players r') = (mget (rm_players r))(c \<mapsto> p) \<and> members r' = insert c (members r) \<and>
          (if fits16 u
           then \<exists>ev. Room_Join md now c u r = (Val None, r', es @ [Pub (''room:'' @ rm_id r) ev]) \<and>
             ev_Op ev = EventPlayerJoined \<and>
             Decode PlayerJoined_zero PlayerJoined_Unmarshal (ev_Payload ev) =
               Inr \<lparr>pj_PlayerID = c, pj_UserID = u\<rparr>
           else Room_Join md now c u r = (Panic ''arpack: string length for UserID exceeds uint16 limit'', r', es))"
proof (cases "rm_done r \<or> \<not> rm_isOpen r \<or> at_capacity r \<or> c \<in> members r")
  case True
  then show ?thesis
    using at_capacity_iff [OF assms] members_card [OF assms]
    by (auto simp: Room_Join_def room_do_def join_step_cases hasPlayer_members)
next
  case False
  let ?p = "\<lparr>pl_ID = c, pl_UserID = u, pl_JoinedAt = now\<rparr>"
  obtain r' es pan where h: "player_hook (md_onJoin md) ?p
      (r\<lparr>rm_players := mput c ?p (rm_players r), rm_emptyTimer := None\<rparr>) = (r', es, pan)"
    by (metis prod_cases3)
  then have j: "join_step md now c u r = (r', es, (None, True))"
    using False by (simp add: join_step_cases hasPlayer_members)
  have ps: "mget (rm_players r') = (mget (rm_players r))(c \<mapsto> ?p)" using join_step_players(1) [OF j] by simp
  then have m: "members r' = insert c (members r)" by (simp add: members_def)
  let ?ev = "\<lparr>ev_Op = EventPlayerJoined, ev_Payload = PlayerJoined_enc \<lparr>pj_PlayerID = c, pj_UserID = u\<rparr>\<rparr>"
  have "if fits16 u
    then Room_Join md now c u r = (Val None, r', es @ [Pub (''room:'' @ rm_id r) ?ev]) \<and>
      Decode PlayerJoined_zero PlayerJoined_Unmarshal (ev_Payload ?ev) = Inr \<lparr>pj_PlayerID = c, pj_UserID = u\<rparr>
    else Room_Join md now c u r = (Panic ''arpack: string length for UserID exceeds uint16 limit'', r', es)"
    using False j join_step_players(4) [OF j]
      playerJoined.Decode_enc [of "\<lparr>pj_PlayerID = c, pj_UserID = u\<rparr>" PlayerJoined_zero "[]"]
    by (simp add: Room_Join_def room_do_def playerJoined_event_eq playerJoined_event_unfit Room_topic_def
        PlayerJoined_fits_def)
  moreover have "\<not> (0 < rc_MaxPlayers (rm_config r) \<and> card (members r) = unat (rc_MaxPlayers (rm_config r)))"
    using False at_capacity_iff [OF assms] members_card [OF assms] by auto
  ultimately show ?thesis using False h ps m by (auto simp: Let_def split: if_splits)
qed

lemma demo_room_wf: "room_wf (demo_room [] d)" "room_wf (demo_room [(k, new_player now k u)] d)"
  by (auto simp: room_wf_def demo_room_def demo_config_def RoomConfig_zero_def mwf_def mget_def
      new_player_def split: if_splits)

lemma demo_room_members [simp]:
  "members (demo_room [] d) = {}" "members (demo_room [(k, p)] d) = {k}"
  by (auto simp: members_def demo_room_def mget_def split: if_splits)

lemma demo_room_sel [simp]:
  "rm_id (demo_room ps d) = ''r_x''" "rm_config (demo_room ps d) = demo_config"
  "rm_isOpen (demo_room ps d)" "rm_done (demo_room ps d) = d" "rm_players (demo_room ps d) = ps"
  "rm_onEmpty (demo_room ps d)" "\<not> rm_keepOnEmpty (demo_room ps d)"
  by (simp_all add: demo_room_def)

lemma demo_config_sel [simp]: "rc_MaxPlayers demo_config = 0" "rc_EmptyGrace demo_config = 0"
  by (simp_all add: demo_config_def RoomConfig_zero_def)

theorem join_on_every_branch_witness:
  "\<exists>r' ev. Room_Join (plainModule ()) 5 2 ''b'' (demo_room [(1, new_player 5 1 ''a'')] False) =
     (Val None, r', [Pub ''room:r_x'' ev]) \<and> members r' = {1, 2}"
  using join_on_every_branch [OF demo_room_wf(2) [of 1 5 "''a''" False], of "plainModule ()" 5 2 "''b''"]
  by (auto simp: fits16_def insert_commute player_hook_def plainModule_def NewModule_def Let_def)

text \<open>\<open>JoinReplace\<close> swaps two clients in one step. In a live, open room of which the old client is
  a member the swap succeeds even if the room is full, provided that the module's \<open>OnLeave\<close> does
  not panic: afterwards the new client is a member, the old one is not (unless they are the same),
  and nobody else is affected.\<close>

lemma replace_swaps_even_when_full:
  assumes "room_wf r" "\<not> rm_done r" "rm_isOpen r" "old \<in> members r" "quiet_leave md" "fits16 u"
  shows "\<exists>r' es. Room_JoinReplace md now old c u r = (Val None, r', es) \<and>
    members r' = insert c (members r - {old}) \<and> room_wf r'"
proof -
  obtain r1 es1 pan1 where d: "drop_old md old r = (r1, es1, pan1)" by (metis prod_cases3)
  have p: "pan1 = None" by (rule quiet_drop [OF assms(5) d])
  have "\<not> at_capacity r1" using drop_old_room [OF d assms(1)] assms(4) by (simp add: hasPlayer_members)
  moreover obtain r' es pan where h: "player_hook (md_onJoin md) (new_player now c u)
      (r1\<lparr>rm_players := mput c (new_player now c u) (rm_players r1), rm_emptyTimer := None\<rparr>) = (r', es, pan)"
    by (metis prod_cases3)
  ultimately have st: "joinReplace_step md now old c u r = (r', es1 @ es, (None, False))"
    using assms(3) d p by (simp add: joinReplace_step_cases)
  have m: "members r' = insert c (members r1)" by (rule add_player_hook(6) [OF h])
  have "members r' = insert c (members r - {old})" using m drop_old_fields(6) [OF d] by simp
  moreover have "room_wf r'" by (rule joinReplace_step_wf [OF st assms(1)])
  ultimately show ?thesis using assms(2) st
    by (simp add: Room_JoinReplace_def room_do_def playerLeft_event_eq playerJoined_event_eq [OF assms(6)])
qed

text \<open>If \<open>OnLeave\<close> panics then \<open>JoinReplace\<close> reports success and announces the new player although
  the player was not added: the closure was left before the insertion.\<close>

lemma replace_succeeds_without_joining_on_panic:
  "\<exists>r' es ev. Room_JoinReplace panic_module 5 1 2 ''a'' (demo_room [(1, new_player 5 1 ''a'')] False) =
     (Val None, r', es @ [Pub ''room:r_x'' ev]) \<and> ev_Op ev = EventPlayerJoined \<and> members r' = {}"
proof -
  have "joinReplace_step panic_module 5 1 2 ''a'' (demo_room [(1, new_player 5 1 ''a'')] False) =
      (demo_room [] False, [], (None, False))"
    by (simp add: joinReplace_step_cases drop_old_def demo_simps)
  then have "Room_JoinReplace panic_module 5 1 2 ''a'' (demo_room [(1, new_player 5 1 ''a'')] False) =
      (Val None, demo_room [] False,
       [Pub ''room:r_x'' \<lparr>ev_Op = EventPlayerLeft, ev_Payload = PlayerLeft_enc \<lparr>plf_PlayerID = 1\<rparr>\<rparr>] @
       [Pub ''room:r_x'' \<lparr>ev_Op = EventPlayerJoined,
          ev_Payload = PlayerJoined_enc \<lparr>pj_PlayerID = 2, pj_UserID = ''a''\<rparr>\<rparr>])"
    by (simp add: Room_JoinReplace_def room_do_def playerLeft_event_eq playerJoined_event_eq fits16_def
        Room_topic_def demo_room_def)
  then show ?thesis by (fastforce simp: demo_room_members)
qed

text \<open>C24: what \<open>Leave\<close> of a member does in a live room, whatever the module's \<open>OnLeave\<close> is: the member is
  taken out and nobody else is; \<open>OnLeave\<close> runs on the room without the player, and what it sends is
  followed by \<open>PlayerLeft\<close> on the room's topic. If the hook did not panic, the room is now empty, has an
  owner and is not kept (after the hook), its removal starts at once without a grace and is armed with
  one. In all other cases, a panicking hook among them, nothing more happens.\<close>

theorem leave_of_member:
  assumes "\<not> rm_done r" "mget (rm_players r) c = Some p"
  shows "case player_hook (md_onLeave md) p (r\<lparr>rm_players := mdel c (rm_players r)\<rparr>) of (r1, es, pan) \<Rightarrow>
    \<exists>r' ev es'. Room_Leave md c r = (Val (), r', es @ Pub (''room:'' @ rm_id r) ev # es') \<and>
      ev_Op ev = EventPlayerLeft \<and>
      Decode PlayerLeft_zero PlayerLeft_Unmarshal (ev_Payload ev) = Inr \<lparr>plf_PlayerID = c\<rparr> \<and>
      members r' = members r - {c} \<and>
      (if pan \<noteq> None \<or> members r' \<noteq> {} \<or> \<not> rm_onEmpty r \<or> rm_keepOnEmpty r1 then es' = [] \<and> r' = r1
       else if rc_EmptyGrace (rm_config r) \<le> 0
       then es' = [GoOnEmpty (rm_id r)] \<and> r' = r1\<lparr>rm_emptyTimer := None\<rparr>
       else es' = [] \<and> r' = r1\<lparr>rm_emptyTimer := Some Armed\<rparr>)"
proof -
  obtain r1 es pan where h: "player_hook (md_onLeave md) p (r\<lparr>rm_players := mdel c (rm_players r)\<rparr>) = (r1, es, pan)"
    by (metis prod_cases3)
  note core = player_hook_core [OF h]
  have m: "members r1 = members r - {c}"
    using members_core [OF core] by (auto simp: members_def split: if_splits)
  have st: "leave_step md c r = (r1, es, (True, pan = None \<and> members r1 = {}))"
    using assms(2) h by (cases pan) (simp_all add: leave_step_def members_empty)
  let ?ev = "\<lparr>ev_Op = EventPlayerLeft, ev_Payload = PlayerLeft_enc \<lparr>plf_PlayerID = c\<rparr>\<rparr>"
  have d: "Decode PlayerLeft_zero PlayerLeft_Unmarshal (ev_Payload ?ev) = Inr \<lparr>plf_PlayerID = c\<rparr>"
    using playerLeft.Decode_enc [of "\<lparr>plf_PlayerID = c\<rparr>" PlayerLeft_zero "[]"] by (simp add: PlayerLeft_fits_def)
  note sel = same_coreD [OF core]
  have t: "members (r1\<lparr>rm_emptyTimer := x\<rparr>) = members r1" for x by (simp add: members_def)
  show ?thesis
    using Room_Leave_eq [OF assms(1) st] h m d sel
    by (cases "pan = None \<and> members r1 = {} \<and> rm_onEmpty r")
       (auto simp: Let_def Room_topic_def scheduleEmptyRemoval_def cancelEmptyRemoval_eq go_onEmpty_def t)
qed

theorem leave_of_member_witness:
  "\<exists>r' ev. Room_Leave (plainModule ()) 1 (demo_room [(1, new_player 5 1 ''a'')] False) =
     (Val (), r', [Pub ''room:r_x'' ev, GoOnEmpty ''r_x'']) \<and> members r' = {}"
  using leave_of_member [of "demo_room [(1, new_player 5 1 ''a'')] False" 1 "new_player 5 1 ''a''" "plainModule ()"]
  by (auto simp: plainModule_def NewModule_def player_hook_def mget_def)

section \<open>Messages and sends\<close>

text \<open>A message is handled only for a member, and a panicking handler does not hurt the room. On a
  live room a stranger's message changes nothing and gets \<open>ErrNotInRoom\<close>; a handler that panics makes
  the caller see error 500; and no message of any kind, handled or not, changes the ID, the
  configuration, the members, the open flag or the life of the room.\<close>

lemma messages_are_for_members:
  assumes "Room_HandleMessage md ctx c op payload r = (res, r', es)"
  shows "same_core r r' \<and>
    (if rm_done r then res = Inl ErrRoomClosed \<and> r' = r \<and> es = []
     else case mget (rm_players r) c of
       None \<Rightarrow> res = Inl ErrNotInRoom \<and> r' = r \<and> es = []
     | Some p \<Rightarrow> (case mget (md_handlers md) op of
         None \<Rightarrow> res = Inl (ProtocolError 500 ''internal error'')
       | Some h \<Rightarrow> if snd (snd (run_acts (fst (h ctx r p payload)) r)) = None
                   then res = snd (h ctx r p payload)
                   else res = Inl (ProtocolError 500 ''internal error'')))"
  using Room_HandleMessage_core [OF assms] assms
  by (auto simp: Room_HandleMessage_def room_do_def handle_step_def NewError_def
      split: option.splits prod.splits if_splits)

lemma mhas_fold_put: "mhas (fold (\<lambda>i w. mput i () w) us w) x \<longleftrightarrow> x \<in> set us \<or> mhas w x"
  by (induction us arbitrary: w) auto

lemma mhas_id_set: "mhas (id_set us) x \<longleftrightarrow> x \<in> set us"
  by (simp add: id_set_def mhas_fold_put)

lemma mvals_players: "room_wf r \<Longrightarrow> distinct (map pl_ID (mvals (rm_players r)))"
proof -
  assume wf: "room_wf r"
  have "map pl_ID (mvals (rm_players r)) = mkeys (rm_players r)"
    using wf by (auto simp: room_wf_def map_defs mwf_def map_of_eq_Some_iff)
  then show ?thesis using wf by (simp add: room_wf_def distinct_mkeys)
qed

text \<open>\<open>SendTo\<close> and \<open>BroadcastExcept\<close> split the players: every player whose user is named gets the
  event from the one, every other player from the other, each on the client topic of its own
  connection and nobody twice.\<close>

lemma sends_reach_the_named_users:
  assumes "Encode msg = Val payload" "room_wf r"
  shows "\<exists>to rest. Room_SendTo us op msg r = (map (\<lambda>c. Pub (clientTopic c) (NewEventBytes op payload)) to, None) \<and>
    Room_BroadcastExcept us op msg r = (map (\<lambda>c. Pub (clientTopic c) (NewEventBytes op payload)) rest, None) \<and>
    distinct (to @ rest) \<and> set to \<union> set rest = pl_ID ` set (mvals (rm_players r)) \<and>
    set to = pl_ID ` {p \<in> set (mvals (rm_players r)). pl_UserID p \<in> set us}"
proof -
  let ?ps = "mvals (rm_players r)"
  let ?to = "filter (\<lambda>p. pl_UserID p \<in> set us) ?ps"
  let ?rest = "filter (\<lambda>p. pl_UserID p \<notin> set us) ?ps"
  have "distinct (map pl_ID ?ps)" by (rule mvals_players [OF assms(2)])
  then have "distinct (map pl_ID ?to @ map pl_ID ?rest)"
    by (auto simp: distinct_map inj_on_def distinct_filter)
  then show ?thesis using assms(1)
    by (intro exI [of _ "map pl_ID ?to"] exI [of _ "map pl_ID ?rest"])
       (auto simp: Room_SendTo_def sendToUserIDs_def Room_BroadcastExcept_def mhas_id_set Let_def)
qed

section \<open>The life of a room\<close>

text \<open>After \<open>Shutdown\<close> nothing that the manager may call changes the room's membership any more,
  every join is refused with \<open>ErrRoomClosed\<close> and so is every message, whatever hooks the module has.\<close>

lemma shutdown_is_final:
  assumes "Room_Shutdown md r = (r0, es)"
  shows "let r' = fold (any_call (Room_Join md now) (Room_JoinReplace md now) (Room_Leave md)
        (Room_HandleMessage md) (Room_Shutdown md)) calls r0
    in members r' = members r \<and> fst (Room_Join md now c u r') = Val (Some ErrRoomClosed) \<and>
       fst (Room_HandleMessage md ctx c op payload r') = Inl ErrRoomClosed"
proof -
  have d: "rm_done r0" and m: "members r0 = members r"
    using ar.shutdown_ident [OF assms] ar.shutdown_mem [OF assms] by auto
  from ar.calls_dead [OF d, of md now calls] m show ?thesis
    by (simp add: Let_def ar.join_dead ar.handle_dead)
qed

text \<open>Nobody is in a room who did not join it: after any sequence of calls on a new room every
  member is a client that some \<open>Join\<close> or \<open>JoinReplace\<close> named, and the room still has the ID and the
  configuration it was created with.\<close>

lemma members_have_joined:
  assumes "newRoom uuid config md = (r, es)"
  shows "let r' = fold (any_call (Room_Join md now) (Room_JoinReplace md now) (Room_Leave md)
        (Room_HandleMessage md) (Room_Shutdown md)) calls r
    in members r' \<subseteq> (\<Union>x\<in>set calls. call_adds x) \<and> rm_id r' = rc_Name config @ ''_'' @ uuid \<and>
       rm_config r' = config"
proof -
  have "members r = {}" using newRoom_core(3) [OF assms] by (simp add: members_empty)
  then show ?thesis
    using ar.calls_mem [of md now calls r] ar.calls_ident [of md now calls r] newRoom_core [OF assms]
    by (simp add: Let_def)
qed

text \<open>C1: the player cap holds under every interleaving of concurrent joins, swaps, leaves, messages,
  ticks, timers and removals, whatever the module's hooks do: a room created with a cap never has
  more members than the cap, although the code compares 16-bit numbers.\<close>

theorem capacity_holds_under_every_interleaving:
  assumes "room_reach md (created uuid config md) s" "0 < rc_MaxPlayers config"
  shows "card (members (sy_room s)) \<le> unat (rc_MaxPlayers config)"
proof -
  have wf: "room_wf (sy_room s)" by (rule room_reach_wf [OF assms(1)])
  then have "mlen (rm_players (sy_room s)) \<le> unat (rc_MaxPlayers config)"
    using room_reach_config(2) [OF assms(1)] assms(2) by (simp add: room_wf_def)
  then show ?thesis by (simp add: members_card [OF wf])
qed

lemma join_reaches:
  "\<not> rm_done (sy_room s0) \<Longrightarrow> join_step md now c u (sy_room s0) = (r, es, a) \<Longrightarrow>
     room_reach md s0 (ran_closure s0 r es)"
  by (rule room_reach.more [OF room_reach.start room_step.join])

theorem capacity_holds_under_every_interleaving_witness:
  "\<exists>s. room_reach (plainModule ()) (created ''x'' (demo_config\<lparr>rc_MaxPlayers := 1\<rparr>) (plainModule ())) s \<and>
     1 \<in> members (sy_room s) \<and> card (members (sy_room s)) \<le> 1"
proof -
  let ?start = "created ''x'' (demo_config\<lparr>rc_MaxPlayers := 1\<rparr>) (plainModule ())"
  let ?j = "join_step (plainModule ()) 5 1 ''a'' (sy_room ?start)"
  let ?s = "ran_closure ?start (fst ?j) (fst (snd ?j))"
  have j: "?j = (fst ?j, fst (snd ?j), (None, True))"
    by (simp add: created_def newRoom_def Room_setOnEmpty_def demo_simps)
  have "\<not> rm_done (sy_room ?start)"
    by (simp add: created_def newRoom_def Room_setOnEmpty_def demo_simps)
  then have r: "room_reach (plainModule ()) ?start ?s" by (rule join_reaches [OF _ j])
  moreover have "1 \<in> members (sy_room ?s)"
    by (simp add: created_def newRoom_def Room_setOnEmpty_def members_def domIff demo_simps)
  ultimately show ?thesis
    using capacity_holds_under_every_interleaving [OF r] by (intro exI [of _ ?s]) simp
qed

text \<open>C10: an emptied room is not forgotten. Under every interleaving, if the module's \<open>OnLeave\<close> never
  panics, a live room that has had a player, is empty now and is not kept has its removal under
  way: a \<open>Leave\<close> is about to schedule it, a timer is armed, an expired timer is about to check, or
  the removal runs.\<close>

theorem emptied_room_is_not_forgotten:
  assumes "room_reach md (created uuid config md) s" "quiet_leave md"
    and "sy_used s" "\<not> rm_done (sy_room s)" "members (sy_room s) = {}" "\<not> rm_keepOnEmpty (sy_room s)"
  shows "0 < sy_leaving s \<or> rm_emptyTimer (sy_room s) = Some Armed \<or> 0 < sy_fired s \<or> 0 < sy_removals s"
  using room_reach_watched [OF assms(1,2)] assms(3-6)
  by (auto simp: watched_def settled_def members_empty)

lemma demo_reaches_empty:
  "room_reach (plainModule ()) (created ''x'' demo_config (plainModule ())) (demo_sys [] False 1 0 True)"
proof -
  let ?p1 = "[(1, new_player 5 1 ''a'')]"
  have s1: "room_step (plainModule ()) (demo_sys [] False 0 0 False) (demo_sys ?p1 False 0 0 True)"
    using room_step.join [of "demo_sys [] False 0 0 False" "plainModule ()" 5 1 "''a''"
        "demo_room ?p1 False" "[]" "(None, True)"] by (simp add: demo_simps)
  have s2: "room_step (plainModule ()) (demo_sys ?p1 False 0 0 True) (demo_sys [] False 1 0 True)"
    using room_step.leave [of "demo_sys ?p1 False 0 0 True" "plainModule ()" 1
        "demo_room [] False" "[]" True True 1] by (simp add: demo_simps)
  show ?thesis unfolding demo_created
    by (rule room_reach.more [OF room_reach.more [OF room_reach.start s1] s2])
qed

theorem emptied_room_is_not_forgotten_witness:
  "0 < sy_leaving (demo_sys [] False 1 0 True) \<or> rm_emptyTimer (sy_room (demo_sys [] False 1 0 True)) = Some Armed \<or>
   0 < sy_fired (demo_sys [] False 1 0 True) \<or> 0 < sy_removals (demo_sys [] False 1 0 True)"
  by (rule emptied_room_is_not_forgotten [OF demo_reaches_empty])
     (simp_all add: quiet_leave_def plainModule_def NewModule_def demo_sys_def)

text \<open>A panicking \<open>OnLeave\<close> does make the program forget a room: a module with such a hook has a
  reachable state in which the room is live, used, empty and not kept, and nothing is under way to
  remove it.\<close>

lemma panicking_leave_leaks_the_room:
  "\<exists>s. room_reach panic_module (created ''x'' demo_config panic_module) s \<and> sy_used s \<and>
     \<not> rm_done (sy_room s) \<and> members (sy_room s) = {} \<and> \<not> rm_keepOnEmpty (sy_room s) \<and>
     sy_leaving s = 0 \<and> rm_emptyTimer (sy_room s) = None \<and> sy_fired s = 0 \<and> sy_removals s = 0"
  by (intro exI [of _ "demo_sys [] False 0 0 True"])
     (simp add: demo_created demo_leak, simp add: demo_sys_def, simp add: demo_room_def)

text \<open>C25: with a positive grace a removal starts only from the check of an expired timer, and only if
  the room is empty and not kept at that moment, whatever else runs concurrently.\<close>

theorem removal_with_grace_starts_only_when_empty:
  assumes "room_reach md (created uuid config md) s" "0 < rc_EmptyGrace config"
    and "room_step md s s'" "sy_removals s < sy_removals s'"
  shows "members (sy_room s) = {} \<and> sy_room s' = sy_room s \<and> \<not> rm_keepOnEmpty (sy_room s) \<and>
    sy_fired s = Suc (sy_fired s')"
  using removal_start_grace [OF assms(3,4) room_reach_wf [OF assms(1)]] assms(2)
    room_reach_config(2) [OF assms(1)] by (simp add: members_empty)

definition grace_config :: RoomConfig where
  "grace_config = demo_config\<lparr>rc_EmptyGrace := 1\<rparr>"

definition grace_sys :: "(uint64, Player) gomap \<Rightarrow> timer option \<Rightarrow> nat \<Rightarrow> nat \<Rightarrow> nat \<Rightarrow> bool \<Rightarrow> unit rsys" where
  "grace_sys ps tm l f n u = \<lparr>sy_room = (demo_room ps False)\<lparr>rm_config := grace_config, rm_emptyTimer := tm\<rparr>,
     sy_leaving = l, sy_fired = f, sy_removals = n, sy_used = u\<rparr>"

lemmas grace_simps = grace_sys_def grace_config_def timer_check_def demo_simps

lemma grace_reach:
  "room_reach (plainModule ()) (created ''x'' grace_config (plainModule ())) (grace_sys [] (Some Fired) 0 1 0 True)"
proof -
  let ?md = "plainModule ()" and ?one = "[(1, new_player 5 1 ''a'')]"
  have c: "created ''x'' grace_config ?md = grace_sys [] None 0 0 0 False"
    by (simp add: created_def newRoom_def Room_setOnEmpty_def grace_simps)
  have s1: "room_step ?md (grace_sys [] None 0 0 0 False) (grace_sys ?one None 0 0 0 True)"
    using room_step.join [of "grace_sys [] None 0 0 0 False" ?md 5 1 "''a''"
        "sy_room (grace_sys ?one None 0 0 0 True)" "[]" "(None, True)"] by (simp add: grace_simps)
  have s2: "room_step ?md (grace_sys ?one None 0 0 0 True) (grace_sys [] None 1 0 0 True)"
    using room_step.leave [of "grace_sys ?one None 0 0 0 True" ?md 1
        "sy_room (grace_sys [] None 1 0 0 True)" "[]" True True 1] by (simp add: grace_simps)
  have s3: "room_step ?md (grace_sys [] None 1 0 0 True) (grace_sys [] (Some Armed) 0 0 0 True)"
    using room_step.schedule [of "grace_sys [] None 1 0 0 True" 0
        "sy_room (grace_sys [] (Some Armed) 0 0 0 True)" "[]" "()" ?md] by (simp add: grace_simps)
  have s4: "room_step ?md (grace_sys [] (Some Armed) 0 0 0 True) (grace_sys [] (Some Fired) 0 1 0 True)"
    using room_step.expire [of "grace_sys [] (Some Armed) 0 0 0 True" ?md] by (simp add: grace_simps)
  show ?thesis unfolding c
    by (rule room_reach.more [OF room_reach.more [OF room_reach.more [OF room_reach.more
          [OF room_reach.start s1] s2] s3] s4])
qed

lemma grace_check:
  "room_step (plainModule ()) (grace_sys [] (Some Fired) 0 1 0 True) (grace_sys [] (Some Fired) 0 0 1 True)"
  using room_step.check [of "grace_sys [] (Some Fired) 0 1 0 True" 0
      "sy_room (grace_sys [] (Some Fired) 0 1 0 True)" "[GoOnEmpty ''r_x'']" "plainModule ()"]
  by (simp add: grace_simps)

theorem removal_with_grace_starts_only_when_empty_witness:
  "members (sy_room (grace_sys [] (Some Fired) 0 1 0 True)) = {} \<and>
   sy_removals (grace_sys [] (Some Fired) 0 0 1 True) = 1"
  using removal_with_grace_starts_only_when_empty [OF grace_reach _ grace_check]
  by (simp add: grace_sys_def grace_config_def)

text \<open>C34: without a grace a removal may start, and end the room, while a player is in it: the player
  joined between the two closures of the last player's \<open>Leave\<close>, and the second closure does not look
  at the players again.\<close>

theorem room_without_grace_removed_under_a_player:
  "\<exists>s s'. room_reach (plainModule ()) (created ''x'' demo_config (plainModule ())) s \<and>
     sy_removals s = 1 \<and> \<not> rm_done (sy_room s) \<and> members (sy_room s) = {2} \<and>
     room_step (plainModule ()) s s' \<and> rm_done (sy_room s') \<and> members (sy_room s') = {2}"
  using demo_race demo_removed
  by (intro exI [of _ "demo_sys [(2, new_player 5 2 ''b'')] False 0 1 True"]
        exI [of _ "demo_sys [(2, new_player 5 2 ''b'')] True 0 0 True"])
     (simp add: demo_created, simp add: demo_sys_def)

end
