(* ===== verification/Room_Actor.thy ===== *)
theory Room_Actor
  imports Room_Steps
begin

text \<open>
  The actor behind a room: the buffered channel of closures, the loop that runs them, the context, and
  the callers of \<open>do\<close> and \<open>Shutdown\<close>, each with a program counter. A step is one communication: a send, a
  receive, a cancellation, or one iteration of the loop. The channel \<open>done\<close> of a call is a token. The
  history records what the loop ran and in which order.
\<close>

section \<open>State\<close>

type_synonym ('s, 'a) closure = "'s Room \<Rightarrow> 's Room \<times> eff list \<times> 'a"

datatype dpc =
    DSend \<comment> \<open>at the outer \<open>select\<close> of \<open>do\<close>\<close>
  | DWait \<comment> \<open>at the inner \<open>select\<close>\<close>
  | DRet bool

datatype spc =
    SCall \<comment> \<open>before \<open>r.cancel()\<close>\<close>
  | SWait \<comment> \<open>at \<open>r.wg.Wait()\<close>\<close>
  | SRet

datatype item = Ran nat | Ticked duration | Closed

record ('s, 'a) actor =
  ac_room :: "'s Room"
  ac_inbox :: "nat list" \<comment> \<open>the calls whose closures are in the channel\<close>
  ac_cancelled :: bool
  ac_loop :: bool
  ac_calls :: "nat \<rightharpoonup> ('s, 'a) closure \<times> dpc"
  ac_token :: "nat \<Rightarrow> bool"
  ac_vars :: "nat \<rightharpoonup> 'a" \<comment> \<open>the variables a closure sets\<close>
  ac_stops :: "nat \<rightharpoonup> spc"
  ac_out :: "eff list"
  ac_sent :: "nat list"
  ac_hist :: "item list"

definition inboxSize :: nat where
  "inboxSize = 64"

definition set_pc :: "nat \<Rightarrow> dpc \<Rightarrow> ('s, 'a) actor \<Rightarrow> ('s, 'a) actor" where
  "set_pc k p s = s\<lparr>ac_calls := (ac_calls s)(k := map_option (\<lambda>(fn, _). (fn, p)) (ac_calls s k))\<rparr>"

text \<open>The loop runs a closure and signals the caller.\<close>

definition run_closure :: "nat \<Rightarrow> nat list \<Rightarrow> ('s, 'a) closure \<Rightarrow> ('s, 'a) actor \<Rightarrow> ('s, 'a) actor" where
  "run_closure k ks fn s =
     (case fn (ac_room s) of (r, es, a) \<Rightarrow>
        s\<lparr>ac_room := r, ac_inbox := ks, ac_out := ac_out s @ es, ac_token := (ac_token s)(k := True),
          ac_vars := (ac_vars s)(k \<mapsto> a), ac_hist := ac_hist s @ [Ran k]\<rparr>)"

definition run_tick :: "'s Module \<Rightarrow> duration \<Rightarrow> ('s, 'a) actor \<Rightarrow> ('s, 'a) actor" where
  "run_tick md dt s =
     (case tick_step md dt (ac_room s) of (r, es) \<Rightarrow>
        s\<lparr>ac_room := r, ac_out := ac_out s @ es, ac_hist := ac_hist s @ [Ticked dt]\<rparr>)"

text \<open>The loop returns; its deferred functions run. \<open>rm_done\<close> marks the room as shut down.\<close>

definition leave_loop :: "'s Module \<Rightarrow> ('s, 'a) actor \<Rightarrow> ('s, 'a) actor" where
  "leave_loop md s =
     (case exit_loop md ((ac_room s)\<lparr>rm_done := True\<rparr>) of (r, es) \<Rightarrow>
        s\<lparr>ac_room := r, ac_loop := False, ac_out := ac_out s @ es, ac_hist := ac_hist s @ [Closed]\<rparr>)"

section \<open>Steps\<close>

text \<open>The steps of the calls under way and of the loop.\<close>

inductive actor_work :: "'s Module \<Rightarrow> ('s, 'a) actor \<Rightarrow> ('s, 'a) actor \<Rightarrow> bool" for md where
  send: "\<lbrakk>ac_calls s k = Some (fn, DSend); length (ac_inbox s) < inboxSize\<rbrakk>
    \<Longrightarrow> actor_work md s ((set_pc k DWait s)\<lparr>ac_inbox := ac_inbox s @ [k], ac_sent := ac_sent s @ [k]\<rparr>)"
| refused: "\<lbrakk>ac_calls s k = Some (fn, DSend); ac_cancelled s\<rbrakk> \<Longrightarrow> actor_work md s (set_pc k (DRet False) s)"
| finished: "\<lbrakk>ac_calls s k = Some (fn, DWait); ac_token s k\<rbrakk>
    \<Longrightarrow> actor_work md s ((set_pc k (DRet True) s)\<lparr>ac_token := (ac_token s)(k := False)\<rparr>)"
| abandoned: "\<lbrakk>ac_calls s k = Some (fn, DWait); ac_cancelled s\<rbrakk> \<Longrightarrow> actor_work md s (set_pc k (DRet False) s)"
| take: "\<lbrakk>ac_loop s; ac_inbox s = k # ks; ac_calls s k = Some (fn, p)\<rbrakk> \<Longrightarrow> actor_work md s (run_closure k ks fn s)"
| quit: "\<lbrakk>ac_loop s; ac_cancelled s\<rbrakk> \<Longrightarrow> actor_work md s (leave_loop md s)"
| cancel: "ac_stops s j = Some SCall
    \<Longrightarrow> actor_work md s (s\<lparr>ac_cancelled := True, ac_stops := (ac_stops s)(j \<mapsto> SWait)\<rparr>)"
| stopped: "\<lbrakk>ac_stops s j = Some SWait; \<not> ac_loop s\<rbrakk>
    \<Longrightarrow> actor_work md s (s\<lparr>ac_stops := (ac_stops s)(j \<mapsto> SRet)\<rparr>)"

text \<open>New calls, and ticks. A closure does not shut its own room down.\<close>

definition tame :: "('s, 'a) closure \<Rightarrow> bool" where
  "tame fn \<longleftrightarrow> (\<forall>r. rm_done (fst (fn r)) = rm_done r)"

inductive actor_env :: "'s Module \<Rightarrow> ('s, 'a) actor \<Rightarrow> ('s, 'a) actor \<Rightarrow> bool" for md where
  call: "\<lbrakk>ac_calls s k = None; tame fn\<rbrakk> \<Longrightarrow> actor_env md s (s\<lparr>ac_calls := (ac_calls s)(k \<mapsto> (fn, DSend))\<rparr>)"
| stop: "ac_stops s j = None \<Longrightarrow> actor_env md s (s\<lparr>ac_stops := (ac_stops s)(j \<mapsto> SCall)\<rparr>)"
| tick: "\<lbrakk>ac_loop s; has_ticker md\<rbrakk> \<Longrightarrow> actor_env md s (run_tick md dt s)"

definition start_actor :: "'s Room \<Rightarrow> ('s, 'a) actor" where
  "start_actor r = \<lparr>ac_room = r, ac_inbox = [], ac_cancelled = False, ac_loop = True, ac_calls = Map.empty,
     ac_token = (\<lambda>_. False), ac_vars = Map.empty, ac_stops = Map.empty, ac_out = [], ac_sent = [], ac_hist = []\<rparr>"

inductive actor_reach :: "'s Module \<Rightarrow> 's Room \<Rightarrow> ('s, 'a) actor \<Rightarrow> bool" for md r where
  start: "actor_reach md r (start_actor r)"
| work: "\<lbrakk>actor_reach md r s; actor_work md s s'\<rbrakk> \<Longrightarrow> actor_reach md r s'"
| env: "\<lbrakk>actor_reach md r s; actor_env md s s'\<rbrakk> \<Longrightarrow> actor_reach md r s'"

inductive_cases actor_workE: "actor_work md s s'"
inductive_cases actor_envE: "actor_env md s s'"

section \<open>The sequential room as the specification\<close>

text \<open>The history, replayed with the atomic operations of the sequential model.\<close>

type_synonym ('s, 'a) view = "'s Room \<times> eff list \<times> (nat \<rightharpoonup> 'a)"

fun replay :: "'s Module \<Rightarrow> (nat \<Rightarrow> ('s, 'a) closure) \<Rightarrow> item \<Rightarrow> ('s, 'a) view \<Rightarrow> ('s, 'a) view" where
  "replay md cl (Ran k) (r, es, vs) =
     (case room_do (cl k) r of (r', es', a) \<Rightarrow> (r', es @ es', vs(k := a)))"
| "replay md cl (Ticked dt) (r, es, vs) = (case tick_step md dt r of (r', es') \<Rightarrow> (r', es @ es', vs))"
| "replay md cl Closed (r, es, vs) = (case Room_Shutdown md r of (r', es') \<Rightarrow> (r', es @ es', vs))"

fun ran_ids :: "item list \<Rightarrow> nat list" where
  "ran_ids [] = []"
| "ran_ids (Ran k # xs) = k # ran_ids xs"
| "ran_ids (x # xs) = ran_ids xs"

lemma ran_ids_append [simp]: "ran_ids (xs @ ys) = ran_ids xs @ ran_ids ys"
  by (induction xs rule: ran_ids.induct) auto

definition closure_of :: "('s, 'a) actor \<Rightarrow> nat \<Rightarrow> ('s, 'a) closure" where
  "closure_of s k = (case ac_calls s k of Some (fn, p) \<Rightarrow> fn | None \<Rightarrow> (\<lambda>r. (r, [], undefined)))"

definition actor_view :: "('s, 'a) actor \<Rightarrow> ('s, 'a) view" where
  "actor_view s = (ac_room s, ac_out s, ac_vars s)"

section \<open>Invariant\<close>

definition do_ok :: "('s, 'a) actor \<Rightarrow> nat \<Rightarrow> ('s, 'a) closure \<Rightarrow> dpc \<Rightarrow> bool" where
  "do_ok s k fn p \<longleftrightarrow> tame fn \<and>
     (case p of
        DSend \<Rightarrow> k \<notin> set (ac_sent s)
      | DWait \<Rightarrow> k \<in> set (ac_sent s) \<and> (k \<in> set (ran_ids (ac_hist s)) \<longrightarrow> ac_token s k)
      | DRet b \<Rightarrow> if b then k \<in> set (ran_ids (ac_hist s)) else ac_cancelled s)"

text \<open>The calls: what has been sent has run or is in the channel, each closure once and in order.\<close>

definition calls_ok :: "('s, 'a) actor \<Rightarrow> bool" where
  "calls_ok s \<longleftrightarrow>
     ran_ids (ac_hist s) @ ac_inbox s = ac_sent s \<and> distinct (ac_sent s) \<and>
     (\<forall>k\<in>set (ac_sent s). ac_calls s k \<noteq> None) \<and>
     (\<forall>k fn p. ac_calls s k = Some (fn, p) \<longrightarrow> do_ok s k fn p) \<and>
     (\<forall>k. ac_token s k \<longrightarrow> k \<in> set (ran_ids (ac_hist s)))"

text \<open>The context and the loop.\<close>

definition life_ok :: "('s, 'a) actor \<Rightarrow> bool" where
  "life_ok s \<longleftrightarrow>
     (rm_done (ac_room s) \<longleftrightarrow> \<not> ac_loop s) \<and> (\<not> ac_loop s \<longrightarrow> ac_cancelled s) \<and>
     (\<forall>j. ac_stops s j = Some SWait \<longrightarrow> ac_cancelled s) \<and> (\<forall>j. ac_stops s j = Some SRet \<longrightarrow> \<not> ac_loop s) \<and>
     length (ac_inbox s) \<le> inboxSize \<and> finite (dom (ac_calls s)) \<and> finite (dom (ac_stops s))"

definition view_ok :: "'s Module \<Rightarrow> 's Room \<Rightarrow> ('s, 'a) actor \<Rightarrow> bool" where
  "view_ok md r s \<longleftrightarrow> actor_view s = fold (replay md (closure_of s)) (ac_hist s) (r, [], Map.empty)"

lemma set_pc_simps [simp]:
  "ac_room (set_pc k p s) = ac_room s" "ac_inbox (set_pc k p s) = ac_inbox s"
  "ac_cancelled (set_pc k p s) = ac_cancelled s" "ac_loop (set_pc k p s) = ac_loop s"
  "ac_token (set_pc k p s) = ac_token s" "ac_vars (set_pc k p s) = ac_vars s"
  "ac_stops (set_pc k p s) = ac_stops s" "ac_out (set_pc k p s) = ac_out s"
  "ac_sent (set_pc k p s) = ac_sent s" "ac_hist (set_pc k p s) = ac_hist s"
  "ac_calls (set_pc k p s) = (ac_calls s)(k := map_option (\<lambda>(fn, _). (fn, p)) (ac_calls s k))"
  by (simp_all add: set_pc_def)

lemma run_closure_simps [simp]:
  "ac_inbox (run_closure k ks fn s) = ks" "ac_cancelled (run_closure k ks fn s) = ac_cancelled s"
  "ac_loop (run_closure k ks fn s) = ac_loop s" "ac_calls (run_closure k ks fn s) = ac_calls s"
  "ac_token (run_closure k ks fn s) = (ac_token s)(k := True)" "ac_stops (run_closure k ks fn s) = ac_stops s"
  "ac_sent (run_closure k ks fn s) = ac_sent s" "ac_hist (run_closure k ks fn s) = ac_hist s @ [Ran k]"
  "ac_room (run_closure k ks fn s) = fst (fn (ac_room s))"
  by (simp_all add: run_closure_def split: prod.splits)

lemma leave_loop_simps [simp]:
  "ac_inbox (leave_loop md s) = ac_inbox s" "ac_cancelled (leave_loop md s) = ac_cancelled s"
  "ac_loop (leave_loop md s) = False" "ac_calls (leave_loop md s) = ac_calls s"
  "ac_token (leave_loop md s) = ac_token s" "ac_stops (leave_loop md s) = ac_stops s"
  "ac_sent (leave_loop md s) = ac_sent s" "ac_hist (leave_loop md s) = ac_hist s @ [Closed]"
  "rm_done (ac_room (leave_loop md s))"
  by (auto simp: leave_loop_def split: prod.splits dest!: exit_loop_core simp: same_core_def)

lemma run_tick_simps [simp]:
  "ac_inbox (run_tick md dt s) = ac_inbox s" "ac_cancelled (run_tick md dt s) = ac_cancelled s"
  "ac_loop (run_tick md dt s) = ac_loop s" "ac_calls (run_tick md dt s) = ac_calls s"
  "ac_token (run_tick md dt s) = ac_token s" "ac_stops (run_tick md dt s) = ac_stops s"
  "ac_sent (run_tick md dt s) = ac_sent s" "ac_hist (run_tick md dt s) = ac_hist s @ [Ticked dt]"
  "rm_done (ac_room (run_tick md dt s)) = rm_done (ac_room s)"
  by (auto simp: run_tick_def split: prod.splits dest!: tick_step_core simp: same_core_def)

lemma do_okD:
  assumes "calls_ok s" "ac_calls s k = Some (fn, p)"
  shows "tame fn" "p = DSend \<Longrightarrow> k \<notin> set (ac_sent s)" "p = DWait \<Longrightarrow> k \<in> set (ac_sent s)"
    "p = DWait \<Longrightarrow> k \<in> set (ran_ids (ac_hist s)) \<Longrightarrow> ac_token s k"
    "p = DRet True \<Longrightarrow> k \<in> set (ran_ids (ac_hist s))" "p = DRet False \<Longrightarrow> ac_cancelled s"
proof -
  have "do_ok s k fn p" using assms by (auto simp: calls_ok_def)
  then show "tame fn" "p = DSend \<Longrightarrow> k \<notin> set (ac_sent s)" "p = DWait \<Longrightarrow> k \<in> set (ac_sent s)"
    "p = DWait \<Longrightarrow> k \<in> set (ran_ids (ac_hist s)) \<Longrightarrow> ac_token s k"
    "p = DRet True \<Longrightarrow> k \<in> set (ran_ids (ac_hist s))" "p = DRet False \<Longrightarrow> ac_cancelled s"
    by (auto simp: do_ok_def)
qed

lemma sent_iff: "calls_ok s \<Longrightarrow> k \<in> set (ac_sent s) \<longleftrightarrow> k \<in> set (ran_ids (ac_hist s)) \<or> k \<in> set (ac_inbox s)"
  by (auto simp: calls_ok_def) (metis Un_iff set_append)+

lemma sent_called: "calls_ok s \<Longrightarrow> k \<in> set (ac_sent s) \<Longrightarrow> \<exists>fn p. ac_calls s k = Some (fn, p)"
  by (auto simp: calls_ok_def)

lemma calls_okI:
  assumes "ran_ids (ac_hist s) @ ac_inbox s = ac_sent s" "distinct (ac_sent s)"
    and "\<And>k. k \<in> set (ac_sent s) \<Longrightarrow> ac_calls s k \<noteq> None"
    and "\<And>k fn p. ac_calls s k = Some (fn, p) \<Longrightarrow> do_ok s k fn p"
    and "\<And>k. ac_token s k \<Longrightarrow> k \<in> set (ran_ids (ac_hist s))"
  shows "calls_ok s"
  using assms by (auto simp: calls_ok_def)

lemma calls_okD:
  assumes "calls_ok s"
  shows "ran_ids (ac_hist s) @ ac_inbox s = ac_sent s" "distinct (ac_sent s)"
    "k \<in> set (ac_sent s) \<Longrightarrow> ac_calls s k \<noteq> None" "ac_calls s k = Some (fn, p) \<Longrightarrow> do_ok s k fn p"
    "ac_token s k \<Longrightarrow> k \<in> set (ran_ids (ac_hist s))"
  using assms by (auto simp: calls_ok_def)

text \<open>One call moves, and the others see no difference.\<close>

lemma calls_move:
  assumes ok: "calls_ok s" and k: "ac_calls s k = Some (fn, p)"
    and s': "ac_calls s' = (ac_calls s)(k \<mapsto> (fn, p'))" "ran_ids (ac_hist s') @ ac_inbox s' = ac_sent s'"
      "distinct (ac_sent s')" "set (ac_sent s) \<subseteq> set (ac_sent s')" "set (ac_sent s') \<subseteq> insert k (set (ac_sent s))"
      "ac_cancelled s' = ac_cancelled s"
    and ran: "\<And>x. x \<noteq> k \<Longrightarrow> x \<in> set (ran_ids (ac_hist s')) \<longleftrightarrow> x \<in> set (ran_ids (ac_hist s))"
      "\<And>x. x \<noteq> k \<Longrightarrow> ac_token s' x = ac_token s x" "ac_token s' k \<Longrightarrow> k \<in> set (ran_ids (ac_hist s'))"
    and own: "do_ok s' k fn p'"
  shows "calls_ok s'"
proof (rule calls_okI)
  fix x assume "x \<in> set (ac_sent s')"
  then show "ac_calls s' x \<noteq> None" using s'(1,5) calls_okD(3) [OF ok, of x] by auto
next
  fix x g q assume a: "ac_calls s' x = Some (g, q)"
  show "do_ok s' x g q"
  proof (cases "x = k")
    case True
    with a own s'(1) show ?thesis by simp
  next
    case False
    with a s'(1) have "do_ok s x g q" using calls_okD(4) [OF ok, of x g q] by simp
    with False ran s'(4-6) show ?thesis by (cases q) (auto simp: do_ok_def)
  qed
next
  fix x assume "ac_token s' x"
  then show "x \<in> set (ran_ids (ac_hist s'))" using ran calls_okD(5) [OF ok, of x] by (cases "x = k") auto
qed (fact s'(2), fact s'(3))

lemma work_calls: "actor_work md s s' \<Longrightarrow> calls_ok s \<Longrightarrow> calls_ok s'"
proof (induction rule: actor_work.induct)
  case (send s k fn)
  have "k \<notin> set (ac_sent s)" using do_okD(2) [OF send.prems send.hyps(1)] by simp
  moreover from this have "k \<notin> set (ran_ids (ac_hist s))" using sent_iff [OF send.prems] by blast
  ultimately show ?case using send.hyps calls_okD(1,2) [OF send.prems] do_okD(1) [OF send.prems send.hyps(1)]
      calls_okD(5) [OF send.prems, of k]
    by (intro calls_move [OF send.prems send.hyps(1), where p' = DWait]) (auto simp: do_ok_def simp flip: append_assoc)
next
  case (refused s k fn)
  then show ?case using calls_okD(1,2) [OF refused.prems] do_okD(1) [OF refused.prems refused.hyps(1)]
      calls_okD(5) [OF refused.prems, of k]
    by (intro calls_move [OF refused.prems refused.hyps(1), where p' = "DRet False"]) (auto simp: do_ok_def)
next
  case (finished s k fn)
  then show ?case using calls_okD(1,2) [OF finished.prems] do_okD(1) [OF finished.prems finished.hyps(1)]
      calls_okD(5) [OF finished.prems, of k]
    by (intro calls_move [OF finished.prems finished.hyps(1), where p' = "DRet True"]) (auto simp: do_ok_def)
next
  case (abandoned s k fn)
  then show ?case using calls_okD(1,2) [OF abandoned.prems] do_okD(1) [OF abandoned.prems abandoned.hyps(1)]
      calls_okD(5) [OF abandoned.prems, of k]
    by (intro calls_move [OF abandoned.prems abandoned.hyps(1), where p' = "DRet False"]) (auto simp: do_ok_def)
next
  case (take s k ks fn p)
  have k: "k \<in> set (ac_sent s)" "p \<noteq> DSend"
    using sent_iff [OF take.prems] do_okD(2) [OF take.prems take.hyps(3)] take.hyps(2) by auto
  have "do_ok s k fn p" by (rule calls_okD(4) [OF take.prems take.hyps(3)])
  with k have "do_ok (run_closure k ks fn s) k fn p" by (cases p) (auto simp: do_ok_def)
  moreover have "(ac_calls s)(k \<mapsto> (fn, p)) = ac_calls s" using take.hyps(3) by (simp add: map_upd_triv)
  ultimately show ?case using calls_okD(1,2) [OF take.prems] take.hyps(2)
    by (intro calls_move [OF take.prems take.hyps(3), where p' = p]) auto
next
  case (quit s)
  then show ?case by (auto simp: calls_ok_def do_ok_def split: dpc.splits)
next
  case (cancel s j)
  then show ?case by (auto simp: calls_ok_def do_ok_def split: dpc.splits if_splits)
next
  case (stopped s j)
  then show ?case by (auto simp: calls_ok_def do_ok_def split: dpc.splits)
qed

lemma env_calls: "actor_env md s s' \<Longrightarrow> calls_ok s \<Longrightarrow> calls_ok s'"
  by (induction rule: actor_env.induct) (auto simp: calls_ok_def do_ok_def split: dpc.splits if_splits)

lemma work_life: "actor_work md s s' \<Longrightarrow> life_ok s \<Longrightarrow> calls_ok s \<Longrightarrow> life_ok s'"
proof (induction rule: actor_work.induct)
  case (take s k ks fn p)
  then have "tame fn" by (auto simp: calls_ok_def do_ok_def)
  with take show ?case by (auto simp: life_ok_def tame_def)
qed (auto simp: life_ok_def)

lemma env_life: "actor_env md s s' \<Longrightarrow> life_ok s \<Longrightarrow> life_ok s'"
  by (induction rule: actor_env.induct) (auto simp: life_ok_def)


lemma replay_cong:
  "(\<And>k. k \<in> set (ran_ids xs) \<Longrightarrow> cl k = cl' k) \<Longrightarrow> fold (replay md cl) xs v = fold (replay md cl') xs v"
proof (induction xs arbitrary: v)
  case (Cons x xs)
  have "replay md cl x v = replay md cl' x v" using Cons.prems by (cases x; cases v) auto
  moreover have "set (ran_ids xs) \<subseteq> set (ran_ids (x # xs))" by (cases x) auto
  ultimately show ?case using Cons by (metis fold_simps(2) subsetD)
qed simp

lemma view_keep:
  assumes "view_ok md r s" "actor_view s' = actor_view s" "ac_hist s' = ac_hist s"
    and "\<And>k. k \<in> set (ran_ids (ac_hist s)) \<Longrightarrow> closure_of s' k = closure_of s k"
  shows "view_ok md r s'"
  using assms replay_cong [of "ac_hist s" "closure_of s'" "closure_of s" md] by (simp add: view_ok_def)

lemma view_more:
  assumes "view_ok md r s" "ac_calls s' = ac_calls s" "ac_hist s' = ac_hist s @ [x]"
    and "actor_view s' = replay md (closure_of s) x (actor_view s)"
  shows "view_ok md r s'"
proof -
  have "closure_of s' = closure_of s" using assms(2) by (simp add: closure_of_def fun_eq_iff)
  then show ?thesis using assms by (simp add: view_ok_def)
qed

lemma work_view: "actor_work md s s' \<Longrightarrow> life_ok s \<Longrightarrow> view_ok md r s \<Longrightarrow> view_ok md r s'"
proof (induction rule: actor_work.induct)
  case (take s k ks fn p)
  have "closure_of s k = fn" using take by (simp add: closure_of_def)
  then show ?case using take
    by (intro view_more [OF take.prems(2), where x = "Ran k"])
       (auto simp: actor_view_def run_closure_def room_do_def life_ok_def split: prod.splits)
next
  case (quit s)
  then show ?case
    by (intro view_more [OF quit.prems(2), where x = Closed])
       (auto simp: actor_view_def leave_loop_def Room_Shutdown_def life_ok_def split: prod.splits)
qed (auto elim!: view_keep simp: actor_view_def closure_of_def split: option.splits)

lemma env_view: "actor_env md s s' \<Longrightarrow> calls_ok s \<Longrightarrow> view_ok md r s \<Longrightarrow> view_ok md r s'"
proof (induction rule: actor_env.induct)
  case (call s k fn)
  have "k \<notin> set (ran_ids (ac_hist s))"
    using call.hyps(1) sent_iff [OF call.prems(1)] sent_called [OF call.prems(1), of k] by auto
  with call show ?case by (auto elim!: view_keep simp: actor_view_def closure_of_def)
next
  case (stop s j)
  then show ?case by (auto elim!: view_keep simp: actor_view_def closure_of_def)
next
  case (tick s dt)
  then show ?case
    by (intro view_more [OF tick.prems(2), where x = "Ticked dt"])
       (auto simp: actor_view_def run_tick_def split: prod.splits)
qed

lemma actor_reach_ok:
  assumes "actor_reach md r s" "\<not> rm_done r"
  shows "calls_ok s \<and> life_ok s \<and> view_ok md r s"
  using assms(1)
proof (induction rule: actor_reach.induct)
  case start
  show ?case using assms(2)
    by (simp add: start_actor_def calls_ok_def life_ok_def view_ok_def actor_view_def)
qed (auto intro: work_calls work_life work_view env_calls env_life env_view)

section \<open>Progress\<close>

text \<open>The steps the calls under way can still take.\<close>

fun dpc_cost :: "dpc \<Rightarrow> nat" where
  "dpc_cost DSend = 3" | "dpc_cost DWait = 1" | "dpc_cost (DRet b) = 0"

fun spc_cost :: "spc \<Rightarrow> nat" where
  "spc_cost SCall = 2" | "spc_cost SWait = 1" | "spc_cost SRet = 0"

definition calls_cost :: "(nat \<rightharpoonup> ('s, 'a) closure \<times> dpc) \<Rightarrow> nat" where
  "calls_cost c = (\<Sum>k\<in>dom c. dpc_cost (snd (the (c k))))"

definition stops_cost :: "(nat \<rightharpoonup> spc) \<Rightarrow> nat" where
  "stops_cost c = (\<Sum>j\<in>dom c. spc_cost (the (c j)))"

definition work_left :: "('s, 'a) actor \<Rightarrow> nat" where
  "work_left s = calls_cost (ac_calls s) + stops_cost (ac_stops s) + length (ac_inbox s) + (if ac_loop s then 1 else 0)"

lemma sum_upd:
  assumes "finite A" "k \<in> A" "\<And>x. x \<noteq> k \<Longrightarrow> g x = f x"
  shows "sum g A + f k = sum f A + (g k :: nat)"
proof -
  have "sum g (A - {k}) = sum f (A - {k})" using assms(3) by (intro sum.cong) auto
  then show ?thesis using sum.remove [OF assms(1,2), of g] sum.remove [OF assms(1,2), of f] by simp
qed

lemma calls_cost_upd:
  assumes "finite (dom c)" "c k = Some (fn, p)"
  shows "calls_cost (c(k \<mapsto> (fn, p'))) + dpc_cost p = calls_cost c + dpc_cost p'"
proof -
  have d: "dom (c(k \<mapsto> (fn, p'))) = dom c" and k: "k \<in> dom c" using assms(2) by auto
  show ?thesis unfolding calls_cost_def d
    using sum_upd [OF assms(1) k, of "\<lambda>x. dpc_cost (snd (the ((c(k \<mapsto> (fn, p'))) x)))" "\<lambda>x. dpc_cost (snd (the (c x)))"]
      assms(2) by simp
qed

lemma stops_cost_upd:
  assumes "finite (dom c)" "c j = Some p"
  shows "stops_cost (c(j \<mapsto> p')) + spc_cost p = stops_cost c + spc_cost p'"
proof -
  have d: "dom (c(j \<mapsto> p')) = dom c" and j: "j \<in> dom c" using assms(2) by auto
  show ?thesis unfolding stops_cost_def d
    using sum_upd [OF assms(1) j, of "\<lambda>x. spc_cost (the ((c(j \<mapsto> p')) x))" "\<lambda>x. spc_cost (the (c x))"] assms(2) by simp
qed

lemma work_decreases: "actor_work md s s' \<Longrightarrow> life_ok s \<Longrightarrow> work_left s' < work_left s"
proof (induction rule: actor_work.induct)
  case (send s k fn)
  then show ?case using calls_cost_upd [of "ac_calls s" k fn DSend DWait] by (simp add: work_left_def life_ok_def)
next
  case (refused s k fn)
  then show ?case using calls_cost_upd [of "ac_calls s" k fn DSend "DRet False"] by (simp add: work_left_def life_ok_def)
next
  case (finished s k fn)
  then show ?case using calls_cost_upd [of "ac_calls s" k fn DWait "DRet True"] by (simp add: work_left_def life_ok_def)
next
  case (abandoned s k fn)
  then show ?case using calls_cost_upd [of "ac_calls s" k fn DWait "DRet False"] by (simp add: work_left_def life_ok_def)
next
  case (cancel s j)
  then show ?case using stops_cost_upd [of "ac_stops s" j SCall SWait] by (simp add: work_left_def life_ok_def)
next
  case (stopped s j)
  then show ?case using stops_cost_upd [of "ac_stops s" j SWait SRet] by (simp add: work_left_def life_ok_def)
qed (simp_all add: work_left_def life_ok_def)

text \<open>A call that has not returned: the loop, the call itself or the call in front of it can move.\<close>

lemma work_enabled:
  assumes ok: "calls_ok s" "life_ok s" and k: "ac_calls s k = Some (fn, p)" and p: "p = DSend \<or> p = DWait"
  shows "\<exists>s'. actor_work md s s'"
proof (cases "ac_inbox s")
  case Nil
  show ?thesis
  proof (cases "p = DSend")
    case True
    with k Nil show ?thesis using actor_work.send [of s k fn] by (auto simp: inboxSize_def)
  next
    case False
    with p have w: "p = DWait" by simp
    with Nil have "ac_token s k" using do_okD(3,4) [OF ok(1) k] sent_iff [OF ok(1)] by auto
    with k w show ?thesis using actor_work.finished [of s k fn] by blast
  qed
next
  case (Cons i ks)
  show ?thesis
  proof (cases "ac_loop s")
    case True
    have "i \<in> set (ac_sent s)" using sent_iff [OF ok(1)] Cons by simp
    then obtain fn' p' where "ac_calls s i = Some (fn', p')" using sent_called [OF ok(1)] by blast
    with True Cons show ?thesis using actor_work.take by blast
  next
    case False
    then have "ac_cancelled s" using ok(2) by (simp add: life_ok_def)
    with k p show ?thesis using actor_work.refused actor_work.abandoned by blast
  qed
qed

lemma stop_enabled:
  assumes "life_ok s" "ac_stops s j = Some p" "p \<noteq> SRet"
  shows "\<exists>s'. actor_work md s s'"
proof (cases p)
  case SCall
  with assms(2) show ?thesis using actor_work.cancel by blast
next
  case SWait
  show ?thesis
  proof (cases "ac_loop s")
    case True
    moreover have "ac_cancelled s" using assms(1,2) SWait by (auto simp: life_ok_def)
    ultimately show ?thesis using actor_work.quit by blast
  next
    case False
    with assms(2) SWait show ?thesis using actor_work.stopped by blast
  qed
qed (use assms in simp)

end
