(* ===== verification/Actor_Theorems.thy ===== *)
theory Actor_Theorems
  imports Room_Actor
begin

text \<open>The properties of the actor behind a room, and two executions of it.\<close>

section \<open>Runs\<close>

lemma work_run:
  assumes "(actor_work md ^^ n) s s'" "calls_ok s" "life_ok s"
  shows "work_left s' + n \<le> work_left s \<and> calls_ok s' \<and> life_ok s'"
  using assms
proof (induction n arbitrary: s')
  case (Suc n)
  then obtain t where t: "(actor_work md ^^ n) s t" "actor_work md t s'" by auto
  with Suc have "work_left t + n \<le> work_left s" "calls_ok t" "life_ok t" by auto
  with work_decreases [OF t(2)] work_calls [OF t(2)] work_life [OF t(2)] show ?case by fastforce
qed simp

lemma work_reach: "(actor_work md ^^ n) s s' \<Longrightarrow> actor_reach md r s \<Longrightarrow> actor_reach md r s'"
proof (induction n arbitrary: s')
  case (Suc n)
  then obtain t where "(actor_work md ^^ n) s t" "actor_work md t s'" by auto
  with Suc show ?case by (blast intro: actor_reach.work)
qed simp

subsection \<open>The closures of the room\<close>

lemma tameI: "(\<And>r r' es a. fn r = (r', es, a) \<Longrightarrow> rm_done r' = rm_done r) \<Longrightarrow> tame fn"
  unfolding tame_def by (metis prod.collapse fst_conv)

lemma closures_tame:
  "tame (join_step md now c u)" "tame (joinReplace_step md now old c u)" "tame (leave_step md c)"
  "tame schedule_step" "tame (handle_step md ctx c op pl)" "tame (\<lambda>r. (r, [], roomInfo r))"
proof -
  show "tame (join_step md now c u)"
  proof (rule tameI)
    fix r r' es a assume "join_step md now c u r = (r', es, a)"
    then show "rm_done r' = rm_done r" using join_step_players(6) [of md now c u r r' es "fst a" "snd a"] by simp
  qed
qed (auto intro!: tameI simp: joinReplace_step_fields(5) leave_step_fields(5) same_coreD [OF schedule_step_core]
      same_coreD [OF handle_step_core])

subsection \<open>A join that runs after its caller has been told that it did not\<close>

definition joiner :: "(unit, goerror option \<times> bool) closure" where
  "joiner = join_step (plainModule ()) 5 1 ''u''"

definition hall :: "dpc \<Rightarrow> bool \<Rightarrow> (uint64, Player) gomap \<Rightarrow> nat list \<Rightarrow> (unit, goerror option \<times> bool) actor" where
  "hall p ranp ps inb = \<lparr>ac_room = demo_room ps False, ac_inbox = inb, ac_cancelled = (p = DRet False), ac_loop = True,
     ac_calls = [0 \<mapsto> (joiner, p)], ac_token = (if ranp then (\<lambda>_. False)(0 := True) else (\<lambda>_. False)),
     ac_vars = (if ranp then [0 \<mapsto> (None, True)] else Map.empty),
     ac_stops = [0 \<mapsto> if p = DRet False then SWait else SCall], ac_out = [],
     ac_sent = (if p = DSend then [] else [0]), ac_hist = (if ranp then [Ran 0] else [])\<rparr>"

lemma joiner_joins: "joiner (demo_room [] False) = (demo_room [(1, new_player 5 1 ''u'')] False, [], (None, True))"
  by (simp add: joiner_def demo_simps)

lemma hall_called: "actor_reach (plainModule ()) (demo_room [] False) (hall DSend False [] [])"
proof -
  let ?s = "start_actor (demo_room [] False) :: (unit, goerror option \<times> bool) actor"
  have a: "actor_env (plainModule ()) ?s (?s\<lparr>ac_calls := [0 \<mapsto> (joiner, DSend)]\<rparr>)"
    using actor_env.call [of ?s 0 joiner "plainModule ()"] closures_tame(1) [of "plainModule ()" 5 1 "''u''"]
    by (simp add: start_actor_def joiner_def)
  have b: "actor_env (plainModule ()) (?s\<lparr>ac_calls := [0 \<mapsto> (joiner, DSend)]\<rparr>) (hall DSend False [] [])"
    using actor_env.stop [of "?s\<lparr>ac_calls := [0 \<mapsto> (joiner, DSend)]\<rparr>" 0 "plainModule ()"]
    by (simp add: start_actor_def hall_def fun_eq_iff)
  show ?thesis by (rule actor_reach.env [OF actor_reach.env [OF actor_reach.start a] b])
qed

lemma hall_send: "actor_work (plainModule ()) (hall DSend False [] []) (hall DWait False [] [0])"
  using actor_work.send [of "hall DSend False [] []" 0 joiner "plainModule ()"]
  by (simp add: hall_def inboxSize_def set_pc_def)

lemmas hall_sent = actor_reach.work [OF hall_called hall_send]

lemma hall_denied: "actor_reach (plainModule ()) (demo_room [] False) (hall (DRet False) True [(1, new_player 5 1 ''u'')] [])"
proof -
  let ?s = "(hall DWait False [] [0])\<lparr>ac_cancelled := True, ac_stops := [0 \<mapsto> SWait]\<rparr>"
  have a: "actor_work (plainModule ()) (hall DWait False [] [0]) ?s"
    using actor_work.cancel [of "hall DWait False [] [0]" 0 "plainModule ()"] by (simp add: hall_def)
  have b: "actor_work (plainModule ()) ?s (hall (DRet False) False [] [0])"
    using actor_work.abandoned [of ?s 0 joiner "plainModule ()"] by (simp add: hall_def set_pc_def)
  have c: "actor_work (plainModule ()) (hall (DRet False) False [] [0]) (hall (DRet False) True [(1, new_player 5 1 ''u'')] [])"
    using actor_work.take [of "hall (DRet False) False [] [0]" 0 "[]" joiner "DRet False" "plainModule ()"]
    by (simp add: hall_def run_closure_def joiner_joins fun_eq_iff)
  show ?thesis
    by (rule actor_reach.work [OF actor_reach.work [OF actor_reach.work [OF hall_sent a] b] c])
qed

section \<open>Theorems\<close>

text \<open>C4: the actor makes the operations of a room atomic. Whatever callers do at the same time, the room, what it
  has published and what its closures have returned are what the sequential operations give when they
  run one after the other in the order of the history: each closure at most once, in the order in
  which the channel took them, and none after the room is shut down. \<open>do\<close> answers true only to a
  caller whose closure has run, false only after a shutdown began, and \<open>Shutdown\<close> returns only once
  the room is shut down. At most 64 closures wait.\<close>

theorem actor_refines_atomic_operations:
  assumes "actor_reach md r s" "\<not> rm_done r"
  shows "actor_view s = fold (replay md (closure_of s)) (ac_hist s) (r, [], Map.empty) \<and>
    distinct (ran_ids (ac_hist s)) \<and> (\<exists>waiting. ac_sent s = ran_ids (ac_hist s) @ waiting \<and> length waiting \<le> 64) \<and>
    (\<forall>k fn. ac_calls s k = Some (fn, DRet True) \<longrightarrow> k \<in> set (ran_ids (ac_hist s))) \<and>
    (\<forall>k fn. ac_calls s k = Some (fn, DRet False) \<longrightarrow> ac_cancelled s) \<and>
    (\<forall>j. ac_stops s j = Some SRet \<longrightarrow> rm_done (ac_room s))"
proof -
  have ok: "calls_ok s" "life_ok s" "view_ok md r s" using actor_reach_ok [OF assms] by auto
  have "distinct (ran_ids (ac_hist s))" using calls_okD(1,2) [OF ok(1)] by (metis distinct_append)
  moreover have "\<exists>waiting. ac_sent s = ran_ids (ac_hist s) @ waiting \<and> length waiting \<le> 64"
    using calls_okD(1) [OF ok(1)] ok(2) by (intro exI [of _ "ac_inbox s"]) (simp add: life_ok_def inboxSize_def)
  ultimately show ?thesis using ok do_okD(5,6) [OF ok(1)] by (auto simp: view_ok_def life_ok_def)
qed

theorem actor_refines_atomic_operations_witness:
  "fold (replay (plainModule ()) (closure_of (hall (DRet False) True [(1, new_player 5 1 ''u'')] []))) [Ran 0]
     (demo_room [] False, [], Map.empty) = (demo_room [(1, new_player 5 1 ''u'')] False, [], [0 \<mapsto> (None, True)])"
  using actor_refines_atomic_operations [OF hall_denied] by (simp add: demo_room_def hall_def actor_view_def)

text \<open>C11: every caller of a room returns. From any reachable state the calls under way and the loop can take
  only so many more steps as \<open>work_left\<close> says (new calls and ticks apart), and when none of them can
  move every \<open>do\<close> and every \<open>Shutdown\<close> has returned, each \<open>do\<close> with the answer true if nobody shut the
  room down.\<close>

theorem callers_of_a_room_return:
  assumes "actor_reach md r s" "\<not> rm_done r" "(actor_work md ^^ n) s s'"
  shows "n \<le> work_left s \<and>
    ((\<nexists>t. actor_work md s' t) \<longrightarrow>
       (\<forall>k fn p. ac_calls s' k = Some (fn, p) \<longrightarrow> (\<exists>b. p = DRet b \<and> (\<not> ac_cancelled s' \<longrightarrow> b))) \<and>
       (\<forall>j p. ac_stops s' j = Some p \<longrightarrow> p = SRet))"
proof -
  have ok: "calls_ok s" "life_ok s" using actor_reach_ok [OF assms(1,2)] by auto
  have r: "work_left s' + n \<le> work_left s" and ok': "calls_ok s'" "life_ok s'" using work_run [OF assms(3) ok] by auto
  have "(\<exists>b. p = DRet b \<and> (\<not> ac_cancelled s' \<longrightarrow> b))" if "\<nexists>t. actor_work md s' t" "ac_calls s' k = Some (fn, p)" for k fn p
  proof (cases p)
    case (DRet b)
    then show ?thesis using do_okD(6) [OF ok'(1) that(2)] by (cases b) auto
  qed (use work_enabled [OF ok' that(2)] that(1) in blast)+
  moreover have "p = SRet" if "\<nexists>t. actor_work md s' t" "ac_stops s' j = Some p" for j p
    using stop_enabled [OF ok'(2) that(2)] that(1) by blast
  ultimately show ?thesis using r by auto
qed

theorem callers_of_a_room_return_witness:
  "1 \<le> work_left (hall DSend False [] []) \<and> (\<exists>t. actor_work (plainModule ()) (hall DWait False [] [0]) t)"
proof -
  have d: "\<not> rm_done (demo_room [] False :: unit Room)" by (simp add: demo_room_def)
  have "(actor_work (plainModule ()) ^^ 1) (hall DSend False [] []) (hall DWait False [] [0])"
    using hall_send by (simp add: OO_def)
  note c = callers_of_a_room_return [OF hall_called d this]
  have "ac_calls (hall DWait False [] [0]) 0 = Some (joiner, DWait)" by (simp add: hall_def)
  with c show ?thesis by blast
qed

text \<open>C40: but \<open>do\<close> can deny a closure that did run. The caller of a \<open>Join\<close> gives up when the room is being shut
  down while the closure waits in the channel; the loop may still take it, since a \<open>select\<close> with
  several ready cases picks any of them. The caller reports that the room is closed, and the player
  is in the room.\<close>

theorem do_can_deny_a_closure_that_ran:
  "\<exists>s fn. actor_reach (plainModule ()) (demo_room [] False) s \<and> ac_calls s 0 = Some (fn, DRet False) \<and>
     fn = join_step (plainModule ()) 5 1 ''u'' \<and> ac_hist s = [Ran 0] \<and> ac_vars s 0 = Some (None, True) \<and>
     members (ac_room s) = {1}"
  by (rule exI, rule exI [of _ joiner], intro conjI, rule hall_denied)
     (auto simp: hall_def joiner_def demo_room_def members_def mget_def split: if_splits)

end
