(* ===== verification/Manager.thy ===== *)
theory Manager
  imports Room_Steps
begin

text \<open>
  \<^verbatim>\<open>room/manager.go\<close>: the rooms, the room types and the singleton records of the users. An
  operation returns its result, the new manager and its outward effects in order; \<open>Panic\<close> is a
  panic that leaves the operation (an encoder's, or a registration error), with the manager as it
  was left. \<open>now\<close> and \<open>uuid\<close> are as in the rooms; \<open>zero\<close> is the state of a plain room. A nested map of
  \<open>userSessions\<close> that the code changes in place is written back under its user.
\<close>

section \<open>State\<close>

record sessionInfo =
  si_RoomID :: string
  si_ClientID :: uint64

text \<open>A value of the interface \<open>AnyRoom\<close>: the room with its module.\<close>

record 's AnyRoom =
  an_module :: "'s Module"
  an_room :: "'s Room"

type_synonym user_sessions = "(string, (string, sessionInfo) gomap) gomap"

record 's Manager =
  mg_rooms :: "(string, 's AnyRoom) gomap"
  mg_userSessions :: user_sessions
  mg_modules :: "(string, 's Module) gomap"
  mg_opTypes :: "(uint16, string) gomap"

definition NewManager :: "'s Manager" where
  "NewManager = \<lparr>mg_rooms = mempty, mg_userSessions = mempty, mg_modules = mempty, mg_opTypes = mempty\<rparr>"

section \<open>Room types\<close>

text \<open>\<open>%q\<close> of a string of printable characters other than the quote and the backslash.\<close>

definition quoted :: "string \<Rightarrow> string" where
  "quoted s = ''\"'' @ s @ ''\"''"

fun claim_ops :: "string \<Rightarrow> uint16 list \<Rightarrow> (uint16, string) gomap \<Rightarrow> string option \<times> (uint16, string) gomap" where
  "claim_ops t [] opTypes = (None, opTypes)"
| "claim_ops t (op # ops) opTypes =
     (case mget opTypes op of
        Some owner \<Rightarrow>
          (Some (''room: opcode '' @ format_nat (unat op) @ '' claimed by both '' @ quoted owner @
                 '' and '' @ quoted t), opTypes)
      | None \<Rightarrow> claim_ops t ops (mput op t opTypes))"

definition RegisterModule :: "'s Module \<Rightarrow> 's Manager \<Rightarrow> unit outcome \<times> 's Manager" where
  "RegisterModule md m =
     (let t = Module_RoomType md in
      if t = [] then (Panic ''room: module type is required'', m)
      else if mhas (mg_modules m) t
      then (Panic (''room: module type '' @ quoted t @ '' already registered''), m)
      else case claim_ops t (Module_Ops md) (mg_opTypes m) of
             (Some e, opTypes) \<Rightarrow> (Panic e, m\<lparr>mg_opTypes := opTypes\<rparr>)
           | (None, opTypes) \<Rightarrow>
               (Val (), m\<lparr>mg_opTypes := opTypes, mg_modules := mput t md (mg_modules m)\<rparr>))"

definition OpType :: "uint16 \<Rightarrow> 's Manager \<Rightarrow> string option" where
  "OpType op m = mget (mg_opTypes m) op"

section \<open>Rooms\<close>

text \<open>The configuration of a new room of a registered type.\<close>

definition room_config :: "'s Module \<Rightarrow> RoomConfig \<Rightarrow> RoomConfig" where
  "room_config md config =
     (let base = (Module_BaseConfig md)\<lparr>rc_Type := rc_Type config\<rparr>;
          base = (if rc_Name config \<noteq> [] then base\<lparr>rc_Name := rc_Name config\<rparr> else base);
          base = (if rc_MaxPlayers config \<noteq> 0 then base\<lparr>rc_MaxPlayers := rc_MaxPlayers config\<rparr> else base);
          base = (if mlen (rc_Options config) > 0 then base\<lparr>rc_Options := rc_Options config\<rparr> else base)
      in ApplyDefaults base)"

definition set_room :: "string \<Rightarrow> 's AnyRoom \<Rightarrow> 's Manager \<Rightarrow> 's Manager" where
  "set_room i r m = m\<lparr>mg_rooms := mput i r (mg_rooms m)\<rparr>"

definition Manager_Create ::
  "'s \<Rightarrow> string \<Rightarrow> RoomConfig \<Rightarrow> 's Manager \<Rightarrow> 's AnyRoom outcome \<times> 's Manager \<times> eff list" where
  "Manager_Create zero uuid config m =
     (let (md, cfg) =
        (case mget (mg_modules m) (rc_Type config) of
           Some md \<Rightarrow> (md, room_config md config)
         | None \<Rightarrow> (plainModule zero, ApplyDefaults config))
      in case newRoom uuid cfg md of (r0, es) \<Rightarrow>
        let r = Room_setOnEmpty r0;
            m = set_room (rm_id r) \<lparr>an_module = md, an_room = r\<rparr> m
        in case Room_Info r of
             Inl err \<Rightarrow> (Val \<lparr>an_module = md, an_room = r\<rparr>, m, es)
           | Inr info \<Rightarrow>
               (case NewEvent EventRoomCreated (Some (RoomInfo_Marshal info)) of
                  Panic e \<Rightarrow> (Panic e, m, es)
                | Val ev \<Rightarrow> (Val \<lparr>an_module = md, an_room = r\<rparr>, m, es @ [Pub ''lobby'' ev])))"

definition Manager_Find :: "string \<Rightarrow> 's Manager \<Rightarrow> 's AnyRoom option" where
  "Manager_Find i m = mget (mg_rooms m) i"

fun room_infos :: "'s AnyRoom list \<Rightarrow> RoomInfo list" where
  "room_infos [] = []"
| "room_infos (r # rs) =
     (case Room_Info (an_room r) of Inl err \<Rightarrow> room_infos rs | Inr info \<Rightarrow> info # room_infos rs)"

definition Manager_List :: "'s Manager \<Rightarrow> RoomInfo list" where
  "Manager_List m = room_infos (mvals (mg_rooms m))"

fun cleanup_user :: "string \<Rightarrow> string \<Rightarrow> (string, sessionInfo) gomap \<Rightarrow> (string, sessionInfo) gomap" where
  "cleanup_user roomType roomID [] = []"
| "cleanup_user roomType roomID ((typ, sess) # ss) =
     (if typ = roomType \<and> si_RoomID sess = roomID then cleanup_user roomType roomID ss
      else (typ, sess) # cleanup_user roomType roomID ss)"

text \<open>A user's entry is deleted when its last record is.\<close>

fun cleanupSessionType :: "string \<Rightarrow> string \<Rightarrow> user_sessions \<Rightarrow> user_sessions" where
  "cleanupSessionType roomType roomID [] = []"
| "cleanupSessionType roomType roomID ((userID, sessions) # us) =
     (let left = cleanup_user roomType roomID sessions in
      if mlen left < mlen sessions \<and> mlen left = 0 then cleanupSessionType roomType roomID us
      else (userID, left) # cleanupSessionType roomType roomID us)"

definition Manager_Remove :: "string \<Rightarrow> 's Manager \<Rightarrow> unit outcome \<times> 's Manager \<times> eff list" where
  "Manager_Remove i m =
     (case mget (mg_rooms m) i of
        None \<Rightarrow> (Val (), m, [])
      | Some room \<Rightarrow>
          (let roomType = rc_Type (rm_config (an_room room));
               m = m\<lparr>mg_rooms := mdel i (mg_rooms m),
                     mg_userSessions := cleanupSessionType roomType i (mg_userSessions m)\<rparr>
           in case Room_Shutdown (an_module room) (an_room room) of (r, es) \<Rightarrow>
                (case NewEvent EventRoomRemoved (Some (RoomRemoved_Marshal \<lparr>rr_ID = i\<rparr>)) of
                   Panic e \<Rightarrow> (Panic e, m, es)
                 | Val ev \<Rightarrow> (Val (), m, es @ [Pub ''lobby'' ev]))))"

fun shutdown_rooms :: "'s AnyRoom list \<Rightarrow> eff list" where
  "shutdown_rooms [] = []"
| "shutdown_rooms (r # rs) = snd (Room_Shutdown (an_module r) (an_room r)) @ shutdown_rooms rs"

definition Manager_ShutdownAll :: "'s Manager \<Rightarrow> 's Manager \<times> eff list" where
  "Manager_ShutdownAll m =
     (m\<lparr>mg_rooms := mempty, mg_userSessions := mempty\<rparr>, shutdown_rooms (mvals (mg_rooms m)))"

section \<open>Joining\<close>

text \<open>
  The part of \<open>JoinRoom\<close> under the lock: an early error, or the session to replace, with the records
  as they are then. The record of the new session is written before the join.
\<close>

definition reserve ::
  "uint8 \<Rightarrow> string \<Rightarrow> string \<Rightarrow> uint64 \<Rightarrow> string \<Rightarrow> user_sessions \<Rightarrow>
   (goerror + sessionInfo option) \<times> user_sessions" where
  "reserve singletonMode roomType userID clientID roomID us =
     (if singletonMode = SingletonAllow then (Inr None, us)
      else
        let sessions = (case mget us userID of None \<Rightarrow> mempty | Some ss \<Rightarrow> ss);
            us = (if mget us userID = None then mput userID mempty us else us);
            oldSess = mget sessions roomType;
            taken = (case oldSess of None \<Rightarrow> False
                     | Some s \<Rightarrow> si_RoomID s \<noteq> roomID \<or> si_ClientID s \<noteq> clientID);
            us' = mput userID (mput roomType \<lparr>si_RoomID = roomID, si_ClientID = clientID\<rparr> sessions) us
        in if taken \<and> singletonMode = SingletonReject then (Inl ErrAlreadyInRoomOfType, us)
           else if taken \<and> singletonMode = SingletonReplace then (Inr oldSess, us')
           else (Inr None, us'))"

text \<open>Undoing the record of a failed join.\<close>

definition rollback :: "uint8 \<Rightarrow> string \<Rightarrow> string \<Rightarrow> uint64 \<Rightarrow> user_sessions \<Rightarrow> user_sessions" where
  "rollback singletonMode roomType userID clientID us =
     (if singletonMode = SingletonAllow then us
      else case mget us userID of
             None \<Rightarrow> us
           | Some sessions \<Rightarrow>
               (case mget sessions roomType of
                  None \<Rightarrow> us
                | Some cur \<Rightarrow>
                    if si_ClientID cur = clientID
                    then let sessions = mdel roomType sessions in
                         if mlen sessions = 0 then mdel userID us else mput userID sessions us
                    else us))"

definition kicked_event :: "string \<Rightarrow> Event outcome" where
  "kicked_event roomID =
     NewEvent EventRoomKicked (Some (Kicked_Marshal \<lparr>kd_Reason = ''replaced'', kd_RoomID = roomID\<rparr>))"

definition kick :: "uint64 \<Rightarrow> string \<Rightarrow> 's Manager \<Rightarrow> eff list \<Rightarrow> goerror option outcome \<times> 's Manager \<times> eff list" where
  "kick oldClientID roomID m es =
     (case kicked_event roomID of
        Panic e \<Rightarrow> (Panic e, m, es)
      | Val ev \<Rightarrow> (Val None, m, es @ [Pub (clientTopic oldClientID) ev]))"

text \<open>The join itself, after the lock is released: \<open>joinErr\<close>, the rooms and the effects.\<close>

definition join_or_replace ::
  "int \<Rightarrow> string \<Rightarrow> uint64 \<Rightarrow> string \<Rightarrow> 's AnyRoom \<Rightarrow> sessionInfo option \<Rightarrow> 's Manager \<Rightarrow>
   goerror option outcome \<times> 's Manager \<times> eff list" where
  "join_or_replace now userID clientID roomID r replaced m =
     (case replaced of
        Some old \<Rightarrow>
          if si_RoomID old = roomID
          then (case Room_JoinReplace (an_module r) now (si_ClientID old) clientID userID (an_room r) of
                  (res, r', es) \<Rightarrow>
                    (let m = set_room roomID (r\<lparr>an_room := r'\<rparr>) m in
                     if res = Val None then kick (si_ClientID old) roomID m es else (res, m, es)))
          else (case Room_Join (an_module r) now clientID userID (an_room r) of
                  (res, r', es) \<Rightarrow>
                    (let m = set_room roomID (r\<lparr>an_room := r'\<rparr>) m in
                     if res = Val None
                     then (case Manager_Find (si_RoomID old) m of
                             None \<Rightarrow> kick (si_ClientID old) roomID m es
                           | Some o' \<Rightarrow>
                               (case Room_Leave (an_module o') (si_ClientID old) (an_room o') of
                                  (Panic e, or', es') \<Rightarrow>
                                    (Panic e, set_room (si_RoomID old) (o'\<lparr>an_room := or'\<rparr>) m, es @ es')
                                | (Val u, or', es') \<Rightarrow>
                                    kick (si_ClientID old) roomID
                                      (set_room (si_RoomID old) (o'\<lparr>an_room := or'\<rparr>) m) (es @ es')))
                     else (res, m, es)))
      | None \<Rightarrow>
          (case Room_Join (an_module r) now clientID userID (an_room r) of
             (res, r', es) \<Rightarrow> (res, set_room roomID (r\<lparr>an_room := r'\<rparr>) m, es)))"

definition Manager_JoinRoom ::
  "int \<Rightarrow> string \<Rightarrow> uint64 \<Rightarrow> string \<Rightarrow> 's Manager \<Rightarrow> (goerror + RoomInfo) outcome \<times> 's Manager \<times> eff list" where
  "Manager_JoinRoom now userID clientID roomID m =
     (case mget (mg_rooms m) roomID of
        None \<Rightarrow> (Val (Inl ErrRoomNotFound), m, [])
      | Some r \<Rightarrow>
          (let singletonMode = rc_SingletonMode (rm_config (an_room r));
               roomType = rc_Type (rm_config (an_room r))
           in case reserve singletonMode roomType userID clientID roomID (mg_userSessions m) of
                (Inl err, us) \<Rightarrow> (Val (Inl err), m\<lparr>mg_userSessions := us\<rparr>, [])
              | (Inr replaced, us) \<Rightarrow>
                  (case join_or_replace now userID clientID roomID r replaced (m\<lparr>mg_userSessions := us\<rparr>) of
                     (Panic e, m, es) \<Rightarrow> (Panic e, m, es)
                   | (Val (Some joinErr), m, es) \<Rightarrow>
                       (Val (Inl joinErr),
                        m\<lparr>mg_userSessions := rollback singletonMode roomType userID clientID (mg_userSessions m)\<rparr>, es)
                   | (Val None, m, es) \<Rightarrow>
                       (case mget (mg_rooms m) roomID of
                          None \<Rightarrow> (Val (Inl ErrRoomNotFound), m, es)
                        | Some r \<Rightarrow>
                            (case Room_Info (an_room r) of
                               Inl err \<Rightarrow> (Val (Inl ErrRoomNotFound), m, es)
                             | Inr info \<Rightarrow> (Val (Inr info), m, es))))))"

section \<open>Leaving and messages\<close>

definition drop_session ::
  "uint8 \<Rightarrow> string \<Rightarrow> string \<Rightarrow> uint64 \<Rightarrow> string \<Rightarrow> user_sessions \<Rightarrow> user_sessions" where
  "drop_session singletonMode roomType userID clientID roomID us =
     (if singletonMode = SingletonAllow then us
      else case mget us userID of
             None \<Rightarrow> us
           | Some sessions \<Rightarrow>
               (case mget sessions roomType of
                  None \<Rightarrow> us
                | Some sess \<Rightarrow>
                    if si_RoomID sess = roomID \<and> si_ClientID sess = clientID
                    then let sessions = mdel roomType sessions in
                         if mlen sessions = 0 then mdel userID us else mput userID sessions us
                    else us))"

definition Manager_LeaveRoom ::
  "string \<Rightarrow> uint64 \<Rightarrow> string \<Rightarrow> 's Manager \<Rightarrow> unit outcome \<times> 's Manager \<times> eff list" where
  "Manager_LeaveRoom userID clientID roomID m =
     (case mget (mg_rooms m) roomID of
        None \<Rightarrow> (Val (), m, [])
      | Some r \<Rightarrow>
          (let config = rm_config (an_room r);
               m = m\<lparr>mg_userSessions := drop_session (rc_SingletonMode config) (rc_Type config)
                       userID clientID roomID (mg_userSessions m)\<rparr>
           in case Room_Leave (an_module r) clientID (an_room r) of
                (res, r', es) \<Rightarrow> (res, set_room roomID (r\<lparr>an_room := r'\<rparr>) m, es)))"

text \<open>The loop of \<open>DispatchRoomMessage\<close>: the last room of the type among the client's rooms, and the count.\<close>

fun match_rooms ::
  "string \<Rightarrow> string list \<Rightarrow> ('s AnyRoom \<times> string) option \<Rightarrow> nat \<Rightarrow> 's Manager \<Rightarrow>
   ('s AnyRoom \<times> string) option \<times> nat" where
  "match_rooms typ [] match count m = (match, count)"
| "match_rooms typ (i # ids) match count m =
     (case mget (mg_rooms m) i of
        None \<Rightarrow> match_rooms typ ids match count m
      | Some r \<Rightarrow>
          if rc_Type (rm_config (an_room r)) = typ then match_rooms typ ids (Some (r, i)) (Suc count) m
          else match_rooms typ ids match count m)"

text \<open>\<open>None\<close> as the result stands for \<open>handled = false\<close>.\<close>

definition DispatchRoomMessage ::
  "bool \<Rightarrow> uint64 \<Rightarrow> uint16 \<Rightarrow> bytes \<Rightarrow> string list \<Rightarrow> 's Manager \<Rightarrow>
   (goerror + marshaler) option \<times> 's Manager \<times> eff list" where
  "DispatchRoomMessage ctx clientID op payload clientRoomIDs m =
     (case OpType op m of
        None \<Rightarrow> (None, m, [])
      | Some typ \<Rightarrow>
          (case match_rooms typ clientRoomIDs None 0 m of
             (None, count) \<Rightarrow> (Some (Inl ErrNotInRoom), m, [])
           | (Some (r, i), count) \<Rightarrow>
               if count = 1
               then (case Room_HandleMessage (an_module r) ctx clientID op payload (an_room r) of
                       (res, r', es) \<Rightarrow> (Some res, set_room i (r\<lparr>an_room := r'\<rparr>) m, es))
               else (Some (Inl ErrAmbiguousRoom), m, [])))"

end
