(* ===== verification/Manager_Props.thy ===== *)
theory Manager_Props
  imports Manager
begin

text \<open>
  Lemmas on the manager. The nested map of singleton records is a keyed store over pairs of user and
  room type: it is interpreted as one, and the steps of \<open>JoinRoom\<close>, \<open>LeaveRoom\<close> and \<open>Remove\<close> on it are
  a put or a delete of that store. The invariant of the manager then ties the records to the rooms.
\<close>

section \<open>The singleton records as a keyed store\<close>

definition record_of :: "user_sessions \<Rightarrow> string \<times> string \<Rightarrow> sessionInfo option" where
  "record_of us k = (case mget us (fst k) of None \<Rightarrow> None | Some ss \<Rightarrow> mget ss (snd k))"

definition sess_put :: "string \<times> string \<Rightarrow> sessionInfo \<Rightarrow> user_sessions \<Rightarrow> user_sessions" where
  "sess_put k s us =
     mput (fst k) (mput (snd k) s (case mget us (fst k) of None \<Rightarrow> mempty | Some ss \<Rightarrow> ss)) us"

definition sess_del :: "string \<times> string \<Rightarrow> user_sessions \<Rightarrow> user_sessions" where
  "sess_del k us =
     (case mget us (fst k) of
        None \<Rightarrow> us
      | Some ss \<Rightarrow> (if mlen (mdel (snd k) ss) = 0 then mdel (fst k) us
                    else mput (fst k) (mdel (snd k) ss) us))"

definition us_wf :: "user_sessions \<Rightarrow> bool" where
  "us_wf us \<longleftrightarrow> mwf us \<and> (\<forall>u ss. mget us u = Some ss \<longrightarrow> mwf ss \<and> ss \<noteq> [])"

lemma us_wf_put: "us_wf us \<Longrightarrow> us_wf (sess_put k s us)"
  by (auto simp: us_wf_def sess_put_def split: option.splits)

lemma us_wf_del: "us_wf us \<Longrightarrow> us_wf (sess_del k us)"
  by (auto simp: us_wf_def sess_del_def split: option.splits if_splits)

lemma record_of_put:
  "record_of (sess_put k s us) k' = (if k' = k then Some s else record_of us k')"
  by (auto simp: record_of_def sess_put_def prod_eq_iff split: option.splits)

lemma record_of_del:
  "record_of (sess_del k us) k' = (if k' = k then None else record_of us k')"
proof (cases "mget us (fst k)")
  case None
  then show ?thesis by (auto simp: record_of_def sess_del_def)
next
  case (Some ss)
  have "mget ss t = None" if "mdel (snd k) ss = []" "t \<noteq> snd k" for t
    using that mget_mdel [of "snd k" ss] by (metis fun_upd_other mget_Nil)
  with Some show ?thesis
    by (auto simp: record_of_def sess_del_def prod_eq_iff split: option.splits)
qed

interpretation ss: kv_store mempty sess_put record_of us_wf sess_del
  by unfold_locales (auto simp: us_wf_put us_wf_del record_of_put record_of_del,
      simp_all add: record_of_def us_wf_def)

lemma sessionInfo_eq: "s = \<lparr>si_RoomID = i, si_ClientID = c\<rparr> \<longleftrightarrow> si_RoomID s = i \<and> si_ClientID s = c"
  by (cases s) auto

lemma reserve_eq:
  "reserve md t u c i us =
     (if md = SingletonAllow then (Inr None, us)
      else case record_of us (u, t) of
        None \<Rightarrow> (Inr None, sess_put (u, t) \<lparr>si_RoomID = i, si_ClientID = c\<rparr> us)
      | Some s \<Rightarrow>
          if s = \<lparr>si_RoomID = i, si_ClientID = c\<rparr> then (Inr None, sess_put (u, t) \<lparr>si_RoomID = i, si_ClientID = c\<rparr> us)
          else if md = SingletonReject then (Inl ErrAlreadyInRoomOfType, us)
          else (Inr (if md = SingletonReplace then Some s else None),
                sess_put (u, t) \<lparr>si_RoomID = i, si_ClientID = c\<rparr> us))"
proof -
  have put: "mput u x (if mget us u = None then mput u mempty us else us) = mput u x us" for x
    by simp
  show ?thesis
    unfolding reserve_def sess_put_def record_of_def Let_def put
    by (auto simp: sessionInfo_eq split: option.splits)
qed

lemma rollback_eq:
  "rollback md t u c us =
     (if md \<noteq> SingletonAllow \<and> (\<exists>s. record_of us (u, t) = Some s \<and> si_ClientID s = c)
      then sess_del (u, t) us else us)"
  by (auto simp: rollback_def record_of_def sess_del_def Let_def split: option.splits)

lemma drop_session_eq:
  "drop_session md t u c i us =
     (if md \<noteq> SingletonAllow \<and> record_of us (u, t) = Some \<lparr>si_RoomID = i, si_ClientID = c\<rparr>
      then sess_del (u, t) us else us)"
  by (auto simp: drop_session_def record_of_def sess_del_def Let_def sessionInfo_eq split: option.splits)

subsection \<open>Cleaning up after a room\<close>

lemma cleanup_user_filter:
  "cleanup_user T i ss = filter (\<lambda>(t, s). \<not> (t = T \<and> si_RoomID s = i)) ss"
  by (induction T i ss rule: cleanup_user.induct) auto

lemma mwf_filter: "mwf m \<Longrightarrow> mwf (filter P m)"
  by (auto simp: mwf_def distinct_map_filter)

lemma mget_filter:
  "mwf m \<Longrightarrow> mget (filter P m) k = (case mget m k of None \<Rightarrow> None | Some v \<Rightarrow> if P (k, v) then Some v else None)"
proof (induction m)
  case (Cons e m)
  moreover have "fst e \<notin> fst ` set m \<Longrightarrow> map_of (filter P m) (fst e) = None"
    by (auto simp: map_of_eq_None_iff)
  moreover have "fst e \<notin> fst ` set m \<Longrightarrow> map_of m (fst e) = None"
    by (auto simp: map_of_eq_None_iff)
  ultimately show ?case
    by (cases e) (auto simp: mget_def mwf_def split: option.splits)
qed simp

lemma mget_Cons: "mget ((k', v) # m) k = (if k' = k then Some v else mget m k)"
  by (simp add: mget_def)

lemma cleanup_keys: "k \<notin> fst ` set us \<Longrightarrow> k \<notin> fst ` set (cleanupSessionType T i us)"
  by (induction T i us rule: cleanupSessionType.induct) (auto simp: Let_def)

lemma mget_cleanup:
  assumes "us_wf us"
  shows "mget (cleanupSessionType T i us) u =
    (case mget us u of None \<Rightarrow> None | Some ss \<Rightarrow>
       let l = cleanup_user T i ss in if l = [] then None else Some l)"
  using assms
proof (induction T i us rule: cleanupSessionType.induct)
  case (2 T i v ss us)
  have wf: "us_wf us" and v: "v \<notin> fst ` set us" and ne: "ss \<noteq> []"
  proof -
    show "v \<notin> fst ` set us" using 2(3) by (simp add: us_wf_def mwf_def)
    then show "us_wf us" using 2(3)
      by (auto simp: us_wf_def mwf_def mget_def split: if_splits) (metis map_of_SomeD image_eqI fst_conv)+
    show "ss \<noteq> []" using 2(3) by (simp add: us_wf_def mget_Cons) metis
  qed
  have n: "mget (cleanupSessionType T i us) v = None"
    using cleanup_keys [OF v, of T i] by (simp add: mget_def map_of_eq_None_iff)
  have l: "length (cleanup_user T i ss) < length ss" if "cleanup_user T i ss = []"
    using that ne by simp
  show ?case
  proof (cases "cleanup_user T i ss = []")
    case True
    with l have "cleanupSessionType T i ((v, ss) # us) = cleanupSessionType T i us"
      by (simp add: Let_def mlen_def)
    with 2(1,2) wf n True ne show ?thesis
      by (auto simp: mget_Cons Let_def mlen_def split: option.splits)
  next
    case False
    with 2(1,2) wf show ?thesis
      by (auto simp: mget_Cons Let_def mlen_def split: option.splits)
  qed
qed simp

lemma us_wf_cleanup:
  assumes "us_wf us"
  shows "us_wf (cleanupSessionType T i us)"
proof -
  have "mwf us \<Longrightarrow> mwf (cleanupSessionType T i us)"
    by (induction T i us rule: cleanupSessionType.induct)
       (auto simp: mwf_def Let_def dest: cleanup_keys [rotated])
  with assms show ?thesis
    by (auto simp: us_wf_def mget_cleanup [OF assms] cleanup_user_filter Let_def
        split: option.splits if_splits intro: mwf_filter)
qed

lemma record_of_cleanup:
  assumes "us_wf us"
  shows "record_of (cleanupSessionType T i us) k =
    (case record_of us k of None \<Rightarrow> None
     | Some s \<Rightarrow> if snd k = T \<and> si_RoomID s = i then None else Some s)"
proof (cases "mget us (fst k)")
  case (Some ss)
  then have wf: "mwf ss" using assms by (auto simp: us_wf_def)
  have f: "mget (cleanup_user T i ss) t =
      (case mget ss t of None \<Rightarrow> None | Some s \<Rightarrow> if t = T \<and> si_RoomID s = i then None else Some s)" for t
    by (auto simp: cleanup_user_filter mget_filter [OF wf] split: option.splits)
  have "cleanup_user T i ss = [] \<Longrightarrow> mget (cleanup_user T i ss) (snd k) = None" by simp
  with Some f [of "snd k"] show ?thesis
    by (auto simp: record_of_def mget_cleanup [OF assms] Let_def split: option.splits)
qed (simp add: record_of_def mget_cleanup [OF assms])

section \<open>Who is where\<close>

definition at_room :: "'s Manager \<Rightarrow> string \<Rightarrow> uint64 \<Rightarrow> bool" where
  "at_room m i c \<longleftrightarrow> (\<exists>r. mget (mg_rooms m) i = Some r \<and> c \<in> members (an_room r))"

definition cfg_at :: "'s Manager \<Rightarrow> string \<Rightarrow> RoomConfig option" where
  "cfg_at m i = map_option (\<lambda>r. rm_config (an_room r)) (mget (mg_rooms m) i)"

definition any_ok :: "string \<Rightarrow> 's AnyRoom \<Rightarrow> bool" where
  "any_ok i r \<longleftrightarrow> rm_id (an_room r) = i \<and> room_wf (an_room r) \<and> \<not> rm_done (an_room r) \<and>
     rm_onEmpty (an_room r) \<and> quiet_leave (an_module r)"

text \<open>The rooms of a manager are live, well-formed and stored under their own IDs.\<close>

definition rooms_ok :: "'s Manager \<Rightarrow> bool" where
  "rooms_ok m \<longleftrightarrow> mwf (mg_rooms m) \<and> (\<forall>i r. mget (mg_rooms m) i = Some r \<longrightarrow> any_ok i r)"

lemma rooms_okD: "rooms_ok m \<Longrightarrow> mget (mg_rooms m) i = Some r \<Longrightarrow> any_ok i r"
  by (auto simp: rooms_ok_def)

lemma set_room_simps [simp]:
  "mg_rooms (set_room i r m) = mput i r (mg_rooms m)"
  "mg_userSessions (set_room i r m) = mg_userSessions m"
  "mg_modules (set_room i r m) = mg_modules m" "mg_opTypes (set_room i r m) = mg_opTypes m"
  by (simp_all add: set_room_def)

lemma at_room_set: "at_room (set_room i r m) j x \<longleftrightarrow> (if j = i then x \<in> members (an_room r) else at_room m j x)"
  by (simp add: at_room_def)

lemma cfg_at_set: "cfg_at (set_room i r m) j = (if j = i then Some (rm_config (an_room r)) else cfg_at m j)"
  by (simp add: cfg_at_def)

lemma rooms_ok_set: "rooms_ok m \<Longrightarrow> any_ok i r \<Longrightarrow> rooms_ok (set_room i r m)"
  by (auto simp: rooms_ok_def split: if_splits)

lemma at_roomI: "mget (mg_rooms m) i = Some r \<Longrightarrow> at_room m i x \<longleftrightarrow> x \<in> members (an_room r)"
  by (simp add: at_room_def)

lemma sessions_upd [simp]:
  "at_room (m\<lparr>mg_userSessions := us\<rparr>) = at_room m" "cfg_at (m\<lparr>mg_userSessions := us\<rparr>) = cfg_at m"
  "rooms_ok (m\<lparr>mg_userSessions := us\<rparr>) \<longleftrightarrow> rooms_ok m"
  by (auto simp: at_room_def cfg_at_def rooms_ok_def fun_eq_iff)

text \<open>A room after one of its operations is as good as before.\<close>

lemma any_ok_join:
  assumes "any_ok i r" "Room_Join (an_module r) now c u (an_room r) = (res, r', es)"
  shows "any_ok i (r\<lparr>an_room := r'\<rparr>)" and "rm_config r' = rm_config (an_room r)"
  using assms ar.join_inv [OF assms(2)] ar.join_ident [OF assms(2)] by (auto simp: any_ok_def)

lemma any_ok_replace:
  assumes "any_ok i r" "Room_JoinReplace (an_module r) now old c u (an_room r) = (res, r', es)"
  shows "any_ok i (r\<lparr>an_room := r'\<rparr>)" and "rm_config r' = rm_config (an_room r)"
  using assms ar.replace_inv [OF assms(2)] ar.replace_ident [OF assms(2)] by (auto simp: any_ok_def)

lemma any_ok_leave:
  assumes "any_ok i r" "Room_Leave (an_module r) c (an_room r) = (res, r', es)"
  shows "any_ok i (r\<lparr>an_room := r'\<rparr>)" and "rm_config r' = rm_config (an_room r)"
    and "members r' = members (an_room r) - {c}"
  using assms ar.leave_inv [OF assms(2)] ar.leave_ident [OF assms(2)] ar.leave_mem [OF assms(2)]
  by (auto simp: any_ok_def)

lemma any_ok_handle:
  assumes "any_ok i r" "Room_HandleMessage (an_module r) ctx c op pl (an_room r) = (res, r', es)"
  shows "any_ok i (r\<lparr>an_room := r'\<rparr>)" and "rm_config r' = rm_config (an_room r)"
    and "members r' = members (an_room r)"
  using assms ar.handle_inv [OF assms(2)] ar.handle_ident [OF assms(2)] ar.handle_mem [OF assms(2)]
  by (auto simp: any_ok_def)

text \<open>A swap in a room of which the old client is a member happens, or is refused by a closed room.\<close>

lemma replace_outcome:
  assumes "any_ok i r" "old \<in> members (an_room r)"
    and "Room_JoinReplace (an_module r) now old c u (an_room r) = (res, r', es)"
  shows "(\<exists>e. res = Val (Some e)) \<and> r' = an_room r \<and> es = [] \<or>
    (\<forall>e. res \<noteq> Val (Some e)) \<and> members r' = insert c (members (an_room r) - {old})"
proof -
  have nd: "\<not> rm_done (an_room r)" and wf: "room_wf (an_room r)" and q: "quiet_leave (an_module r)"
    using assms(1) by (auto simp: any_ok_def)
  show ?thesis
  proof (cases "rm_isOpen (an_room r)")
    case False
    then show ?thesis using assms(3) nd
      by (auto simp: Room_JoinReplace_def room_do_def joinReplace_step_cases)
  next
    case True
    obtain r1 es1 pan1 where d: "drop_old (an_module r) old (an_room r) = (r1, es1, pan1)"
      by (metis prod_cases3)
    have "\<not> at_capacity r1" using drop_old_room [OF d wf] assms(2) by (simp add: hasPlayer_members)
    moreover obtain r3 es3 pan3 where h: "player_hook (md_onJoin (an_module r)) (new_player now c u)
        (r1\<lparr>rm_players := mput c (new_player now c u) (rm_players r1), rm_emptyTimer := None\<rparr>) = (r3, es3, pan3)"
      by (metis prod_cases3)
    ultimately have st: "joinReplace_step (an_module r) now old c u (an_room r) = (r3, es1 @ es3, (None, False))"
      using True d quiet_drop [OF q d] by (simp add: joinReplace_step_cases)
    then have "r' = r3" "\<And>e. res \<noteq> Val (Some e)" using assms(3) nd
      by (auto simp: Room_JoinReplace_def room_do_def split: outcome.splits)
    then show ?thesis using add_player_hook(6) [OF h] drop_old_fields(6) [OF d] by simp
  qed
qed

section \<open>JoinRoom\<close>

lemma kick_fields:
  "kick c i m es = (res, m', es') \<Longrightarrow> m' = m \<and> (\<forall>e. res \<noteq> Val (Some e))"
  by (auto simp: kick_def split: outcome.splits)

lemma join_errors:
  "Room_Join md now c u r = (Val (Some e), r', es) \<Longrightarrow> e = ErrRoomClosed \<or> e = ErrRoomFull"
  "Room_JoinReplace md now old c u r = (Val (Some e), r', es) \<Longrightarrow> e = ErrRoomClosed \<or> e = ErrRoomFull"
  by (auto simp: Room_Join_def Room_JoinReplace_def room_do_def join_step_cases joinReplace_step_cases
      split: if_splits prod.splits option.splits bool.splits outcome.splits)

lemma join_or_replace_errors:
  "join_or_replace now u c i r rep m = (Val (Some e), m', es) \<Longrightarrow> e = ErrRoomClosed \<or> e = ErrRoomFull"
  by (auto simp: join_or_replace_def Let_def split: option.splits prod.splits if_splits outcome.splits
      dest: join_errors kick_fields)

text \<open>
  What the join does to the rooms: \<open>moved m m' gone i c\<close> says that the members of \<open>m'\<close> are those of \<open>m\<close>
  without the client \<open>gone\<close> names, together with \<open>c\<close> in the room \<open>i\<close>, and that nothing else changed.
\<close>

definition moved :: "'s Manager \<Rightarrow> 's Manager \<Rightarrow> (string \<times> uint64) option \<Rightarrow> string \<Rightarrow> uint64 \<Rightarrow> bool" where
  "moved m m' gone i c \<longleftrightarrow>
     (\<forall>j x. at_room m' j x \<longleftrightarrow> j = i \<and> x = c \<or> at_room m j x \<and> gone \<noteq> Some (j, x)) \<and>
     cfg_at m' = cfg_at m \<and> mg_userSessions m' = mg_userSessions m \<and> rooms_ok m'"

definition stayed :: "'s Manager \<Rightarrow> 's Manager \<Rightarrow> bool" where
  "stayed m m' \<longleftrightarrow> at_room m' = at_room m \<and> cfg_at m' = cfg_at m \<and>
     mg_userSessions m' = mg_userSessions m \<and> rooms_ok m'"

lemma join_moved:
  assumes "rooms_ok m" "mget (mg_rooms m) i = Some r"
    and "Room_Join (an_module r) now c u (an_room r) = (res, r', es)"
  shows "if \<exists>e. res = Val (Some e) then stayed m (set_room i (r\<lparr>an_room := r'\<rparr>) m) \<and> es = []
    else moved m (set_room i (r\<lparr>an_room := r'\<rparr>) m) None i c"
proof -
  have ok: "any_ok i r" by (rule rooms_okD [OF assms(1,2)])
  note j = any_ok_join [OF ok assms(3)]
  have cfg: "cfg_at (set_room i (r\<lparr>an_room := r'\<rparr>) m) = cfg_at m"
    using assms(2) j(2) by (auto simp: cfg_at_def fun_eq_iff)
  have rok: "rooms_ok (set_room i (r\<lparr>an_room := r'\<rparr>) m)" by (rule rooms_ok_set [OF assms(1) j(1)])
  show ?thesis
  proof (cases "\<exists>e. res = Val (Some e)")
    case True
    then have "r' = an_room r" "es = []" using ar.join_error assms(3) by blast+
    with True cfg rok assms(2) show ?thesis
      by (auto simp: stayed_def fun_eq_iff at_room_set at_room_def)
  next
    case False
    then have "members r' = insert c (members (an_room r))"
      using ar.join_ok [OF assms(3)] ar.join_mem [OF assms(3)] by auto
    with False cfg rok assms(2) show ?thesis by (auto simp: moved_def at_room_set at_roomI)
  qed
qed

lemma replace_moved:
  assumes "rooms_ok m" "mget (mg_rooms m) i = Some r" "at_room m i old"
    and "Room_JoinReplace (an_module r) now old c u (an_room r) = (res, r', es)"
  shows "if \<exists>e. res = Val (Some e) then stayed m (set_room i (r\<lparr>an_room := r'\<rparr>) m) \<and> es = []
    else moved m (set_room i (r\<lparr>an_room := r'\<rparr>) m) (Some (i, old)) i c"
proof -
  have ok: "any_ok i r" by (rule rooms_okD [OF assms(1,2)])
  note j = any_ok_replace [OF ok assms(4)]
  have cfg: "cfg_at (set_room i (r\<lparr>an_room := r'\<rparr>) m) = cfg_at m"
    using assms(2) j(2) by (auto simp: cfg_at_def fun_eq_iff)
  have rok: "rooms_ok (set_room i (r\<lparr>an_room := r'\<rparr>) m)" by (rule rooms_ok_set [OF assms(1) j(1)])
  have "old \<in> members (an_room r)" using assms(2,3) by (simp add: at_roomI)
  from replace_outcome [OF ok this assms(4)] cfg rok assms(2) show ?thesis
    by (auto simp: stayed_def moved_def fun_eq_iff at_room_set at_roomI)
qed

lemma leave_moved:
  assumes "rooms_ok m" "mget (mg_rooms m) i = Some r"
    and "Room_Leave (an_module r) c (an_room r) = (res, r', es)"
  shows "rooms_ok (set_room i (r\<lparr>an_room := r'\<rparr>) m)" "cfg_at (set_room i (r\<lparr>an_room := r'\<rparr>) m) = cfg_at m"
    "at_room (set_room i (r\<lparr>an_room := r'\<rparr>) m) j x \<longleftrightarrow> at_room m j x \<and> (j, x) \<noteq> (i, c)"
proof -
  have ok: "any_ok i r" by (rule rooms_okD [OF assms(1,2)])
  note l = any_ok_leave [OF ok assms(3)]
  show "rooms_ok (set_room i (r\<lparr>an_room := r'\<rparr>) m)" by (rule rooms_ok_set [OF assms(1) l(1)])
  show "cfg_at (set_room i (r\<lparr>an_room := r'\<rparr>) m) = cfg_at m"
    using assms(2) l(2) by (auto simp: cfg_at_def fun_eq_iff)
  show "at_room (set_room i (r\<lparr>an_room := r'\<rparr>) m) j x \<longleftrightarrow> at_room m j x \<and> (j, x) \<noteq> (i, c)"
    using assms(2) l(3) by (auto simp: at_room_set at_roomI)
qed

lemma join_or_replace_moved:
  assumes "rooms_ok m" "mget (mg_rooms m) i = Some r"
    and "\<And>s. replaced = Some s \<Longrightarrow> at_room m (si_RoomID s) (si_ClientID s)"
    and "join_or_replace now u c i r replaced m = (res, m', es)"
  shows "if \<exists>e. res = Val (Some e) then stayed m m' \<and> es = []
    else \<exists>gone. moved m m' gone i c \<and>
      (gone = None \<and> res \<noteq> Val None \<or> gone = map_option (\<lambda>s. (si_RoomID s, si_ClientID s)) replaced)"
proof (cases replaced)
  case None
  obtain a r' es' where j: "Room_Join (an_module r) now c u (an_room r) = (a, r', es')" by (metis prod_cases3)
  with None assms(4) join_moved [OF assms(1,2) j] show ?thesis by (auto simp: join_or_replace_def)
next
  case (Some s)
  show ?thesis
  proof (cases "si_RoomID s = i")
    case True
    obtain a r' es' where j: "Room_JoinReplace (an_module r) now (si_ClientID s) c u (an_room r) = (a, r', es')"
      by (metis prod_cases3)
    have "at_room m i (si_ClientID s)" using assms(3) [OF Some] True by simp
    from replace_moved [OF assms(1,2) this j] assms(4) Some True j show ?thesis
      by (auto simp: join_or_replace_def Let_def split: if_splits dest!: kick_fields)
  next
    case False
    obtain a r' es' where j: "Room_Join (an_module r) now c u (an_room r) = (a, r', es')" by (metis prod_cases3)
    let ?m = "set_room i (r\<lparr>an_room := r'\<rparr>) m"
    show ?thesis
    proof (cases "a = Val None")
      case n: True
      with join_moved [OF assms(1,2) j] have mv: "moved m ?m None i c" by simp
      from assms(3) [OF Some] obtain ro where ro: "mget (mg_rooms m) (si_RoomID s) = Some ro"
        by (auto simp: at_room_def)
      then have ro': "mget (mg_rooms ?m) (si_RoomID s) = Some ro" using False by simp
      obtain b or' es2 where l: "Room_Leave (an_module ro) (si_ClientID s) (an_room ro) = (b, or', es2)"
        by (metis prod_cases3)
      have b: "b = Val ()" by (rule ar.leave_returns [OF l])
      have k: "kick (si_ClientID s) i (set_room (si_RoomID s) (ro\<lparr>an_room := or'\<rparr>) ?m) (es' @ es2) = (res, m', es)"
        using assms(4) Some False j n ro' l b by (simp add: join_or_replace_def Let_def Manager_Find_def)
      have "rooms_ok ?m" using mv by (simp add: moved_def)
      note ml = leave_moved [OF this ro' l]
      have "moved m (set_room (si_RoomID s) (ro\<lparr>an_room := or'\<rparr>) ?m) (Some (si_RoomID s, si_ClientID s)) i c"
        using ml mv False by (auto simp: moved_def)
      with kick_fields [OF k] Some show ?thesis by auto
    next
      case v: False
      then have "res = a" "m' = ?m" "es = es'"
        using assms(4) Some False j by (auto simp: join_or_replace_def Let_def)
      with join_moved [OF assms(1,2) j] v show ?thesis by auto
    qed
  qed
qed

section \<open>The invariant\<close>

text \<open>
  A singleton record is true: its room exists, is of the record's type and not of the mode
  \<open>SingletonAllow\<close>, and the record's client is a member of it and belongs to the record's user.
  \<open>owner\<close> is the user a connection is logged in as.
\<close>

definition record_true :: "(uint64 \<Rightarrow> string) \<Rightarrow> 's Manager \<Rightarrow> string \<times> string \<Rightarrow> sessionInfo \<Rightarrow> bool" where
  "record_true owner m k s \<longleftrightarrow> owner (si_ClientID s) = fst k \<and> at_room m (si_RoomID s) (si_ClientID s) \<and>
     (\<exists>cf. cfg_at m (si_RoomID s) = Some cf \<and> rc_Type cf = snd k \<and> rc_SingletonMode cf \<noteq> SingletonAllow)"

definition mgr_ok :: "(uint64 \<Rightarrow> string) \<Rightarrow> 's Manager \<Rightarrow> bool" where
  "mgr_ok owner m \<longleftrightarrow> rooms_ok m \<and> us_wf (mg_userSessions m) \<and>
     (\<forall>k s. record_of (mg_userSessions m) k = Some s \<longrightarrow> record_true owner m k s) \<and>
     mwf (mg_modules m) \<and> (\<forall>t md. mget (mg_modules m) t = Some md \<longrightarrow> quiet_leave md)"

lemma mgr_ok_modules: "mgr_ok owner m \<Longrightarrow> mwf (mg_modules m) \<and> (\<forall>t md. mget (mg_modules m) t = Some md \<longrightarrow> quiet_leave md)"
  by (simp add: mgr_ok_def)

lemma mgr_okD:
  assumes "mgr_ok owner m"
  shows "rooms_ok m" "us_wf (mg_userSessions m)"
    "record_of (mg_userSessions m) k = Some s \<Longrightarrow> record_true owner m k s"
  using assms unfolding mgr_ok_def by blast+

text \<open>The invariant of a manager with the modules of a good one.\<close>

lemma mgr_okI:
  assumes "mgr_ok owner m" "mg_modules m' = mg_modules m" "rooms_ok m'" "us_wf (mg_userSessions m')"
    and "\<And>k s. record_of (mg_userSessions m') k = Some s \<Longrightarrow> record_true owner m' k s"
  shows "mgr_ok owner m'"
  using assms by (simp add: mgr_ok_def)

lemma record_true_stayed: "stayed m m' \<Longrightarrow> record_true owner m' = record_true owner m"
  by (simp add: record_true_def stayed_def fun_eq_iff)

lemma join_or_replace_modules:
  "join_or_replace now u c i r rep m = (res, m', es) \<Longrightarrow> mg_modules m' = mg_modules m \<and> mg_opTypes m' = mg_opTypes m"
  by (auto simp: join_or_replace_def Let_def split: option.splits prod.splits if_splits outcome.splits
      dest!: kick_fields)

lemma record_true_moved:
  assumes "moved m m' gone i c" "record_true owner m k s" "gone \<noteq> Some (si_RoomID s, si_ClientID s)"
  shows "record_true owner m' k s"
  using assms by (auto simp: record_true_def moved_def)

text \<open>The record written for a join that succeeded.\<close>

lemma mgr_ok_joined:
  assumes ok: "mgr_ok owner m" and cfg: "cfg_at m i = Some cf" "rc_SingletonMode cf \<noteq> SingletonAllow"
    and mv: "moved (m\<lparr>mg_userSessions := us\<rparr>) m' gone i c" and u: "owner c = u"
    and us: "us = sess_put (u, rc_Type cf) \<lparr>si_RoomID = i, si_ClientID = c\<rparr> (mg_userSessions m)"
    and gone: "gone = None \<or> (\<exists>s. record_of (mg_userSessions m) (u, rc_Type cf) = Some s \<and>
      gone = Some (si_RoomID s, si_ClientID s))"
    and md: "mg_modules m' = mg_modules m"
  shows "mgr_ok owner m'"
proof (rule mgr_okI [OF ok md])
  show "rooms_ok m'" using mv by (simp add: moved_def)
  have us': "mg_userSessions m' = us" using mv by (simp add: moved_def)
  show "us_wf (mg_userSessions m')" unfolding us' us by (rule us_wf_put [OF mgr_okD(2) [OF ok]])
  fix k s
  assume r: "record_of (mg_userSessions m') k = Some s"
  show "record_true owner m' k s"
  proof (cases "k = (u, rc_Type cf)")
    case True
    with r us us' have "s = \<lparr>si_RoomID = i, si_ClientID = c\<rparr>" by (simp add: record_of_put)
    with True mv cfg u show ?thesis by (auto simp: record_true_def moved_def)
  next
    case False
    with r us us' have "record_of (mg_userSessions m) k = Some s" by (simp add: record_of_put)
    then have t: "record_true owner m k s" by (rule mgr_okD(3) [OF ok])
    have "gone \<noteq> Some (si_RoomID s, si_ClientID s)"
    proof
      assume "gone = Some (si_RoomID s, si_ClientID s)"
      with gone obtain o' where o': "record_of (mg_userSessions m) (u, rc_Type cf) = Some o'"
        "si_RoomID o' = si_RoomID s" "si_ClientID o' = si_ClientID s" by auto
      from mgr_okD(3) [OF ok o'(1)] t o'(2,3) have "k = (u, rc_Type cf)"
        by (auto simp: record_true_def prod_eq_iff)
      with False show False by simp
    qed
    moreover have "record_true owner (m\<lparr>mg_userSessions := us\<rparr>) k s" using t by (simp add: record_true_def)
    ultimately show ?thesis by (rule record_true_moved [OF mv, rotated])
  qed
qed

text \<open>A join into a room of the mode \<open>SingletonAllow\<close> writes no record.\<close>

lemma mgr_ok_joined_allow:
  assumes "mgr_ok owner m" "moved m m' None i c" "mg_modules m' = mg_modules m"
  shows "mgr_ok owner m'"
  by (rule mgr_okI [OF assms(1,3)])
     (use assms(2) mgr_okD [OF assms(1)] in \<open>auto simp: moved_def record_true_def\<close>)

lemma mgr_ok_del:
  assumes "mgr_ok owner m" "stayed (m\<lparr>mg_userSessions := us\<rparr>) m'" "mg_modules m' = mg_modules m"
    and "us = sess_put k s (mg_userSessions m)"
  shows "mgr_ok owner (m'\<lparr>mg_userSessions := sess_del k (mg_userSessions m')\<rparr>)"
proof (rule mgr_okI [OF assms(1)])
  have us: "mg_userSessions m' = us" using assms(2) by (simp add: stayed_def)
  have wf: "us_wf us" using us_wf_put mgr_okD(2) [OF assms(1)] assms(4) by simp
  show "us_wf (mg_userSessions (m'\<lparr>mg_userSessions := sess_del k (mg_userSessions m')\<rparr>))"
    using us wf by (simp add: us_wf_del)
  show "rooms_ok (m'\<lparr>mg_userSessions := sess_del k (mg_userSessions m')\<rparr>)"
    using assms(2) by (simp add: stayed_def)
  fix k' s'
  assume "record_of (mg_userSessions (m'\<lparr>mg_userSessions := sess_del k (mg_userSessions m')\<rparr>)) k' = Some s'"
  with us assms(4) have "record_of (mg_userSessions m) k' = Some s'"
    by (simp add: record_of_del record_of_put split: if_splits)
  with mgr_okD(3) [OF assms(1)] assms(2) show
    "record_true owner (m'\<lparr>mg_userSessions := sess_del k (mg_userSessions m')\<rparr>) k' s'"
    by (auto simp: record_true_def stayed_def)
qed (use assms(3) in simp)

lemma record_client:
  "record_of us (u, t) = Some s \<Longrightarrow> si_ClientID s = c \<Longrightarrow> \<exists>s. record_of us (u, t) = Some s \<and> si_ClientID s = c"
  by blast

text \<open>What a reservation that is not refused returns and writes.\<close>

lemma reserve_Inr:
  assumes "reserve mode ty u c i us0 = (Inr rep, us)"
  shows "rep = Some s \<Longrightarrow> record_of us0 (u, ty) = Some s \<and> mode = SingletonReplace"
    and "us = (if mode = SingletonAllow then us0 else sess_put (u, ty) \<lparr>si_RoomID = i, si_ClientID = c\<rparr> us0)"
    and "mode = SingletonReplace \<Longrightarrow> record_of us0 (u, ty) = Some s \<Longrightarrow>
      s \<noteq> \<lparr>si_RoomID = i, si_ClientID = c\<rparr> \<Longrightarrow> rep = Some s"
  using assms by (auto simp: reserve_eq split: if_splits option.splits)

text \<open>The rollback of a join that moved nobody.\<close>

lemma rollback_ok:
  assumes ok: "mgr_ok owner m" and st: "stayed (m\<lparr>mg_userSessions := us\<rparr>) m1" and md: "mg_modules m1 = mg_modules m"
    and us: "us = (if mode = SingletonAllow then mg_userSessions m
      else sess_put (u, ty) \<lparr>si_RoomID = i, si_ClientID = c\<rparr> (mg_userSessions m))"
  shows "mgr_ok owner (m1\<lparr>mg_userSessions := rollback mode ty u c us\<rparr>)" (is "mgr_ok owner ?m'")
    and "mode \<noteq> SingletonAllow \<Longrightarrow> record_of (rollback mode ty u c us) (u, ty) = None"
proof -
  have us1: "mg_userSessions m1 = us" using st by (simp add: stayed_def)
  have allow: "mode = SingletonAllow \<Longrightarrow> rollback mode ty u c us = mg_userSessions m" using us by (simp add: rollback_eq)
  have other: "mode \<noteq> SingletonAllow \<Longrightarrow> rollback mode ty u c us = sess_del (u, ty) us"
    using us by (simp add: rollback_eq record_of_put)
  show "mgr_ok owner ?m'"
  proof (cases "mode = SingletonAllow")
    case True
    have "record_true owner ?m' = record_true owner m"
      using st by (simp add: record_true_def stayed_def fun_eq_iff)
    then show ?thesis using mgr_okD [OF ok] st allow [OF True] md by (intro mgr_okI [OF ok]) (auto simp: stayed_def)
  next
    case False
    then show ?thesis using mgr_ok_del [OF ok st md] us us1 other [OF False] by simp
  qed
  show "mode \<noteq> SingletonAllow \<Longrightarrow> record_of (rollback mode ty u c us) (u, ty) = None"
    using other by (simp add: record_of_del)
qed

lemma moved_info:
  assumes "moved m m1 gone i c"
  obtains r1 info where "mget (mg_rooms m1) i = Some r1" "Room_Info (an_room r1) = Inr info"
proof -
  have "at_room m1 i c" "rooms_ok m1" using assms by (auto simp: moved_def)
  then obtain r1 where "mget (mg_rooms m1) i = Some r1" "\<not> rm_done (an_room r1)"
    by (auto simp: at_room_def rooms_ok_def any_ok_def)
  then show thesis using that by (simp add: Room_Info_def room_do_def)
qed

text \<open>What \<open>JoinRoom\<close> does, in the terms of the store: the record, then the move, then the answer.\<close>

lemma JoinRoom_cases:
  assumes ok: "mgr_ok owner m" and r: "mget (mg_rooms m) i = Some r"
    and cf: "cf = rm_config (an_room r)"
    and j: "Manager_JoinRoom now u c i m = (res, m', es)"
  obtains
    (rejected) "rc_SingletonMode cf = SingletonReject" "res = Val (Inl ErrAlreadyInRoomOfType)" "m' = m" "es = []"
      "\<exists>s. record_of (mg_userSessions m) (u, rc_Type cf) = Some s \<and> (si_RoomID s \<noteq> i \<or> si_ClientID s \<noteq> c)"
  | (failed) e where "res = Val (Inl e)" "es = []" "e = ErrRoomClosed \<or> e = ErrRoomFull"
      "at_room m' = at_room m" "cfg_at m' = cfg_at m" "mgr_ok owner m'"
      "rc_SingletonMode cf \<noteq> SingletonAllow \<Longrightarrow> record_of (mg_userSessions m') (u, rc_Type cf) = None"
  | (joined) gone us where "\<forall>e. res \<noteq> Val (Inl e)"
      "moved (m\<lparr>mg_userSessions := us\<rparr>) m' gone i c" "mg_modules m' = mg_modules m"
      "us = (if rc_SingletonMode cf = SingletonAllow then mg_userSessions m
             else sess_put (u, rc_Type cf) \<lparr>si_RoomID = i, si_ClientID = c\<rparr> (mg_userSessions m))"
      "gone = None \<or> rc_SingletonMode cf = SingletonReplace \<and>
        (\<exists>s. record_of (mg_userSessions m) (u, rc_Type cf) = Some s \<and> gone = Some (si_RoomID s, si_ClientID s))"
      "\<forall>s x. res = Val x \<longrightarrow> rc_SingletonMode cf = SingletonReplace \<longrightarrow>
        record_of (mg_userSessions m) (u, rc_Type cf) = Some s \<longrightarrow> s \<noteq> \<lparr>si_RoomID = i, si_ClientID = c\<rparr> \<longrightarrow>
        gone = Some (si_RoomID s, si_ClientID s)"
proof (cases "reserve (rc_SingletonMode cf) (rc_Type cf) u c i (mg_userSessions m)")
  case (Pair rr us)
  note rv = Pair
  let ?k = "(u, rc_Type cf)" and ?mode = "rc_SingletonMode cf"
  let ?new = "\<lparr>si_RoomID = i, si_ClientID = c\<rparr>" and ?m = "m\<lparr>mg_userSessions := us\<rparr>"
  show thesis
  proof (cases rr)
    case (Inl e)
    with rv have "?mode = SingletonReject" "e = ErrAlreadyInRoomOfType" "us = mg_userSessions m"
      "\<exists>s. record_of (mg_userSessions m) ?k = Some s \<and> s \<noteq> ?new"
      by (auto simp: reserve_eq split: if_splits option.splits)
    with rejected j r rv Inl cf show thesis by (auto simp: Manager_JoinRoom_def sessionInfo_eq)
  next
    case (Inr rep)
    note rep = reserve_Inr [OF rv [unfolded Inr]]
    obtain a m1 es1 where jr: "join_or_replace now u c i r rep ?m = (a, m1, es1)" by (metis prod_cases3)
    have at: "rep = Some s \<Longrightarrow> at_room ?m (si_RoomID s) (si_ClientID s)" for s
      using rep(1) [of s] mgr_okD(3) [OF ok, of ?k s] by (auto simp: record_true_def)
    have rok: "rooms_ok ?m" and r': "mget (mg_rooms ?m) i = Some r" using mgr_okD(1) [OF ok] r by simp_all
    note spec = join_or_replace_moved [OF rok r' at jr]
    have md: "mg_modules m1 = mg_modules m" using join_or_replace_modules [OF jr] by simp
    show thesis
    proof (cases "\<exists>e. a = Val (Some e)")
      case True
      then obtain e where e: "a = Val (Some e)" ..
      with spec have st: "stayed ?m m1" and "es1 = []" by auto
      then have "res = Val (Inl e)" "m' = m1\<lparr>mg_userSessions := rollback ?mode (rc_Type cf) u c us\<rparr>" "es = []"
        using j r rv Inr jr e cf by (auto simp: Manager_JoinRoom_def stayed_def)
      with failed rollback_ok [OF ok st md rep(2)] st join_or_replace_errors [OF jr [unfolded e]] show thesis
        by (simp add: stayed_def)
    next
      case False
      with spec obtain gone where mv: "moved ?m m1 gone i c" and
        g: "gone = None \<and> a \<noteq> Val None \<or> gone = map_option (\<lambda>s. (si_RoomID s, si_ClientID s)) rep" by auto
      obtain r1 info where info: "mget (mg_rooms m1) i = Some r1" "Room_Info (an_room r1) = Inr info"
        using moved_info [OF mv] .
      have res: "m' = m1" "a = Val None \<Longrightarrow> res = Val (Inr info)" "a \<noteq> Val None \<Longrightarrow> \<exists>e. res = Panic e"
        using j r rv Inr jr False info cf by (auto simp: Manager_JoinRoom_def split: outcome.splits option.splits)
      show thesis
      proof (rule joined [OF _ _ _ rep(2)])
        show "\<forall>e. res \<noteq> Val (Inl e)" using res(2,3) by (cases "a = Val None") auto
        show "\<forall>s x. res = Val x \<longrightarrow> ?mode = SingletonReplace \<longrightarrow>
          record_of (mg_userSessions m) ?k = Some s \<longrightarrow> s \<noteq> ?new \<longrightarrow> gone = Some (si_RoomID s, si_ClientID s)"
          using g rep(3) res(3) by fastforce
        show "gone = None \<or> ?mode = SingletonReplace \<and>
          (\<exists>s. record_of (mg_userSessions m) ?k = Some s \<and> gone = Some (si_RoomID s, si_ClientID s))"
          using g rep(1) by (cases rep) auto
      qed (use mv md res(1) in auto)
    qed
  qed
qed

lemma JoinRoom_ok:
  assumes ok: "mgr_ok owner m" and j: "Manager_JoinRoom now u c i m = (res, m', es)" and u: "owner c = u"
  shows "mgr_ok owner m'"
proof (cases "mget (mg_rooms m) i")
  case None
  with j ok show ?thesis by (auto simp: Manager_JoinRoom_def)
next
  case (Some r)
  have cfg: "cfg_at m i = Some (rm_config (an_room r))" using Some by (simp add: cfg_at_def)
  from ok Some refl j show ?thesis
  proof (cases rule: JoinRoom_cases)
    case rejected
    with ok show ?thesis by simp
  next
    case (joined gone us)
    show ?thesis
    proof (cases "rc_SingletonMode (rm_config (an_room r)) = SingletonAllow")
      case True
      with joined have "gone = None" "us = mg_userSessions m" by auto
      with joined ok show ?thesis by (auto intro: mgr_ok_joined_allow)
    next
      case False
      with joined show ?thesis by (intro mgr_ok_joined [OF ok cfg False joined(2) u]) auto
    qed
  qed
qed

end
