(* ===== verification/Manager_Runs.thy ===== *)
theory Manager_Runs
  imports Manager_Props
begin

text \<open>
  Every operation of the manager keeps its invariant, and so does every sequence of operations: the
  calls of the connections, the removals the rooms ask for and the shutdown, in any order.
\<close>

section \<open>Leaving, removing, dispatching\<close>

lemma LeaveRoom_ok:
  assumes ok: "mgr_ok owner m" and l: "Manager_LeaveRoom u c i m = (res, m', es)" and u: "owner c = u"
  shows "mgr_ok owner m'"
proof (cases "mget (mg_rooms m) i")
  case None
  with l ok show ?thesis by (simp add: Manager_LeaveRoom_def)
next
  case (Some r)
  let ?cf = "rm_config (an_room r)"
  let ?us = "drop_session (rc_SingletonMode ?cf) (rc_Type ?cf) u c i (mg_userSessions m)"
  let ?m = "m\<lparr>mg_userSessions := ?us\<rparr>"
  obtain b r' es' where rl: "Room_Leave (an_module r) c (an_room r) = (b, r', es')" by (metis prod_cases3)
  have m': "m' = set_room i (r\<lparr>an_room := r'\<rparr>) ?m" using l Some rl by (simp add: Manager_LeaveRoom_def Let_def)
  have rok: "rooms_ok ?m" and some: "mget (mg_rooms ?m) i = Some r" using mgr_okD(1) [OF ok] Some by simp_all
  note mv = leave_moved [OF rok some rl]
  show ?thesis
  proof (rule mgr_okI [OF ok])
    show "mg_modules m' = mg_modules m" "rooms_ok m'" using m' mv(1) by simp_all
    show "us_wf (mg_userSessions m')"
      using m' mgr_okD(2) [OF ok] by (simp add: drop_session_eq us_wf_del)
    fix k s
    assume "record_of (mg_userSessions m') k = Some s"
    then have s: "record_of ?us k = Some s" using m' by simp
    then have s': "record_of (mg_userSessions m) k = Some s"
      by (auto simp: drop_session_eq record_of_del split: if_splits)
    from mgr_okD(3) [OF ok s'] have t: "record_true owner m k s" .
    have "(si_RoomID s, si_ClientID s) \<noteq> (i, c)"
    proof
      assume e: "(si_RoomID s, si_ClientID s) = (i, c)"
      have "k = (u, rc_Type ?cf)" "rc_SingletonMode ?cf \<noteq> SingletonAllow"
        using t e u Some by (auto simp: record_true_def cfg_at_def prod_eq_iff)
      moreover have "s = \<lparr>si_RoomID = i, si_ClientID = c\<rparr>" using e by (simp add: sessionInfo_eq)
      ultimately show False using s s' by (simp add: drop_session_eq record_of_del)
    qed
    then show "record_true owner m' k s" using t mv(2,3) m' by (auto simp: record_true_def)
  qed
qed

lemma Remove_rooms:
  assumes "Manager_Remove i m = (res, m', es)" "mget (mg_rooms m) i = Some r"
  shows "m' = m\<lparr>mg_rooms := mdel i (mg_rooms m),
    mg_userSessions := cleanupSessionType (rc_Type (rm_config (an_room r))) i (mg_userSessions m)\<rparr>"
  using assms by (auto simp: Manager_Remove_def Let_def split: prod.splits outcome.splits)

text \<open>After a removal no record at all mentions the room.\<close>

lemma Remove_record:
  assumes ok: "mgr_ok owner m" and r: "mget (mg_rooms m) i = Some r"
  shows "record_of (cleanupSessionType (rc_Type (rm_config (an_room r))) i (mg_userSessions m)) k = Some s \<longleftrightarrow>
    record_of (mg_userSessions m) k = Some s \<and> si_RoomID s \<noteq> i"
proof -
  have "snd k = rc_Type (rm_config (an_room r))"
    if "record_of (mg_userSessions m) k = Some s" "si_RoomID s = i"
    using mgr_okD(3) [OF ok that(1)] that(2) r by (auto simp: record_true_def cfg_at_def)
  then show ?thesis
    using record_of_cleanup [OF mgr_okD(2) [OF ok], of "rc_Type (rm_config (an_room r))" i k]
    by (auto split: option.splits if_splits)
qed

lemma Remove_ok:
  assumes ok: "mgr_ok owner m" and rm: "Manager_Remove i m = (res, m', es)"
  shows "mgr_ok owner m'"
proof (cases "mget (mg_rooms m) i")
  case None
  with rm ok show ?thesis by (simp add: Manager_Remove_def)
next
  case (Some r)
  note m' = Remove_rooms [OF rm Some]
  show ?thesis
  proof (rule mgr_okI [OF ok])
    show "mg_modules m' = mg_modules m" using m' by simp
    show "rooms_ok m'" using m' mgr_okD(1) [OF ok] by (auto simp: rooms_ok_def split: if_splits)
    show "us_wf (mg_userSessions m')" using m' mgr_okD(2) [OF ok] by (simp add: us_wf_cleanup)
    fix k s
    assume "record_of (mg_userSessions m') k = Some s"
    with m' have "record_of (mg_userSessions m) k = Some s" and i: "si_RoomID s \<noteq> i"
      using Remove_record [OF ok Some, of k s] by simp_all
    from mgr_okD(3) [OF ok this(1)] i m' show "record_true owner m' k s"
      by (auto simp: record_true_def at_room_def cfg_at_def)
  qed
qed

lemma match_rooms_sound:
  "match_rooms ty ids mt count m = (mt', count') \<Longrightarrow>
     mt' = mt \<and> count' = count \<or>
     (\<exists>r i. mt' = Some (r, i) \<and> mget (mg_rooms m) i = Some r \<and> rc_Type (rm_config (an_room r)) = ty \<and>
        i \<in> set ids \<and> count' > count)"
  by (induction ty ids mt count m rule: match_rooms.induct)
     (auto split: option.splits if_splits)

lemma match_rooms_count:
  "snd (match_rooms ty ids mt count m) =
     count + length (filter (\<lambda>i. \<exists>cf. cfg_at m i = Some cf \<and> rc_Type cf = ty) ids)"
  by (induction ty ids mt count m rule: match_rooms.induct)
     (auto simp: cfg_at_def split: option.splits)

text \<open>A message changes the state of one room at most: no membership, no configuration, no record.\<close>

lemma Dispatch_keeps:
  assumes "DispatchRoomMessage ctx c op pl ids m = (res, m', es)"
  shows "at_room m' = at_room m" "cfg_at m' = cfg_at m" "mg_userSessions m' = mg_userSessions m"
proof -
  have "at_room m' = at_room m \<and> cfg_at m' = cfg_at m \<and> mg_userSessions m' = mg_userSessions m"
  proof (cases "m' = m")
    case False
    with assms obtain ty r i count where t: "match_rooms ty ids None 0 m = (Some (r, i), count)"
      and m': "m' = set_room i (r\<lparr>an_room := fst (snd (Room_HandleMessage (an_module r) ctx c op pl (an_room r)))\<rparr>) m"
      by (auto simp: DispatchRoomMessage_def split: option.splits prod.splits if_splits)
    from match_rooms_sound [OF t] have r: "mget (mg_rooms m) i = Some r" by auto
    obtain h r' es' where h: "Room_HandleMessage (an_module r) ctx c op pl (an_room r) = (h, r', es')"
      by (metis prod_cases3)
    note core = Room_HandleMessage_core [OF h]
    from m' h r show ?thesis
      by (auto simp: fun_eq_iff at_room_set at_roomI cfg_at_def members_core [OF core] same_coreD [OF core])
  qed simp
  then show "at_room m' = at_room m" "cfg_at m' = cfg_at m" "mg_userSessions m' = mg_userSessions m" by simp_all
qed

lemma Dispatch_ok:
  assumes ok: "mgr_ok owner m" and d: "DispatchRoomMessage ctx c op pl ids m = (res, m', es)"
  shows "mgr_ok owner m' \<and> at_room m' = at_room m \<and> mg_userSessions m' = mg_userSessions m"
proof (cases "m' = m")
  case True
  with ok show ?thesis by simp
next
  case False
  with d obtain ty r i count where t: "match_rooms ty ids None 0 m = (Some (r, i), count)"
    and m': "m' = set_room i (r\<lparr>an_room := fst (snd (Room_HandleMessage (an_module r) ctx c op pl (an_room r)))\<rparr>) m"
    by (auto simp: DispatchRoomMessage_def split: option.splits prod.splits if_splits)
  from match_rooms_sound [OF t] have r: "mget (mg_rooms m) i = Some r" by auto
  obtain h r' es' where hm: "Room_HandleMessage (an_module r) ctx c op pl (an_room r) = (h, r', es')"
    by (metis prod_cases3)
  note a = any_ok_handle [OF rooms_okD [OF mgr_okD(1) [OF ok] r] hm]
  have m'': "m' = set_room i (r\<lparr>an_room := r'\<rparr>) m" using m' hm by simp
  have at: "at_room m' = at_room m" and cfg: "cfg_at m' = cfg_at m"
    using r a m'' by (auto simp: fun_eq_iff at_room_set at_roomI cfg_at_def)
  have "mgr_ok owner m'"
    using mgr_okD [OF ok] m'' at cfg rooms_ok_set [OF mgr_okD(1) [OF ok] a(1)]
    by (intro mgr_okI [OF ok]) (auto simp: record_true_def)
  then show ?thesis using at m'' by simp
qed

section \<open>Creating and registering\<close>

lemma quiet_plain [simp]: "quiet_leave (plainModule zero)"
  by (simp add: quiet_leave_def plainModule_def NewModule_def)

definition new_config :: "RoomConfig \<Rightarrow> 's Manager \<Rightarrow> RoomConfig" where
  "new_config config m =
     (case mget (mg_modules m) (rc_Type config) of
        Some md \<Rightarrow> room_config md config | None \<Rightarrow> ApplyDefaults config)"

definition new_module :: "'s \<Rightarrow> RoomConfig \<Rightarrow> 's Manager \<Rightarrow> 's Module" where
  "new_module zero config m =
     (case mget (mg_modules m) (rc_Type config) of Some md \<Rightarrow> md | None \<Rightarrow> plainModule zero)"

lemma Create_room:
  assumes "Manager_Create zero uuid config m = (res, m', es)"
  obtains r where "m' = set_room (rc_Name (new_config config m) @ ''_'' @ uuid)
      \<lparr>an_module = new_module zero config m, an_room = r\<rparr> m"
    and "rm_id r = rc_Name (new_config config m) @ ''_'' @ uuid" "rm_config r = new_config config m"
    and "rm_players r = []" "rm_onEmpty r" "\<not> rm_done r" "rm_isOpen r" "room_wf r"
proof -
  obtain r es' where n: "newRoom uuid (new_config config m) (new_module zero config m) = (r, es')" by force
  have "m' = set_room (rm_id r) \<lparr>an_module = new_module zero config m, an_room = Room_setOnEmpty r\<rparr> m"
    using assms n
    by (auto simp: Manager_Create_def new_config_def new_module_def Room_setOnEmpty_def Let_def
        split: option.splits sum.splits outcome.splits)
  then show ?thesis using newRoom_core [OF n] newRoom_wf [OF n]
    by (intro that [of "Room_setOnEmpty r"]) (auto simp: Room_setOnEmpty_def room_wf_def)
qed

lemma Create_ok:
  assumes ok: "mgr_ok owner m" and c: "Manager_Create zero uuid config m = (res, m', es)"
    and fresh: "\<not> mhas (mg_rooms m) (rc_Name (new_config config m) @ ''_'' @ uuid)"
  shows "mgr_ok owner m'"
proof -
  let ?i = "rc_Name (new_config config m) @ ''_'' @ uuid"
  from c obtain r where m': "m' = set_room ?i \<lparr>an_module = new_module zero config m, an_room = r\<rparr> m"
    and r: "rm_id r = ?i" "rm_onEmpty r" "\<not> rm_done r" "room_wf r" by (rule Create_room)
  have "quiet_leave (new_module zero config m)"
    using mgr_ok_modules [OF ok] by (auto simp: new_module_def split: option.splits)
  then have a: "any_ok ?i \<lparr>an_module = new_module zero config m, an_room = r\<rparr>" using r by (simp add: any_ok_def)
  show ?thesis
  proof (rule mgr_okI [OF ok])
    show "mg_modules m' = mg_modules m" "us_wf (mg_userSessions m')" using m' mgr_okD(2) [OF ok] by simp_all
    show "rooms_ok m'" using rooms_ok_set [OF mgr_okD(1) [OF ok] a] m' by simp
    fix k s
    assume "record_of (mg_userSessions m') k = Some s"
    then have "record_true owner m k s" using mgr_okD(3) [OF ok] m' by simp
    moreover from this have "si_RoomID s \<noteq> ?i"
      using fresh by (auto simp: record_true_def at_room_def mhas_def)
    ultimately show "record_true owner m' k s" using m' by (auto simp: record_true_def at_room_set cfg_at_set)
  qed
qed

lemma RegisterModule_ok:
  assumes ok: "mgr_ok owner m" and r: "RegisterModule md m = (res, m')"
    and q: "\<And>t md. mget (mg_modules m') t = Some md \<Longrightarrow> quiet_leave md"
  shows "mgr_ok owner m'"
proof -
  have "mg_rooms m' = mg_rooms m" "mg_userSessions m' = mg_userSessions m"
    "mg_modules m' = mg_modules m \<or> (\<exists>t. mg_modules m' = mput t md (mg_modules m))"
    using r by (auto simp: RegisterModule_def Let_def split: if_splits option.splits prod.splits)
  then show ?thesis using ok q
    by (auto simp: mgr_ok_def rooms_ok_def record_true_def at_room_def cfg_at_def split: if_splits)
qed

lemma ShutdownAll_ok: "mgr_ok owner m \<Longrightarrow> mgr_ok owner (fst (Manager_ShutdownAll m))"
  by (auto simp: mgr_ok_def Manager_ShutdownAll_def rooms_ok_def us_wf_def record_of_def)

lemma NewManager_ok: "mgr_ok owner NewManager"
  by (simp add: mgr_ok_def NewManager_def rooms_ok_def us_wf_def record_of_def)

section \<open>Sequences of calls\<close>

datatype 's mcall =
    MRegister "'s Module"
  | MCreate string RoomConfig
  | MJoin int string uint64 string
  | MLeave string uint64 string
  | MDispatch bool uint64 uint16 bytes "string list"
  | MRemove string
  | MShutdownAll

fun mgr_call :: "'s \<Rightarrow> 's mcall \<Rightarrow> 's Manager \<Rightarrow> 's Manager" where
  "mgr_call zero (MRegister md) m = snd (RegisterModule md m)"
| "mgr_call zero (MCreate uuid config) m = fst (snd (Manager_Create zero uuid config m))"
| "mgr_call zero (MJoin now u c i) m = fst (snd (Manager_JoinRoom now u c i m))"
| "mgr_call zero (MLeave u c i) m = fst (snd (Manager_LeaveRoom u c i m))"
| "mgr_call zero (MDispatch ctx c op pl ids) m = fst (snd (DispatchRoomMessage ctx c op pl ids m))"
| "mgr_call zero (MRemove i) m = fst (snd (Manager_Remove i m))"
| "mgr_call zero MShutdownAll m = fst (Manager_ShutdownAll m)"

text \<open>
  The calls the program makes, one after the other: a connection speaks for the user it is logged in
  as, and a new room has an ID of its own (what \<open>uuid\<close> provides). Modules are unrestricted; a theorem
  that needs \<open>OnLeave\<close> hooks which do not panic says so.
\<close>

fun call_ok :: "(uint64 \<Rightarrow> string) \<Rightarrow> 's mcall \<Rightarrow> 's Manager \<Rightarrow> bool" where
  "call_ok owner (MCreate uuid config) m = (\<not> mhas (mg_rooms m) (rc_Name (new_config config m) @ ''_'' @ uuid))"
| "call_ok owner (MJoin now u c i) m = (owner c = u)"
| "call_ok owner (MLeave u c i) m = (owner c = u)"
| "call_ok owner _ m = True"

inductive mgr_reach :: "(uint64 \<Rightarrow> string) \<Rightarrow> 's \<Rightarrow> 's Manager \<Rightarrow> bool" for owner zero where
  new: "mgr_reach owner zero NewManager"
| call: "mgr_reach owner zero m \<Longrightarrow> call_ok owner x m \<Longrightarrow> mgr_reach owner zero (mgr_call zero x m)"

lemma Manager_JoinRoom_modules:
  "Manager_JoinRoom now u c i m = (res, m', es) \<Longrightarrow> mg_modules m' = mg_modules m"
  by (auto simp: Manager_JoinRoom_def Let_def split: option.splits sum.splits prod.splits outcome.splits
      dest!: join_or_replace_modules)

lemma RegisterModule_modules:
  "mget (mg_modules m) t = Some md \<Longrightarrow> mget (mg_modules (snd (RegisterModule md' m))) t = Some md"
  by (auto simp: RegisterModule_def Let_def mhas_def split: option.splits prod.splits)

lemma Manager_Remove_modules: "mg_modules (fst (snd (Manager_Remove i m))) = mg_modules m"
  by (auto simp: Manager_Remove_def Let_def split: option.splits prod.splits outcome.splits)

lemma Dispatch_modules: "mg_modules (fst (snd (DispatchRoomMessage ctx c op pl ids m))) = mg_modules m"
  by (auto simp: DispatchRoomMessage_def split: option.splits prod.splits)

text \<open>A registered module stays registered, whatever is called.\<close>

lemma mgr_call_modules:
  assumes "mget (mg_modules m) t = Some md"
  shows "mget (mg_modules (mgr_call zero x m)) t = Some md"
proof (cases x)
  case (MCreate uuid config)
  then show ?thesis using assms
    by (cases "Manager_Create zero uuid config m") (auto elim: Create_room)
next
  case (MJoin now u c i)
  then show ?thesis using assms
    by (cases "Manager_JoinRoom now u c i m") (simp add: Manager_JoinRoom_modules)
qed (use assms in \<open>auto simp: RegisterModule_modules Manager_Remove_modules Dispatch_modules
    Manager_LeaveRoom_def Manager_ShutdownAll_def Let_def split: option.splits prod.splits\<close>)

text \<open>Every call keeps the invariant, if no module registered by it may panic in \<open>OnLeave\<close>.\<close>

lemma mgr_call_ok:
  assumes ok: "mgr_ok owner m" and x: "call_ok owner x m"
    and q: "\<And>t md. mget (mg_modules (mgr_call zero x m)) t = Some md \<Longrightarrow> quiet_leave md"
  shows "mgr_ok owner (mgr_call zero x m)"
proof (cases x)
  case (MRegister md)
  with q RegisterModule_ok [OF ok prod.collapse [symmetric], of md] show ?thesis by simp
next
  case (MCreate uuid config)
  with x Create_ok [OF ok, of zero uuid config] show ?thesis
    by (cases "Manager_Create zero uuid config m") auto
next
  case (MJoin now u c i)
  with x JoinRoom_ok [OF ok, of now u c i] show ?thesis by (cases "Manager_JoinRoom now u c i m") auto
next
  case (MLeave u c i)
  with x LeaveRoom_ok [OF ok, of u c i] show ?thesis by (cases "Manager_LeaveRoom u c i m") auto
next
  case (MDispatch ctx c op pl ids)
  with Dispatch_ok [OF ok, of ctx c op pl ids] show ?thesis
    by (cases "DispatchRoomMessage ctx c op pl ids m") auto
next
  case (MRemove i)
  with Remove_ok [OF ok, of i] show ?thesis by (cases "Manager_Remove i m") auto
next
  case MShutdownAll
  with ShutdownAll_ok [OF ok] show ?thesis by simp
qed

text \<open>Modules are only ever added, so it is enough to look at those registered in the end.\<close>

lemma mgr_reach_ok:
  assumes "mgr_reach owner zero m" "\<forall>t md. mget (mg_modules m) t = Some md \<longrightarrow> quiet_leave md"
  shows "mgr_ok owner m"
  using assms
proof (induction rule: mgr_reach.induct)
  case new
  show ?case by (rule NewManager_ok)
next
  case (call m x)
  have "\<forall>t md. mget (mg_modules m) t = Some md \<longrightarrow> quiet_leave md"
    using call.prems by (blast dest: mgr_call_modules)
  then have "mgr_ok owner m" by (rule call.IH)
  then show ?case using call.hyps(2) call.prems by (blast intro: mgr_call_ok)
qed

end
