(* ===== verification/Manager_Demo.thy ===== *)
theory Manager_Demo
  imports Manager_Runs
begin

text \<open>
  A small server for concrete runs: one room type \<open>g\<close> with a single seat per room, and two rooms
  \<open>g_1\<close> and \<open>g_2\<close> of it. The mode of the type is a parameter.
\<close>

definition game :: "uint8 \<Rightarrow> unit Module" where
  "game mode = Module_Singleton mode (Module_MaxPlayers 1 (NewModule () ''g''))"

definition game_config :: "uint8 \<Rightarrow> RoomConfig" where
  "game_config mode = \<lparr>rc_Name = ''g'', rc_Type = ''g'', rc_MaxPlayers = 1, rc_SingletonMode = mode,
     rc_Options = [], rc_EmptyGrace = 0\<rparr>"

definition game_room :: "uint8 \<Rightarrow> string \<Rightarrow> (uint64, Player) gomap \<Rightarrow> unit AnyRoom" where
  "game_room mode i ps = \<lparr>an_module = game mode, an_room =
     \<lparr>rm_id = i, rm_config = game_config mode, rm_State = (), rm_players = ps, rm_isOpen = True,
      rm_emptyTimer = None, rm_keepOnEmpty = False, rm_onEmpty = True, rm_done = False\<rparr>\<rparr>"

definition game_mgr :: "uint8 \<Rightarrow> (uint64, Player) gomap \<Rightarrow> (uint64, Player) gomap \<Rightarrow> user_sessions \<Rightarrow> unit Manager" where
  "game_mgr mode ps qs us = \<lparr>mg_rooms = [(''g_1'', game_room mode ''g_1'' ps), (''g_2'', game_room mode ''g_2'' qs)],
     mg_userSessions = us, mg_modules = [(''g'', game mode)], mg_opTypes = []\<rparr>"

lemmas game_simps = game_mgr_def game_room_def game_config_def game_def Module_Singleton_def
  Module_MaxPlayers_def NewModule_def RoomConfig_zero_def map_defs mhas_def set_room_def

lemma Create_mgr:
  "fst (snd (Manager_Create zero uuid config m)) =
     (let r = Room_setOnEmpty (fst (newRoom uuid (new_config config m) (new_module zero config m)))
      in set_room (rm_id r) \<lparr>an_module = new_module zero config m, an_room = r\<rparr> m)"
  by (auto simp: Manager_Create_def new_config_def new_module_def Let_def
      split: option.splits sum.splits outcome.splits prod.splits)

lemma game_new_config:
  "mg_modules m = [(''g'', game mode)] \<Longrightarrow> new_config (RoomConfig_zero\<lparr>rc_Type := ''g''\<rparr>) m = game_config mode"
  by (simp add: new_config_def room_config_def Module_BaseConfig_def ApplyDefaults_def Let_def game_simps)

lemma game_quiet: "quiet_leave (game mode)"
  by (simp add: quiet_leave_def game_simps)

lemma game_modules_quiet: "\<forall>t md. mget (mg_modules (game_mgr mode ps qs us)) t = Some md \<longrightarrow> quiet_leave md"
  using game_quiet [of mode] by (auto simp: game_mgr_def mget_def split: if_splits)

lemma game_start: "mgr_reach owner () (game_mgr mode [] [] [])"
proof -
  let ?cfg = "RoomConfig_zero\<lparr>rc_Type := ''g''\<rparr>"
  let ?reg = "\<lparr>mg_rooms = [], mg_userSessions = [], mg_modules = [(''g'', game mode)], mg_opTypes = []\<rparr>"
  have a: "mgr_call () (MRegister (game mode)) NewManager = ?reg"
    by (simp add: RegisterModule_def Module_RoomType_def Module_Ops_def NewManager_def Let_def game_simps)
  have b: "mgr_call () (MCreate ''1'' ?cfg) ?reg = ?reg\<lparr>mg_rooms := [(''g_1'', game_room mode ''g_1'' [])]\<rparr>"
    by (simp add: Create_mgr new_config_def new_module_def room_config_def Module_BaseConfig_def
        ApplyDefaults_def Let_def newRoom_def Room_setOnEmpty_def game_simps)
  have c: "mgr_call () (MCreate ''2'' ?cfg) (?reg\<lparr>mg_rooms := [(''g_1'', game_room mode ''g_1'' [])]\<rparr>) = game_mgr mode [] [] []"
    by (simp add: Create_mgr new_config_def new_module_def room_config_def Module_BaseConfig_def
        ApplyDefaults_def Let_def newRoom_def Room_setOnEmpty_def game_simps)
  have "mgr_reach owner () ?reg"
    using mgr_reach.call [OF mgr_reach.new, of owner "MRegister (game mode)"] a by simp
  from mgr_reach.call [OF this, of "MCreate ''1'' ?cfg"] b
  have "mgr_reach owner () (?reg\<lparr>mg_rooms := [(''g_1'', game_room mode ''g_1'' [])]\<rparr>)"
    by (simp add: game_new_config mhas_def)
  from mgr_reach.call [OF this, of "MCreate ''2'' ?cfg"] c show ?thesis
    by (simp add: game_new_config game_config_def mhas_def mget_def)
qed

lemmas join_simps = Manager_JoinRoom_def reserve_def rollback_def join_or_replace_def Room_Join_def
  room_do_def join_step_cases at_capacity_def hasPlayer_def player_hook_def new_player_def
  playerJoined_event_eq Room_topic_def Room_Info_def Let_def game_simps

definition seat :: "uint64 \<Rightarrow> string \<Rightarrow> (uint64, Player) gomap" where
  "seat c u = [(c, new_player 5 c u)]"

definition place :: "string \<Rightarrow> string \<Rightarrow> uint64 \<Rightarrow> user_sessions" where
  "place u i c = [(u, [(''g'', \<lparr>si_RoomID = i, si_ClientID = c\<rparr>)])]"

text \<open>Joining the free room, rejoining it, and trying the other one, in the mode \<open>SingletonReject\<close>.\<close>

lemma game_join_1:
  "fits16 u \<Longrightarrow> Manager_JoinRoom 5 u c ''g_1'' (game_mgr 1 [] qs []) =
     (Val (Inr (roomInfo (an_room (game_room 1 ''g_1'' (seat c u))))),
      game_mgr 1 (seat c u) qs (place u ''g_1'' c),
      [Pub ''room:g_1'' \<lparr>ev_Op = EventPlayerJoined, ev_Payload = PlayerJoined_enc \<lparr>pj_PlayerID = c, pj_UserID = u\<rparr>\<rparr>])"
  by (simp add: join_simps seat_def place_def)

lemma game_join_2:
  "fits16 u \<Longrightarrow> Manager_JoinRoom 5 u c ''g_2'' (game_mgr 1 ps [] []) =
     (Val (Inr (roomInfo (an_room (game_room 1 ''g_2'' (seat c u))))),
      game_mgr 1 ps (seat c u) (place u ''g_2'' c),
      [Pub ''room:g_2'' \<lparr>ev_Op = EventPlayerJoined, ev_Payload = PlayerJoined_enc \<lparr>pj_PlayerID = c, pj_UserID = u\<rparr>\<rparr>])"
  by (simp add: join_simps seat_def place_def)

lemma game_rejoin:
  "Manager_JoinRoom 5 u c ''g_1'' (game_mgr 1 (seat c u) qs (place u ''g_1'' c)) =
     (Val (Inl ErrRoomFull), game_mgr 1 (seat c u) qs [], [])"
  by (simp add: join_simps seat_def place_def)

lemma game_refused:
  "Manager_JoinRoom 5 u d ''g_2'' (game_mgr 1 (seat c u) qs (place u ''g_1'' c)) =
     (Val (Inl ErrAlreadyInRoomOfType), game_mgr 1 (seat c u) qs (place u ''g_1'' c), [])"
  by (simp add: join_simps seat_def place_def)

lemma mgr_reach_join:
  "mgr_reach owner zero m \<Longrightarrow> owner c = u \<Longrightarrow> Manager_JoinRoom now u c i m = (res, m', es) \<Longrightarrow>
     mgr_reach owner zero m'"
  using mgr_reach.call [of owner zero m "MJoin now u c i"] by simp

lemma game_seated: "mgr_reach (\<lambda>_. ''u'') () (game_mgr 1 (seat 1 ''u'') [] (place ''u'' ''g_1'' 1))"
  by (rule mgr_reach_join [OF game_start _ game_join_1]) (simp_all add: fits16_def)

lemma game_forgotten: "mgr_reach (\<lambda>_. ''u'') () (game_mgr 1 (seat 1 ''u'') [] [])"
  by (rule mgr_reach_join [OF game_seated _ game_rejoin]) simp

lemma game_twice: "mgr_reach (\<lambda>_. ''u'') () (game_mgr 1 (seat 1 ''u'') (seat 2 ''u'') (place ''u'' ''g_2'' 2))"
  by (rule mgr_reach_join [OF game_forgotten _ game_join_2]) (simp_all add: fits16_def)

lemma game_find:
  "Manager_Find ''g_1'' (game_mgr mode ps qs us) = Some (game_room mode ''g_1'' ps)"
  "Manager_Find ''g_2'' (game_mgr mode ps qs us) = Some (game_room mode ''g_2'' qs)"
  by (simp_all add: Manager_Find_def game_mgr_def mget_def)

lemma game_room_sel:
  "rm_config (an_room (game_room mode i ps)) = game_config mode"
  "members (an_room (game_room mode i (seat c u))) = {c}"
  by (auto simp: game_room_def members_def mget_def seat_def split: if_splits)

lemma game_record: "record_of (mg_userSessions (game_mgr mode ps qs (place u i c))) (u, ''g'') = Some \<lparr>si_RoomID = i, si_ClientID = c\<rparr>"
  by (simp add: record_of_def game_mgr_def place_def mget_def)

text \<open>A room type whose messages are answered: opcode 100 counts the messages of the room in its state
  and echoes the payload. Its two rooms \<open>e_1\<close> and \<open>e_2\<close> have the players given.\<close>

definition echo :: "nat Module" where
  "echo = (NewModule 0 ''e'')\<lparr>md_handlers :=
     [(100, \<lambda>ctx r p pl. ([ASetState (Suc (rm_State r))], Inr (Some (\<lambda>buf. Val (buf @ pl)))))]\<rparr>"

definition echo_room :: "string \<Rightarrow> nat \<Rightarrow> (uint64, Player) gomap \<Rightarrow> nat AnyRoom" where
  "echo_room i n ps = \<lparr>an_module = echo, an_room =
     \<lparr>rm_id = i, rm_config = (game_config 0)\<lparr>rc_Type := ''e''\<rparr>, rm_State = n, rm_players = ps, rm_isOpen = True,
      rm_emptyTimer = None, rm_keepOnEmpty = False, rm_onEmpty = True, rm_done = False\<rparr>\<rparr>"

definition echo_mgr :: "nat \<Rightarrow> (uint64, Player) gomap \<Rightarrow> (uint64, Player) gomap \<Rightarrow> nat Manager" where
  "echo_mgr n ps qs = \<lparr>mg_rooms = [(''e_1'', echo_room ''e_1'' n ps), (''e_2'', echo_room ''e_2'' 0 qs)],
     mg_userSessions = [], mg_modules = [(''e'', echo)], mg_opTypes = [(100, ''e'')]\<rparr>"

lemmas echo_simps = echo_mgr_def echo_room_def echo_def game_config_def NewModule_def OpType_def cfg_at_def
  Manager_Find_def mget_def seat_def

lemma echo_answer:
  "DispatchRoomMessage ctx 1 100 pl [''e_1''] (echo_mgr n (seat 1 ''u'') qs) =
     (Some (Inr (Some (\<lambda>buf. Val (buf @ pl)))), echo_mgr (Suc n) (seat 1 ''u'') qs, [])"
  by (simp add: DispatchRoomMessage_def Room_HandleMessage_def room_do_def handle_step_def set_room_def
      mput_def new_player_def echo_simps)

end
