(* ===== verification/Manager_Theorems.thy ===== *)
theory Manager_Theorems
  imports Manager_Demo
begin

text \<open>
  The properties of the manager, over every state that a sequence of its calls can reach.
\<close>

section \<open>Singleton records\<close>

text \<open>C2: a singleton record is never stale. Take any sequence of manager calls, one after the other, in
  which a connection always calls for the user it is logged in as (\<open>owner\<close>) and new rooms have new IDs,
  with registrations, removals, messages and shutdowns in between; and let no registered module have
  an \<open>OnLeave\<close> hook that panics. Then every record names an existing live room of its type in which
  its client still is, and the client belongs to the record's user.\<close>

theorem singleton_records_are_true:
  assumes "mgr_reach owner zero m" "record_of (mg_userSessions m) (u, t) = Some s"
    and quiet: "\<forall>t md. mget (mg_modules m) t = Some md \<longrightarrow> quiet_leave md"
  shows "\<exists>r. Manager_Find (si_RoomID s) m = Some r \<and> rc_Type (rm_config (an_room r)) = t \<and>
    rc_SingletonMode (rm_config (an_room r)) \<noteq> SingletonAllow \<and> \<not> rm_done (an_room r) \<and>
    si_ClientID s \<in> members (an_room r) \<and> owner (si_ClientID s) = u"
proof -
  have ok: "mgr_ok owner m" by (rule mgr_reach_ok [OF assms(1) quiet])
  from mgr_okD(3) [OF this assms(2)] obtain r where "mget (mg_rooms m) (si_RoomID s) = Some r"
    and "si_ClientID s \<in> members (an_room r)" "rc_Type (rm_config (an_room r)) = t"
    "rc_SingletonMode (rm_config (an_room r)) \<noteq> SingletonAllow" "owner (si_ClientID s) = u"
    by (auto simp: record_true_def at_room_def cfg_at_def)
  moreover from rooms_okD [OF mgr_okD(1) [OF ok] this(1)] have "\<not> rm_done (an_room r)"
    by (simp add: any_ok_def)
  ultimately show ?thesis by (simp add: Manager_Find_def)
qed

theorem singleton_records_are_true_witness:
  "\<exists>r. Manager_Find ''g_1'' (game_mgr 1 (seat 1 ''u'') [] (place ''u'' ''g_1'' 1)) = Some r \<and> 1 \<in> members (an_room r)"
  using singleton_records_are_true [OF game_seated game_record game_modules_quiet] by auto

text \<open>C33: a refusal is justified. In a manager whose calls were made one after the other as in the
  theorem above, with \<open>OnLeave\<close> hooks that do not panic: when \<open>JoinRoom\<close> answers
  \<open>ErrAlreadyInRoomOfType\<close> nothing has changed, nothing was published, and the user really is in a room
  of that type with another connection or in another room. (Of calls that overlap this is not claimed:
  there the record may be the reservation of a join that fails later.)\<close>

theorem singleton_refusal_is_justified:
  assumes "mgr_reach owner zero m" "owner c = u"
    and "Manager_JoinRoom now u c i m = (Val (Inl ErrAlreadyInRoomOfType), m', es)"
    and quiet: "\<forall>t md. mget (mg_modules m) t = Some md \<longrightarrow> quiet_leave md"
  shows "m' = m \<and> es = [] \<and> (\<exists>j d r r'. Manager_Find i m = Some r \<and> Manager_Find j m = Some r' \<and>
    d \<in> members (an_room r') \<and> owner d = u \<and> (j, d) \<noteq> (i, c) \<and>
    rc_Type (rm_config (an_room r')) = rc_Type (rm_config (an_room r)))"
proof -
  have ok: "mgr_ok owner m" by (rule mgr_reach_ok [OF assms(1) quiet])
  obtain r where r: "mget (mg_rooms m) i = Some r"
    using assms(3) by (cases "mget (mg_rooms m) i") (auto simp: Manager_JoinRoom_def)
  from ok r refl assms(3) show ?thesis
  proof (cases rule: JoinRoom_cases)
    case rejected
    then obtain s where s: "record_of (mg_userSessions m) (u, rc_Type (rm_config (an_room r))) = Some s"
      "si_RoomID s \<noteq> i \<or> si_ClientID s \<noteq> c" by blast
    from mgr_okD(3) [OF ok s(1)] obtain r' where "mget (mg_rooms m) (si_RoomID s) = Some r'"
      "si_ClientID s \<in> members (an_room r')" "owner (si_ClientID s) = u"
      "rc_Type (rm_config (an_room r')) = rc_Type (rm_config (an_room r))"
      by (auto simp: record_true_def at_room_def cfg_at_def)
    with rejected s(2) r show ?thesis unfolding Manager_Find_def
      by (intro conjI exI [of _ "si_RoomID s"] exI [of _ "si_ClientID s"] exI [of _ r] exI [of _ r']) auto
  qed auto
qed

theorem singleton_refusal_is_justified_witness:
  "\<exists>j d. at_room (game_mgr 1 (seat 1 ''u'') [] (place ''u'' ''g_1'' 1)) j d \<and> (j, d) \<noteq> (''g_2'', 2)"
  using singleton_refusal_is_justified [OF game_seated _ game_refused game_modules_quiet, of 2]
  by (auto simp: at_room_def Manager_Find_def)

section \<open>Joining\<close>

text \<open>C9: in a manager reached as above, with \<open>OnLeave\<close> hooks that do not panic, a successful \<open>JoinRoom\<close>
  does exactly one thing to the membership of the whole server: it puts the client into the room, and if the room's mode is \<open>SingletonReplace\<close> and the user held another
  place of that type, it takes the client of that place out of its room. A room that does not admit
  any number of connections then has the new place on record.\<close>

theorem successful_join_moves_one_client:
  assumes "mgr_reach owner zero m" "owner c = u" "Manager_Find i m = Some r"
    and "Manager_JoinRoom now u c i m = (Val (Inr info), m', es)"
    and quiet: "\<forall>t md. mget (mg_modules m) t = Some md \<longrightarrow> quiet_leave md"
  shows "(\<forall>j d. at_room m' j d \<longleftrightarrow> j = i \<and> d = c \<or> at_room m j d \<and>
      \<not> (rc_SingletonMode (rm_config (an_room r)) = SingletonReplace \<and> (j, d) \<noteq> (i, c) \<and>
         record_of (mg_userSessions m) (u, rc_Type (rm_config (an_room r))) =
           Some \<lparr>si_RoomID = j, si_ClientID = d\<rparr>)) \<and>
    (rc_SingletonMode (rm_config (an_room r)) \<noteq> SingletonAllow \<longrightarrow>
      record_of (mg_userSessions m') (u, rc_Type (rm_config (an_room r))) =
        Some \<lparr>si_RoomID = i, si_ClientID = c\<rparr>)"
proof -
  have ok: "mgr_ok owner m" by (rule mgr_reach_ok [OF assms(1) quiet])
  have r: "mget (mg_rooms m) i = Some r" using assms(3) by (simp add: Manager_Find_def)
  let ?cf = "rm_config (an_room r)"
  from ok r refl assms(4) show ?thesis
  proof (cases rule: JoinRoom_cases)
    case (joined gone us)
    have mv: "at_room m' j d \<longleftrightarrow> j = i \<and> d = c \<or> at_room m j d \<and> gone \<noteq> Some (j, d)" for j d
      using joined(2) by (simp add: moved_def)
    have g: "gone = Some (j, d) \<longleftrightarrow> rc_SingletonMode ?cf = SingletonReplace \<and>
        record_of (mg_userSessions m) (u, rc_Type ?cf) = Some \<lparr>si_RoomID = j, si_ClientID = d\<rparr>"
      if "(j, d) \<noteq> (i, c)" for j d
      using joined(5,6) that by (auto simp: sessionInfo_eq dest!: spec)
    have us: "mg_userSessions m' = us" using joined(2) by (simp add: moved_def)
    show ?thesis
    proof (intro conjI allI impI)
      fix j d
      show "at_room m' j d \<longleftrightarrow> j = i \<and> d = c \<or> at_room m j d \<and>
        \<not> (rc_SingletonMode ?cf = SingletonReplace \<and> (j, d) \<noteq> (i, c) \<and>
           record_of (mg_userSessions m) (u, rc_Type ?cf) = Some \<lparr>si_RoomID = j, si_ClientID = d\<rparr>)"
        using mv [of j d] g [of j d] by (cases "(j, d) = (i, c)") auto
    next
      assume "rc_SingletonMode ?cf \<noteq> SingletonAllow"
      then show "record_of (mg_userSessions m') (u, rc_Type ?cf) = Some \<lparr>si_RoomID = i, si_ClientID = c\<rparr>"
        using joined(4) us by (simp add: record_of_put)
    qed
  qed auto
qed

theorem successful_join_moves_one_client_witness:
  "at_room (game_mgr 1 (seat 1 ''u'') [] (place ''u'' ''g_1'' 1)) ''g_1'' 1 \<and>
   record_of (mg_userSessions (game_mgr 1 (seat 1 ''u'') [] (place ''u'' ''g_1'' 1))) (''u'', ''g'') =
     Some \<lparr>si_RoomID = ''g_1'', si_ClientID = 1\<rparr>"
  using successful_join_moves_one_client [OF game_start _ game_find(1) game_join_1 game_modules_quiet, of "\<lambda>_. ''u''" 1 "''u''"]
  by (auto simp: fits16_def game_room_sel game_config_def)

text \<open>A failed \<open>JoinRoom\<close> moves nobody: whatever the error, every room has the members it had, and
  nothing was published.\<close>

lemma failed_join_moves_nobody:
  assumes "mgr_reach owner zero m" "Manager_JoinRoom now u c i m = (Val (Inl e), m', es)"
    and quiet: "\<forall>t md. mget (mg_modules m) t = Some md \<longrightarrow> quiet_leave md"
  shows "at_room m' = at_room m \<and> cfg_at m' = cfg_at m \<and> es = []"
proof (cases "mget (mg_rooms m) i")
  case None
  with assms(2) show ?thesis by (auto simp: Manager_JoinRoom_def)
next
  case (Some r)
  from mgr_reach_ok [OF assms(1) quiet] Some refl assms(2) show ?thesis
    by (cases rule: JoinRoom_cases) auto
qed

text \<open>But a failed join forgets where the user is. If the room that refused is not of the mode
  \<open>SingletonAllow\<close> and the refusal came from the room itself, the user has no record for the type
  afterwards, although a place held before is still held.\<close>

lemma failed_join_forgets_the_old_place:
  assumes "mgr_reach owner zero m" "Manager_Find i m = Some r"
    and "rc_SingletonMode (rm_config (an_room r)) \<noteq> SingletonAllow"
    and "Manager_JoinRoom now u c i m = (Val (Inl e), m', es)" "e \<noteq> ErrAlreadyInRoomOfType"
    and quiet: "\<forall>t md. mget (mg_modules m) t = Some md \<longrightarrow> quiet_leave md"
  shows "record_of (mg_userSessions m') (u, rc_Type (rm_config (an_room r))) = None \<and> at_room m' = at_room m"
proof -
  have r: "mget (mg_rooms m) i = Some r" using assms(2) by (simp add: Manager_Find_def)
  from mgr_reach_ok [OF assms(1) quiet] r refl assms(4) show ?thesis
    by (cases rule: JoinRoom_cases) (use assms(3,5) in auto)
qed

text \<open>C28: so the singleton rule can be broken. In the mode \<open>SingletonReject\<close> a user who is in a full
  room, rejoins it with the same connection and is refused as if the room were full for them, can
  then join a second room of the type with another connection: a reachable state has the user in
  two rooms of a type that allows one.\<close>

theorem singleton_rule_can_be_broken:
  "\<exists>m r r'. mgr_reach (\<lambda>_. ''u'') () m \<and> Manager_Find ''g_1'' m = Some r \<and> Manager_Find ''g_2'' m = Some r' \<and>
     rc_SingletonMode (rm_config (an_room r)) = SingletonReject \<and> rm_config (an_room r') = rm_config (an_room r) \<and>
     members (an_room r) = {1} \<and> members (an_room r') = {2}"
  using game_twice
  by (intro exI [of _ "game_mgr 1 (seat 1 ''u'') (seat 2 ''u'') (place ''u'' ''g_2'' 2)"]
        exI [of _ "game_room 1 ''g_1'' (seat 1 ''u'')"] exI [of _ "game_room 1 ''g_2'' (seat 2 ''u'')"])
     (simp add: game_find game_room_sel game_config_def)

section \<open>Removing\<close>

text \<open>\<open>Remove\<close> takes out exactly one room and everything that mentions it: the room is gone, no
  singleton record names it, every other room and every other record is as before, and the lobby
  hears of it last.\<close>

lemma remove_takes_out_one_room:
  assumes "mgr_reach owner zero m" "Manager_Find i m = Some r" "fits16 i"
    and "Manager_Remove i m = (res, m', es)"
    and quiet: "\<forall>t md. mget (mg_modules m) t = Some md \<longrightarrow> quiet_leave md"
  shows "mget (mg_rooms m') = (mget (mg_rooms m))(i := None) \<and>
    (\<forall>k s. record_of (mg_userSessions m') k = Some s \<longleftrightarrow>
       record_of (mg_userSessions m) k = Some s \<and> si_RoomID s \<noteq> i) \<and>
    res = Val () \<and> (\<exists>es0 ev. es = es0 @ [Pub ''lobby'' ev] \<and> ev_Op ev = EventRoomRemoved \<and>
       Decode RoomRemoved_zero RoomRemoved_Unmarshal (ev_Payload ev) = Inr \<lparr>rr_ID = i\<rparr>)"
proof -
  have ok: "mgr_ok owner m" by (rule mgr_reach_ok [OF assms(1) quiet])
  have r: "mget (mg_rooms m) i = Some r" using assms(2) by (simp add: Manager_Find_def)
  note m' = Remove_rooms [OF assms(4) r]
  have e: "Encode (Some (RoomRemoved_Marshal \<lparr>rr_ID = i\<rparr>)) = Val (RoomRemoved_enc \<lparr>rr_ID = i\<rparr>)"
    using assms(3) by (simp add: roomRemoved.Encode_eq RoomRemoved_fits_def)
  have "Decode RoomRemoved_zero RoomRemoved_Unmarshal (RoomRemoved_enc \<lparr>rr_ID = i\<rparr>) = Inr \<lparr>rr_ID = i\<rparr>"
    by (rule roomRemoved.Decode_Encode [OF e])
  then have ev: "res = Val () \<and> (\<exists>es0 ev. es = es0 @ [Pub ''lobby'' ev] \<and> ev_Op ev = EventRoomRemoved \<and>
       Decode RoomRemoved_zero RoomRemoved_Unmarshal (ev_Payload ev) = Inr \<lparr>rr_ID = i\<rparr>)"
    using assms(4) r e by (auto simp: Manager_Remove_def NewEvent_def Let_def split: prod.splits)
  show ?thesis using m' ev Remove_record [OF ok r] by simp
qed

section \<open>Room types\<close>

lemma claim_ops_cases:
  assumes "distinct ops"
  shows "(fst (claim_ops t ops ot) = None \<longleftrightarrow> (\<forall>op\<in>set ops. mget ot op = None)) \<and>
    (fst (claim_ops t ops ot) = None \<longrightarrow>
      (\<forall>op. mget (snd (claim_ops t ops ot)) op = (if op \<in> set ops then Some t else mget ot op)))"
  using assms by (induction ops arbitrary: ot) (auto split: option.splits)

text \<open>\<open>RegisterModule\<close> succeeds exactly if the type has a name, is new, and no opcode of the module is
  taken; then the type's messages are routed to it and every other opcode is routed as before.\<close>

lemma register_module_claims_its_opcodes:
  assumes "mwf (md_handlers md)"
  shows "(fst (RegisterModule md m) = Val () \<longleftrightarrow> md_typ md \<noteq> [] \<and> \<not> mhas (mg_modules m) (md_typ md) \<and>
      (\<forall>op\<in>set (Module_Ops md). OpType op m = None)) \<and>
    (fst (RegisterModule md m) = Val () \<longrightarrow>
      (\<forall>op. OpType op (snd (RegisterModule md m)) =
         (if op \<in> set (Module_Ops md) then Some (md_typ md) else OpType op m)) \<and>
      mget (mg_modules (snd (RegisterModule md m))) = (mget (mg_modules m))(md_typ md \<mapsto> md))"
proof -
  have "distinct (Module_Ops md)" using assms by (simp add: Module_Ops_def distinct_mkeys)
  from claim_ops_cases [OF this, of "md_typ md" "mg_opTypes m"] show ?thesis
    by (cases "claim_ops (md_typ md) (Module_Ops md) (mg_opTypes m)")
       (auto simp: RegisterModule_def Module_RoomType_def OpType_def Let_def split: option.splits)
qed

text \<open>A room of a registered type plays by the type's rules: it gets the module's singleton mode and
  grace whatever the request says, and the request's name, player cap and options only where it
  gives them. The new room is empty, open, live and findable under its ID.\<close>

lemma created_room_plays_by_its_type:
  assumes "mget (mg_modules m) (rc_Type config) = Some md"
    and "Manager_Create zero uuid config m = (Val r, m', es)"
  shows "let cf = rm_config (an_room r); base = md_config md in
    rc_Type cf = rc_Type config \<and> rc_SingletonMode cf = rc_SingletonMode base \<and>
    rc_EmptyGrace cf = rc_EmptyGrace base \<and>
    rc_MaxPlayers cf = (if rc_MaxPlayers config = 0 then rc_MaxPlayers base else rc_MaxPlayers config) \<and>
    rc_Options cf = (if rc_Options config = [] then rc_Options base else rc_Options config) \<and>
    rc_Name cf = (if rc_Name config \<noteq> [] then rc_Name config
                  else if rc_Name base \<noteq> [] then rc_Name base else rc_Type config) \<and>
    an_module r = md \<and> members (an_room r) = {} \<and> rm_isOpen (an_room r) \<and> \<not> rm_done (an_room r) \<and>
    rm_id (an_room r) = rc_Name cf @ ''_'' @ uuid \<and> Manager_Find (rm_id (an_room r)) m' = Some r"
proof -
  obtain r0 es0 where n: "newRoom uuid (room_config md config) md = (r0, es0)" by force
  have r: "r = \<lparr>an_module = md, an_room = Room_setOnEmpty r0\<rparr>" and m': "m' = set_room (rm_id r0) r m"
    using assms n
    by (auto simp: Manager_Create_def Room_setOnEmpty_def Let_def split: sum.splits outcome.splits)
  have cf: "rm_config r0 = room_config md config" by (rule newRoom_core(2) [OF n])
  show ?thesis
    using newRoom_core [OF n] r m'
    by (auto simp: cf Let_def Room_setOnEmpty_def room_config_def Module_BaseConfig_def ApplyDefaults_def
        members_def Manager_Find_def)
qed

section \<open>Room messages\<close>

lemma handle_of_stranger:
  assumes "Room_HandleMessage md ctx c op pl r = (h, r', es)"
  shows "c \<notin> members r \<and> \<not> rm_done r \<longrightarrow> h = Inl ErrNotInRoom \<and> r' = r \<and> es = []"
  using assms by (auto simp: Room_HandleMessage_def room_do_def handle_step_def members_def split: option.splits)

lemma match_rooms_one:
  assumes "filter (\<lambda>i. \<exists>cf. cfg_at m i = Some cf \<and> rc_Type cf = ty) ids = [i]"
  shows "\<exists>r. mget (mg_rooms m) i = Some r \<and> match_rooms ty ids None 0 m = (Some (r, i), 1)"
proof -
  obtain mt n where e: "match_rooms ty ids None 0 m = (mt, n)" by force
  have n: "n = 1" using match_rooms_count [of ty ids None 0 m] assms e by simp
  with match_rooms_sound [OF e] obtain r j where "mt = Some (r, j)" "mget (mg_rooms m) j = Some r"
    "rc_Type (rm_config (an_room r)) = ty" "j \<in> set ids" by auto
  moreover from this have "j \<in> set (filter (\<lambda>i. \<exists>cf. cfg_at m i = Some cf \<and> rc_Type cf = ty) ids)"
    by (simp add: cfg_at_def)
  then have "j = i" using assms by simp
  ultimately show ?thesis using e n by simp
qed

text \<open>C26: a room message is routed by the list of room IDs that comes with it, the rooms the connection
  is subscribed to. No module claims the opcode: not handled. No listed room is of the opcode's type:
  \<open>ErrNotInRoom\<close>. Several are: \<open>ErrAmbiguousRoom\<close>, whichever of them the client is a player of. Exactly
  one: the message is handled in that room, which answers \<open>ErrNotInRoom\<close> if it is live and the client is
  not a player of it; only that room's state changes and only what its handler sends is published. In
  no case does a message move a client, change a configuration or a singleton record.\<close>

theorem dispatch_by_room_type:
  assumes "DispatchRoomMessage ctx c op payload ids m = (res, m', es)"
  shows "at_room m' = at_room m \<and> cfg_at m' = cfg_at m \<and> mg_userSessions m' = mg_userSessions m \<and>
    (case OpType op m of
       None \<Rightarrow> res = None \<and> m' = m \<and> es = []
     | Some ty \<Rightarrow>
         (case filter (\<lambda>i. \<exists>cf. cfg_at m i = Some cf \<and> rc_Type cf = ty) ids of
            [] \<Rightarrow> res = Some (Inl ErrNotInRoom) \<and> m' = m \<and> es = []
          | [i] \<Rightarrow> (\<exists>r h r'. Manager_Find i m = Some r \<and> res = Some h \<and> m' = set_room i (r\<lparr>an_room := r'\<rparr>) m \<and>
              Room_HandleMessage (an_module r) ctx c op payload (an_room r) = (h, r', es) \<and>
              (c \<notin> members (an_room r) \<and> \<not> rm_done (an_room r) \<longrightarrow> h = Inl ErrNotInRoom \<and> r' = an_room r \<and> es = []))
          | _ \<Rightarrow> res = Some (Inl ErrAmbiguousRoom) \<and> m' = m \<and> es = []))"
proof -
  note keep = Dispatch_keeps [OF assms]
  show ?thesis
  proof (cases "OpType op m")
    case None
    with assms show ?thesis by (simp add: DispatchRoomMessage_def)
  next
    case (Some ty)
    let ?f = "filter (\<lambda>i. \<exists>cf. cfg_at m i = Some cf \<and> rc_Type cf = ty) ids"
    obtain mt n where e: "match_rooms ty ids None 0 m = (mt, n)" by force
    have n: "n = length ?f" using match_rooms_count [of ty ids None 0 m] e by simp
    consider "?f = []" | i where "?f = [i]" | i j fs where "?f = i # j # fs"
      by (cases ?f rule: remdups_adj.cases) auto
    then show ?thesis
    proof cases
      case 1
      with n match_rooms_sound [OF e] have "mt = None" by auto
      with 1 Some e assms show ?thesis by (simp add: DispatchRoomMessage_def)
    next
      case (2 i)
      from match_rooms_one [OF 2] obtain r where r: "mget (mg_rooms m) i = Some r"
        and "match_rooms ty ids None 0 m = (Some (r, i), 1)" by blast
      moreover obtain h r' es' where h: "Room_HandleMessage (an_module r) ctx c op payload (an_room r) = (h, r', es')"
        by (metis prod_cases3)
      ultimately have "res = Some h" "m' = set_room i (r\<lparr>an_room := r'\<rparr>) m" "es = es'"
        using Some assms by (simp_all add: DispatchRoomMessage_def)
      with 2 keep Some r h handle_of_stranger [OF h] show ?thesis by (simp add: Manager_Find_def)
    next
      case (3 i j fs)
      with n match_rooms_sound [OF e] obtain r k where "mt = Some (r, k)" "n \<noteq> 1" by auto
      with 3 Some e assms show ?thesis by (auto simp: DispatchRoomMessage_def)
    qed
  qed
qed

theorem dispatch_by_room_type_witness:
  "\<exists>h r'. Room_HandleMessage echo False 1 100 [7] (an_room (echo_room ''e_1'' 4 (seat 1 ''u''))) = (h, r', []) \<and>
     rm_State r' = 5 \<and> h = Inr (Some (\<lambda>buf. Val (buf @ [7])))"
  using dispatch_by_room_type [OF echo_answer [of False "[7]" 4 "[]"]]
  by (auto simp: set_room_def mput_def echo_simps)

text \<open>So a client that is a player of one room of a type, but still subscribed to another room of the type
  (as one that was kicked is), cannot reach the room it is in.\<close>

lemma message_of_one_room_can_be_ambiguous:
  "at_room (echo_mgr n [] (seat 1 ''u'')) i 1 \<longleftrightarrow> i = ''e_2''"
  "fst (DispatchRoomMessage ctx 1 100 pl [''e_1'', ''e_2''] (echo_mgr n [] (seat 1 ''u''))) = Some (Inl ErrAmbiguousRoom)"
  by (auto simp: at_room_def members_def DispatchRoomMessage_def echo_simps split: if_splits)

end
