(* ===== verification/Manager_Live.thy ===== *)
theory Manager_Live
  imports Manager_Runs
begin

text \<open>
  What an operation of the manager does to the membership of the rooms in any state, with or without
  the invariant of the manager: who may be in a room afterwards, and that the rooms stay live.
\<close>

section \<open>Members after a manager operation\<close>

lemma room_adds:
  assumes "mget (mg_rooms m) i = Some r" "at_room (set_room i (r\<lparr>an_room := r'\<rparr>) m) j x"
  shows "Room_Join (an_module r) now c u (an_room r) = (a, r', es) \<Longrightarrow> at_room m j x \<or> j = i \<and> x = c"
    and "Room_JoinReplace (an_module r) now d c u (an_room r) = (a, r', es) \<Longrightarrow> at_room m j x \<or> j = i \<and> x = c"
    and "Room_Leave (an_module r) c (an_room r) = (b, r', es) \<Longrightarrow> at_room m j x"
  using assms ar.join_mem [of "an_module r" now c u "an_room r" a r' es]
    ar.replace_mem [of "an_module r" now d c u "an_room r" a r' es]
    ar.leave_mem [of "an_module r" c "an_room r" b r' es]
  by (auto simp: at_room_set at_roomI split: if_splits)

lemma join_or_replace_adds:
  assumes "join_or_replace now u c i r rep m = (res, m', es)" "mget (mg_rooms m) i = Some r" "at_room m' j x"
  shows "at_room m j x \<or> j = i \<and> x = c"
proof (cases "\<exists>s. rep = Some s \<and> si_RoomID s = i")
  case True
  then obtain s where s: "rep = Some s" "si_RoomID s = i" by blast
  obtain a r' es' where j: "Room_JoinReplace (an_module r) now (si_ClientID s) c u (an_room r) = (a, r', es')"
    by (metis prod_cases3)
  have "m' = set_room i (r\<lparr>an_room := r'\<rparr>) m"
    using assms(1) s j by (auto simp: join_or_replace_def Let_def split: if_splits dest!: kick_fields)
  with room_adds(2) [OF assms(2) _ j] assms(3) show ?thesis by simp
next
  case False
  obtain a r' es' where j: "Room_Join (an_module r) now c u (an_room r) = (a, r', es')" by (metis prod_cases3)
  let ?m = "set_room i (r\<lparr>an_room := r'\<rparr>) m"
  have one: "at_room ?m j x \<Longrightarrow> at_room m j x \<or> j = i \<and> x = c" by (rule room_adds(1) [OF assms(2) _ j])
  have "at_room ?m j x"
  proof (cases rep)
    case None
    with assms(1,3) j show ?thesis by (simp add: join_or_replace_def)
  next
    case (Some s)
    with False have ne: "si_RoomID s \<noteq> i" by blast
    show ?thesis
    proof (cases "a = Val None \<and> Manager_Find (si_RoomID s) ?m \<noteq> None")
      case True
      then obtain o' where o': "mget (mg_rooms ?m) (si_RoomID s) = Some o'" by (auto simp: Manager_Find_def)
      obtain b or' es2 where l: "Room_Leave (an_module o') (si_ClientID s) (an_room o') = (b, or', es2)"
        by (metis prod_cases3)
      have "m' = set_room (si_RoomID s) (o'\<lparr>an_room := or'\<rparr>) ?m"
        using assms(1) Some ne j True o' l
        by (auto simp: join_or_replace_def Let_def Manager_Find_def split: outcome.splits dest!: kick_fields)
      with room_adds(3) [OF o' _ l] assms(3) show ?thesis by simp
    next
      case False
      with assms(1) Some ne j have "m' = ?m"
        by (auto simp: join_or_replace_def Let_def split: if_splits option.splits dest!: kick_fields)
      with assms(3) show ?thesis by simp
    qed
  qed
  with one show ?thesis by simp
qed

lemma JoinRoom_adds:
  assumes "Manager_JoinRoom now u c i m = (res, m', es)" "at_room m' j x"
  shows "at_room m j x \<or> j = i \<and> x = c"
proof (cases "mget (mg_rooms m) i")
  case None
  with assms show ?thesis by (simp add: Manager_JoinRoom_def)
next
  case (Some r)
  let ?cf = "rm_config (an_room r)"
  obtain rr us where rv: "reserve (rc_SingletonMode ?cf) (rc_Type ?cf) u c i (mg_userSessions m) = (rr, us)" by force
  show ?thesis
  proof (cases rr)
    case (Inl e)
    with assms rv Some show ?thesis by (auto simp: Manager_JoinRoom_def)
  next
    case (Inr rep)
    obtain a m1 es1 where j: "join_or_replace now u c i r rep (m\<lparr>mg_userSessions := us\<rparr>) = (a, m1, es1)"
      by (metis prod_cases3)
    have "at_room m' = at_room m1"
      using assms(1) rv Some Inr j
      by (auto simp: Manager_JoinRoom_def split: outcome.splits option.splits sum.splits)
    with join_or_replace_adds [OF j, of j x] Some assms(2) show ?thesis by simp
  qed
qed

lemma LeaveRoom_adds:
  assumes "Manager_LeaveRoom u c i m = (res, m', es)" "at_room m' j x"
  shows "at_room m j x"
proof (cases "mget (mg_rooms m) i")
  case None
  with assms show ?thesis by (simp add: Manager_LeaveRoom_def)
next
  case (Some r)
  obtain b r' es' where l: "Room_Leave (an_module r) c (an_room r) = (b, r', es')" by (metis prod_cases3)
  with assms Some obtain us where "m' = set_room i (r\<lparr>an_room := r'\<rparr>) (m\<lparr>mg_userSessions := us\<rparr>)"
    by (auto simp: Manager_LeaveRoom_def Let_def)
  with room_adds(3) [OF _ _ l, of "m\<lparr>mg_userSessions := us\<rparr>" i j x] Some assms(2) show ?thesis by simp
qed

lemma Remove_adds: "Manager_Remove i m = (res, m', es) \<Longrightarrow> at_room m' j x \<Longrightarrow> at_room m j x"
proof (cases "mget (mg_rooms m) i")
  case (Some r)
  assume "Manager_Remove i m = (res, m', es)" "at_room m' j x"
  with Remove_rooms [OF this(1) Some] show ?thesis by (auto simp: at_room_def split: if_splits)
qed (simp add: Manager_Remove_def)

lemma Create_adds: "Manager_Create zero uuid config m = (res, m', es) \<Longrightarrow> at_room m' j x \<Longrightarrow> at_room m j x"
  by (erule Create_room) (auto simp: at_room_def members_def split: if_splits)

lemma Dispatch_adds:
  assumes "DispatchRoomMessage ctx c op pl ids m = (res, m', es)" "at_room m' j x"
  shows "at_room m j x"
proof (cases "m' = m")
  case True
  with assms show ?thesis by simp
next
  case False
  with assms(1) obtain ty r i count where t: "match_rooms ty ids None 0 m = (Some (r, i), count)"
    and m': "m' = set_room i (r\<lparr>an_room := fst (snd (Room_HandleMessage (an_module r) ctx c op pl (an_room r)))\<rparr>) m"
    by (auto simp: DispatchRoomMessage_def split: option.splits prod.splits if_splits)
  from match_rooms_sound [OF t] have r: "mget (mg_rooms m) i = Some r" by auto
  obtain h r' es' where hm: "Room_HandleMessage (an_module r) ctx c op pl (an_room r) = (h, r', es')"
    by (metis prod_cases3)
  with ar.handle_mem [OF hm] r m' assms(2) show ?thesis by (auto simp: at_room_set at_roomI split: if_splits)
qed

section \<open>Rooms of the manager are live\<close>

text \<open>A room that is shut down is no longer in the manager.\<close>

definition live :: "'s Manager \<Rightarrow> bool" where
  "live m \<longleftrightarrow> (\<forall>i r. mget (mg_rooms m) i = Some r \<longrightarrow> \<not> rm_done (an_room r))"

lemma live_set: "live m \<Longrightarrow> \<not> rm_done (an_room r) \<Longrightarrow> live (set_room i r m)"
  by (auto simp: live_def set_room_def)

lemma live_sessions [simp]: "live (m\<lparr>mg_userSessions := us\<rparr>) = live m"
  by (simp add: live_def)

lemma live_room:
  assumes "live m" "mget (mg_rooms m) i = Some r"
  shows "Room_Join (an_module r) now c u (an_room r) = (a, r', es) \<Longrightarrow> live (set_room i (r\<lparr>an_room := r'\<rparr>) m)"
    "Room_JoinReplace (an_module r) now d c u (an_room r) = (a, r', es) \<Longrightarrow> live (set_room i (r\<lparr>an_room := r'\<rparr>) m)"
    "Room_Leave (an_module r) c (an_room r) = (b, r', es) \<Longrightarrow> live (set_room i (r\<lparr>an_room := r'\<rparr>) m)"
    "Room_HandleMessage (an_module r) ctx c op pl (an_room r) = (h, r', es) \<Longrightarrow> live (set_room i (r\<lparr>an_room := r'\<rparr>) m)"
proof -
  have "\<not> rm_done (an_room r)" using assms by (simp add: live_def)
  then show "Room_Join (an_module r) now c u (an_room r) = (a, r', es) \<Longrightarrow> live (set_room i (r\<lparr>an_room := r'\<rparr>) m)"
    "Room_JoinReplace (an_module r) now d c u (an_room r) = (a, r', es) \<Longrightarrow> live (set_room i (r\<lparr>an_room := r'\<rparr>) m)"
    "Room_Leave (an_module r) c (an_room r) = (b, r', es) \<Longrightarrow> live (set_room i (r\<lparr>an_room := r'\<rparr>) m)"
    "Room_HandleMessage (an_module r) ctx c op pl (an_room r) = (h, r', es) \<Longrightarrow> live (set_room i (r\<lparr>an_room := r'\<rparr>) m)"
    by (auto intro!: live_set [OF assms(1)] dest: ar.ident_rules)
qed

lemma join_or_replace_live:
  assumes "join_or_replace now u c i r rep m = (res, m', es)" "live m" "mget (mg_rooms m) i = Some r"
  shows "live m'"
  using assms live_room(1,2) [OF assms(2,3)]
  by (auto simp: join_or_replace_def Manager_Find_def Let_def split: option.splits prod.splits if_splits outcome.splits
      dest!: kick_fields intro: live_room(3))

lemma JoinRoom_live: "Manager_JoinRoom now u c i m = (res, m', es) \<Longrightarrow> live m \<Longrightarrow> live m'"
proof (cases "mget (mg_rooms m) i")
  case (Some r)
  let ?cf = "rm_config (an_room r)"
  assume j: "Manager_JoinRoom now u c i m = (res, m', es)" and l: "live m"
  obtain rr us where rv: "reserve (rc_SingletonMode ?cf) (rc_Type ?cf) u c i (mg_userSessions m) = (rr, us)" by force
  show ?thesis
  proof (cases rr)
    case (Inr rep)
    obtain a m1 es1 where jr: "join_or_replace now u c i r rep (m\<lparr>mg_userSessions := us\<rparr>) = (a, m1, es1)"
      by (metis prod_cases3)
    have "live m1" by (rule join_or_replace_live [OF jr]) (use l Some in simp_all)
    with j rv Some Inr jr show ?thesis
      by (auto simp: Manager_JoinRoom_def split: outcome.splits option.splits sum.splits)
  qed (use j l rv Some in \<open>auto simp: Manager_JoinRoom_def\<close>)
qed (simp add: Manager_JoinRoom_def)

lemma LeaveRoom_live: "Manager_LeaveRoom u c i m = (res, m', es) \<Longrightarrow> live m \<Longrightarrow> live m'"
  by (auto simp: Manager_LeaveRoom_def Let_def split: option.splits prod.splits intro: live_room(3))

lemma Remove_live: "Manager_Remove i m = (res, m', es) \<Longrightarrow> live m \<Longrightarrow> live m'"
proof (cases "mget (mg_rooms m) i")
  case (Some r)
  assume rm: "Manager_Remove i m = (res, m', es)" and "live m"
  with Remove_rooms [OF rm Some] show ?thesis by (simp add: live_def)
qed (simp add: Manager_Remove_def)

lemma Create_live: "Manager_Create zero uuid config m = (res, m', es) \<Longrightarrow> live m \<Longrightarrow> live m'"
  by (erule Create_room) (auto intro: live_set)

lemma Dispatch_live: "DispatchRoomMessage ctx c op pl ids m = (res, m', es) \<Longrightarrow> live m \<Longrightarrow> live m'"
  by (auto simp: DispatchRoomMessage_def split: option.splits prod.splits if_splits
      dest!: match_rooms_sound intro: live_room(4))

end
