(* ===== verification/Manager_Race.thy ===== *)
theory Manager_Race
  imports Manager_Live Manager_Demo
begin

text \<open>
  Concurrent calls of \<open>JoinRoom\<close>, \<open>LeaveRoom\<close> and \<open>Remove\<close>. A call is a thread with a program counter, which
  carries the local variables the rest of the call needs; a step is one critical section of the manager,
  one operation of a room, or one publication. Any number of calls run and interleave freely, with new
  rooms, messages and ticks in between. A room that \<open>Remove\<close> has taken out of the map lives on for the
  calls that still hold it: \<open>hp_gone\<close>.
\<close>

section \<open>Critical sections\<close>

record 's heap =
  hp_mgr :: "'s Manager"
  hp_gone :: "(string, 's AnyRoom) gomap"
  hp_out :: "eff list"

datatype req =
    ReqJoin string uint64 string
  | ReqLeave string uint64 string
  | ReqRemove string

datatype mpc =
    At_lock \<comment> \<open>before \<open>m.mu.Lock()\<close>\<close>
  | Reserved "sessionInfo option" \<comment> \<open>before \<open>r.Join\<close> or \<open>r.JoinReplace\<close>, with \<open>replaced\<close>\<close>
  | Failed goerror \<comment> \<open>before the rollback, with \<open>joinErr\<close>\<close>
  | Joined sessionInfo \<comment> \<open>before \<open>m.Find(replaced.RoomID)\<close>\<close>
  | Evicting sessionInfo \<comment> \<open>before \<open>oldRoom.Leave(replaced.ClientID)\<close>\<close>
  | Kicking sessionInfo \<comment> \<open>before the event for the replaced client\<close>
  | At_info \<comment> \<open>before \<open>r.Info()\<close>\<close>
  | JRet "(goerror + RoomInfo) outcome"
  | Dropped \<comment> \<open>of \<open>LeaveRoom\<close>, before \<open>r.Leave(clientID)\<close>\<close>
  | Taken \<comment> \<open>of \<open>Remove\<close>, before \<open>room.Shutdown()\<close>\<close>
  | Shut \<comment> \<open>of \<open>Remove\<close>, before the event for the lobby\<close>
  | Ret "unit outcome"

text \<open>The room object of an ID: IDs are not reused, so an ID stands for the pointer a call holds.\<close>

definition obj :: "'s heap \<Rightarrow> string \<Rightarrow> 's AnyRoom option" where
  "obj h i = (case mget (mg_rooms (hp_mgr h)) i of Some r \<Rightarrow> Some r | None \<Rightarrow> mget (hp_gone h) i)"

definition put_obj :: "string \<Rightarrow> 's AnyRoom \<Rightarrow> 's heap \<Rightarrow> 's heap" where
  "put_obj i r h =
     (if mhas (mg_rooms (hp_mgr h)) i then h\<lparr>hp_mgr := set_room i r (hp_mgr h)\<rparr>
      else h\<lparr>hp_gone := mput i r (hp_gone h)\<rparr>)"

definition emit :: "eff list \<Rightarrow> 's heap \<Rightarrow> 's heap" where
  "emit es h = h\<lparr>hp_out := hp_out h @ es\<rparr>"

definition set_sessions :: "user_sessions \<Rightarrow> 's heap \<Rightarrow> 's heap" where
  "set_sessions us h = h\<lparr>hp_mgr := (hp_mgr h)\<lparr>mg_userSessions := us\<rparr>\<rparr>"

text \<open>An operation of the room object, and a publication.\<close>

definition on_obj ::
  "string \<Rightarrow> ('s AnyRoom \<Rightarrow> 'a \<times> 's Room \<times> eff list) \<Rightarrow> 's heap \<Rightarrow> ('a \<times> 's heap) option" where
  "on_obj i f h =
     (case obj h i of
        None \<Rightarrow> None
      | Some r \<Rightarrow> (case f r of (a, r', es) \<Rightarrow> Some (a, emit es (put_obj i (r\<lparr>an_room := r'\<rparr>) h))))"

subsection \<open>JoinRoom\<close>

definition join_lock :: "string \<Rightarrow> uint64 \<Rightarrow> string \<Rightarrow> 's heap \<Rightarrow> mpc \<times> 's heap" where
  "join_lock userID clientID roomID h =
     (case mget (mg_rooms (hp_mgr h)) roomID of
        None \<Rightarrow> (JRet (Val (Inl ErrRoomNotFound)), h)
      | Some r \<Rightarrow>
          (case reserve (rc_SingletonMode (rm_config (an_room r))) (rc_Type (rm_config (an_room r)))
                  userID clientID roomID (mg_userSessions (hp_mgr h)) of
             (Inl err, us) \<Rightarrow> (JRet (Val (Inl err)), set_sessions us h)
           | (Inr replaced, us) \<Rightarrow> (Reserved replaced, set_sessions us h)))"

definition join_room :: "int \<Rightarrow> string \<Rightarrow> uint64 \<Rightarrow> string \<Rightarrow> sessionInfo option \<Rightarrow> 's heap \<Rightarrow> (mpc \<times> 's heap) option" where
  "join_room now userID clientID roomID replaced h =
     map_option (\<lambda>(res, h').
         (case res of
            Panic e \<Rightarrow> JRet (Panic e)
          | Val (Some joinErr) \<Rightarrow> Failed joinErr
          | Val None \<Rightarrow>
              (case replaced of
                 None \<Rightarrow> At_info
               | Some old \<Rightarrow> if si_RoomID old = roomID then Kicking old else Joined old), h'))
       (on_obj roomID (\<lambda>r.
          case replaced of
            None \<Rightarrow> Room_Join (an_module r) now clientID userID (an_room r)
          | Some old \<Rightarrow>
              if si_RoomID old = roomID
              then Room_JoinReplace (an_module r) now (si_ClientID old) clientID userID (an_room r)
              else Room_Join (an_module r) now clientID userID (an_room r)) h)"

definition find_old :: "sessionInfo \<Rightarrow> 's heap \<Rightarrow> mpc \<times> 's heap" where
  "find_old old h = (if Manager_Find (si_RoomID old) (hp_mgr h) \<noteq> None then Evicting old else Kicking old, h)"

definition evict :: "sessionInfo \<Rightarrow> 's heap \<Rightarrow> (mpc \<times> 's heap) option" where
  "evict old h =
     map_option (\<lambda>(res, h'). (case res of Panic e \<Rightarrow> JRet (Panic e) | Val _ \<Rightarrow> Kicking old, h'))
       (on_obj (si_RoomID old) (\<lambda>r. Room_Leave (an_module r) (si_ClientID old) (an_room r)) h)"

definition kick_old :: "string \<Rightarrow> sessionInfo \<Rightarrow> 's heap \<Rightarrow> mpc \<times> 's heap" where
  "kick_old roomID old h =
     (case kicked_event roomID of
        Panic e \<Rightarrow> (JRet (Panic e), h)
      | Val ev \<Rightarrow> (At_info, emit [Pub (clientTopic (si_ClientID old)) ev] h))"

definition join_undo :: "string \<Rightarrow> uint64 \<Rightarrow> string \<Rightarrow> goerror \<Rightarrow> 's heap \<Rightarrow> (mpc \<times> 's heap) option" where
  "join_undo userID clientID roomID joinErr h =
     map_option (\<lambda>r. (JRet (Val (Inl joinErr)),
         set_sessions (rollback (rc_SingletonMode (rm_config (an_room r))) (rc_Type (rm_config (an_room r)))
           userID clientID (mg_userSessions (hp_mgr h))) h))
       (obj h roomID)"

definition join_info :: "string \<Rightarrow> 's heap \<Rightarrow> (mpc \<times> 's heap) option" where
  "join_info roomID h =
     map_option (\<lambda>r. (JRet (Val (case Room_Info (an_room r) of
         Inl err \<Rightarrow> Inl ErrRoomNotFound | Inr info \<Rightarrow> Inr info)), h))
       (obj h roomID)"

subsection \<open>LeaveRoom and Remove\<close>

definition leave_lock :: "string \<Rightarrow> uint64 \<Rightarrow> string \<Rightarrow> 's heap \<Rightarrow> mpc \<times> 's heap" where
  "leave_lock userID clientID roomID h =
     (case mget (mg_rooms (hp_mgr h)) roomID of
        None \<Rightarrow> (Ret (Val ()), h)
      | Some r \<Rightarrow>
          (Dropped, set_sessions (drop_session (rc_SingletonMode (rm_config (an_room r)))
             (rc_Type (rm_config (an_room r))) userID clientID roomID (mg_userSessions (hp_mgr h))) h))"

definition leave_room :: "uint64 \<Rightarrow> string \<Rightarrow> 's heap \<Rightarrow> (mpc \<times> 's heap) option" where
  "leave_room clientID roomID h =
     map_option (\<lambda>(res, h'). (Ret res, h'))
       (on_obj roomID (\<lambda>r. Room_Leave (an_module r) clientID (an_room r)) h)"

definition remove_lock :: "string \<Rightarrow> 's heap \<Rightarrow> mpc \<times> 's heap" where
  "remove_lock i h =
     (case mget (mg_rooms (hp_mgr h)) i of
        None \<Rightarrow> (Ret (Val ()), h)
      | Some r \<Rightarrow>
          (Taken, h\<lparr>hp_mgr := (hp_mgr h)\<lparr>mg_rooms := mdel i (mg_rooms (hp_mgr h)),
                      mg_userSessions := cleanupSessionType (rc_Type (rm_config (an_room r))) i
                        (mg_userSessions (hp_mgr h))\<rparr>,
                    hp_gone := mput i r (hp_gone h)\<rparr>))"

definition remove_shut :: "string \<Rightarrow> 's heap \<Rightarrow> (mpc \<times> 's heap) option" where
  "remove_shut i h =
     map_option (\<lambda>(u, h'). (Shut, h'))
       (on_obj i (\<lambda>r. ((), Room_Shutdown (an_module r) (an_room r))) h)"

definition remove_announce :: "string \<Rightarrow> 's heap \<Rightarrow> mpc \<times> 's heap" where
  "remove_announce i h =
     (case NewEvent EventRoomRemoved (Some (RoomRemoved_Marshal \<lparr>rr_ID = i\<rparr>)) of
        Panic e \<Rightarrow> (Ret (Panic e), h)
      | Val ev \<Rightarrow> (Ret (Val ()), emit [Pub ''lobby'' ev] h))"

subsection \<open>The next step of a call\<close>

fun advance :: "int \<Rightarrow> req \<Rightarrow> mpc \<Rightarrow> 's heap \<Rightarrow> (mpc \<times> 's heap) option" where
  "advance now (ReqJoin u c i) At_lock h = Some (join_lock u c i h)"
| "advance now (ReqJoin u c i) (Reserved replaced) h = join_room now u c i replaced h"
| "advance now (ReqJoin u c i) (Failed joinErr) h = join_undo u c i joinErr h"
| "advance now (ReqJoin u c i) (Joined old) h = Some (find_old old h)"
| "advance now (ReqJoin u c i) (Evicting old) h = evict old h"
| "advance now (ReqJoin u c i) (Kicking old) h = Some (kick_old i old h)"
| "advance now (ReqJoin u c i) At_info h = join_info i h"
| "advance now (ReqLeave u c i) At_lock h = Some (leave_lock u c i h)"
| "advance now (ReqLeave u c i) Dropped h = leave_room c i h"
| "advance now (ReqRemove i) At_lock h = Some (remove_lock i h)"
| "advance now (ReqRemove i) Taken h = remove_shut i h"
| "advance now (ReqRemove i) Shut h = Some (remove_announce i h)"
| "advance now q p h = None"

text \<open>A call that nobody disturbs, for at most \<open>n\<close> steps.\<close>

fun run_alone :: "nat \<Rightarrow> int \<Rightarrow> req \<Rightarrow> mpc \<times> 's heap \<Rightarrow> mpc \<times> 's heap" where
  "run_alone 0 now q x = x"
| "run_alone (Suc n) now q (p, h) =
     (case advance now q p h of None \<Rightarrow> (p, h) | Some x \<Rightarrow> run_alone n now q x)"

section \<open>Interleavings\<close>

record 's race =
  ra_heap :: "'s heap"
  ra_calls :: "nat \<rightharpoonup> req \<times> mpc"

fun req_ok :: "(uint64 \<Rightarrow> string) \<Rightarrow> req \<Rightarrow> bool" where
  "req_ok owner (ReqJoin u c i) = (owner c = u)"
| "req_ok owner (ReqLeave u c i) = (owner c = u)"
| "req_ok owner (ReqRemove i) = True"

inductive race_step :: "(uint64 \<Rightarrow> string) \<Rightarrow> 's \<Rightarrow> 's race \<Rightarrow> 's race \<Rightarrow> bool" for owner zero where
  call: "\<lbrakk>ra_calls s k = None; req_ok owner q\<rbrakk>
    \<Longrightarrow> race_step owner zero s (s\<lparr>ra_calls := (ra_calls s)(k \<mapsto> (q, At_lock))\<rparr>)"
| go: "\<lbrakk>ra_calls s k = Some (q, p); advance now q p (ra_heap s) = Some (p', h')\<rbrakk>
    \<Longrightarrow> race_step owner zero s \<lparr>ra_heap = h', ra_calls = (ra_calls s)(k \<mapsto> (q, p'))\<rparr>"
| create: "\<lbrakk>obj (ra_heap s) (rc_Name (new_config config (hp_mgr (ra_heap s))) @ ''_'' @ uuid) = None;
      Manager_Create zero uuid config (hp_mgr (ra_heap s)) = (res, m', es)\<rbrakk>
    \<Longrightarrow> race_step owner zero s (s\<lparr>ra_heap := emit es ((ra_heap s)\<lparr>hp_mgr := m'\<rparr>)\<rparr>)"
| message: "on_obj i (\<lambda>r. Room_HandleMessage (an_module r) ctx c op pl (an_room r)) (ra_heap s) = Some (res, h')
    \<Longrightarrow> race_step owner zero s (s\<lparr>ra_heap := h'\<rparr>)"
| tick: "on_obj i (\<lambda>r. ((), if rm_done (an_room r) \<or> \<not> has_ticker (an_module r) then (an_room r, [])
      else tick_step (an_module r) dt (an_room r))) (ra_heap s) = Some (u, h')
    \<Longrightarrow> race_step owner zero s (s\<lparr>ra_heap := h'\<rparr>)"

text \<open>A server before its first room, with the modules of \<open>m\<close>.\<close>

definition race_init :: "'s Manager \<Rightarrow> 's race" where
  "race_init m = \<lparr>ra_heap = \<lparr>hp_mgr = m\<lparr>mg_rooms := mempty, mg_userSessions := mempty\<rparr>, hp_gone = mempty, hp_out = []\<rparr>,
     ra_calls = Map.empty\<rparr>"

inductive race_reach :: "(uint64 \<Rightarrow> string) \<Rightarrow> 's \<Rightarrow> 's Manager \<Rightarrow> 's race \<Rightarrow> bool" for owner zero m where
  init: "race_reach owner zero m (race_init m)"
| step: "\<lbrakk>race_reach owner zero m s; race_step owner zero s s'\<rbrakk> \<Longrightarrow> race_reach owner zero m s'"

fun returned :: "mpc \<Rightarrow> bool" where
  "returned (JRet res) = True"
| "returned (Ret res) = True"
| "returned _ = False"

fun req_client :: "req \<Rightarrow> uint64 option" where
  "req_client (ReqJoin u c i) = Some c"
| "req_client (ReqLeave u c i) = Some c"
| "req_client (ReqRemove i) = None"

text \<open>
  The executions in which the calls of one connection do not overlap and no connection asks to join a
  room that it is in.
\<close>

definition orderly :: "'s race \<Rightarrow> bool" where
  "orderly s \<longleftrightarrow>
     (\<forall>k k' q p q' p' c. ra_calls s k = Some (q, p) \<and> ra_calls s k' = Some (q', p') \<and> \<not> returned p \<and>
        \<not> returned p' \<and> req_client q = Some c \<and> req_client q' = Some c \<longrightarrow> k = k') \<and>
     (\<forall>k u c i. ra_calls s k = Some (ReqJoin u c i, At_lock) \<longrightarrow> \<not> at_room (hp_mgr (ra_heap s)) i c)"

inductive orderly_reach :: "(uint64 \<Rightarrow> string) \<Rightarrow> 's \<Rightarrow> 's Manager \<Rightarrow> 's race \<Rightarrow> bool" for owner zero m where
  init: "orderly_reach owner zero m (race_init m)"
| step: "\<lbrakk>orderly_reach owner zero m s; race_step owner zero s s'; orderly s'\<rbrakk> \<Longrightarrow> orderly_reach owner zero m s'"

end
