(* ===== verification/Manager_Alone.thy ===== *)
theory Manager_Alone
  imports Manager_Race
begin

text \<open>
  A call that no other call disturbs does what the operation of the theory \<^verbatim>\<open>Manager\<close> does: the steps of
  \<^verbatim>\<open>Manager_Race\<close> refine \<open>Manager_JoinRoom\<close>, \<open>Manager_LeaveRoom\<close> and \<open>Manager_Remove\<close>.
\<close>

section \<open>The heap\<close>

lemma obj_map: "mget (mg_rooms (hp_mgr h)) i = Some r \<Longrightarrow> obj h i = Some r"
  by (simp add: obj_def)

lemma heap_simps [simp]:
  "hp_mgr (emit es h) = hp_mgr h" "hp_gone (emit es h) = hp_gone h" "hp_out (emit es h) = hp_out h @ es"
  "hp_mgr (set_sessions us h) = (hp_mgr h)\<lparr>mg_userSessions := us\<rparr>" "hp_gone (set_sessions us h) = hp_gone h"
  "hp_out (set_sessions us h) = hp_out h" "hp_out (put_obj i r h) = hp_out h"
  "obj (emit es h) = obj h" "obj (set_sessions us h) = obj h"
  by (auto simp: emit_def set_sessions_def put_obj_def obj_def fun_eq_iff split: option.splits)

lemma put_obj_map:
  "mget (mg_rooms (hp_mgr h)) i = Some r \<Longrightarrow> put_obj i r' h = h\<lparr>hp_mgr := set_room i r' (hp_mgr h)\<rparr>"
  by (simp add: put_obj_def mhas_def)

lemma run_Suc:
  "run_alone n now q (JRet res, h) = (JRet res, h)" "run_alone n now q (Ret ret, h) = (Ret ret, h)"
  by (cases n; simp)+

lemma alone_undo:
  assumes "mget (mg_rooms (hp_mgr h)) i = Some r"
  shows "run_alone (Suc n) now (ReqJoin u c i) (Failed e, h) =
    (JRet (Val (Inl e)), set_sessions (rollback (rc_SingletonMode (rm_config (an_room r)))
       (rc_Type (rm_config (an_room r))) u c (mg_userSessions (hp_mgr h))) h)"
  by (simp add: join_undo_def obj_map [OF assms] run_Suc)

lemma alone_info:
  assumes "mget (mg_rooms (hp_mgr h)) i = Some r"
  shows "run_alone (Suc n) now (ReqJoin u c i) (At_info, h) =
    (JRet (Val (case Room_Info (an_room r) of Inl err \<Rightarrow> Inl ErrRoomNotFound | Inr info \<Rightarrow> Inr info)), h)"
  by (simp add: join_info_def obj_map [OF assms] run_Suc)

text \<open>What is left of a call after \<open>join_or_replace\<close>.\<close>

definition after_join ::
  "string \<Rightarrow> uint64 \<Rightarrow> string \<Rightarrow> uint8 \<Rightarrow> string \<Rightarrow> goerror option outcome \<times> 's Manager \<times> eff list \<Rightarrow> 's heap \<Rightarrow> mpc \<times> 's heap" where
  "after_join u c i mode ty x h =
     (case x of (res, m, es) \<Rightarrow>
        (case res of
           Panic e \<Rightarrow> (JRet (Panic e), h\<lparr>hp_mgr := m, hp_out := hp_out h @ es\<rparr>)
         | Val (Some joinErr) \<Rightarrow>
             (JRet (Val (Inl joinErr)), h\<lparr>hp_mgr := m\<lparr>mg_userSessions := rollback mode ty u c (mg_userSessions m)\<rparr>,
                hp_out := hp_out h @ es\<rparr>)
         | Val None \<Rightarrow>
             (JRet (Val (case mget (mg_rooms m) i of None \<Rightarrow> Inl ErrRoomNotFound
                | Some r \<Rightarrow> (case Room_Info (an_room r) of Inl err \<Rightarrow> Inl ErrRoomNotFound | Inr info \<Rightarrow> Inr info))),
              h\<lparr>hp_mgr := m, hp_out := hp_out h @ es\<rparr>)))"

lemma alone_kick:
  assumes "mget (mg_rooms (hp_mgr h)) i = Some r"
  shows "run_alone (Suc (Suc n)) now (ReqJoin u c i) (Kicking old, h) =
    after_join u c i mode ty (kick (si_ClientID old) i (hp_mgr h) []) h"
proof (cases "kicked_event i")
  case (Val ev)
  have "run_alone (Suc n) now (ReqJoin u c i) (At_info, emit [Pub (clientTopic (si_ClientID old)) ev] h) =
    (JRet (Val (case Room_Info (an_room r) of Inl err \<Rightarrow> Inl ErrRoomNotFound | Inr info \<Rightarrow> Inr info)),
     emit [Pub (clientTopic (si_ClientID old)) ev] h)" by (rule alone_info) (simp add: assms)
  with Val show ?thesis by (simp add: kick_old_def kick_def after_join_def assms emit_def)
qed (simp add: kick_old_def kick_def after_join_def run_Suc)


lemma after_kick:
  "after_join u c i mode ty (kick d i m es) h = after_join u c i mode ty (kick d i m []) (emit es (h\<lparr>hp_mgr := x\<rparr>))"
  by (simp add: after_join_def kick_def emit_def split: outcome.splits)

lemma on_obj_map:
  assumes "mget (mg_rooms (hp_mgr h)) i = Some r" "f r = (a, r', es)"
  shows "on_obj i f h = Some (a, emit es (h\<lparr>hp_mgr := set_room i (r\<lparr>an_room := r'\<rparr>) (hp_mgr h)\<rparr>))"
  using assms by (simp add: on_obj_def obj_map put_obj_map)

lemma alone_evict:
  assumes r: "mget (mg_rooms (hp_mgr h)) i = Some r" and o: "mget (mg_rooms (hp_mgr h)) (si_RoomID old) = Some o'"
    and l: "Room_Leave (an_module o') (si_ClientID old) (an_room o') = (res, or', es')"
    and ne: "si_RoomID old \<noteq> i"
  shows "run_alone (Suc (Suc (Suc n))) now (ReqJoin u c i) (Evicting old, h) =
    after_join u c i mode ty (kick (si_ClientID old) i (set_room (si_RoomID old) (o'\<lparr>an_room := or'\<rparr>) (hp_mgr h)) es') h"
proof -
  let ?h = "emit es' (h\<lparr>hp_mgr := set_room (si_RoomID old) (o'\<lparr>an_room := or'\<rparr>) (hp_mgr h)\<rparr>)"
  have "mget (mg_rooms (hp_mgr ?h)) i = Some r" using r ne by simp
  from alone_kick [OF this, of n now u c old mode ty]
  have "run_alone (Suc (Suc n)) now (ReqJoin u c i) (Kicking old, ?h) =
    after_join u c i mode ty (kick (si_ClientID old) i (hp_mgr ?h) []) ?h" .
  moreover have "evict old h = Some (Kicking old, ?h)"
    using Room_Leave_fields(6) [OF l] by (simp add: evict_def on_obj_map [where f = "\<lambda>r. Room_Leave (an_module r) (si_ClientID old) (an_room r)", OF o l])
  ultimately show ?thesis using after_kick [of u c i mode ty "si_ClientID old" "hp_mgr ?h" es' h "hp_mgr ?h"]
    by (simp del: run_alone.simps add: run_alone.simps(2) [of "Suc (Suc n)"])
qed


lemma emit_emit [simp]: "emit es' (emit es h) = emit (es @ es') h"
  by (simp add: emit_def)

lemma after_emit:
  "after_join u c i mode ty (res, m, es') (emit es (h\<lparr>hp_mgr := x\<rparr>)) = after_join u c i mode ty (res, m, es @ es') h"
  by (simp add: after_join_def emit_def split: outcome.splits option.splits)

text \<open>The operation of the room, the program counter after it, and what is left of \<open>join_or_replace\<close> then.\<close>

definition join_op ::
  "int \<Rightarrow> string \<Rightarrow> uint64 \<Rightarrow> string \<Rightarrow> sessionInfo option \<Rightarrow> 's AnyRoom \<Rightarrow> goerror option outcome \<times> 's Room \<times> eff list" where
  "join_op now u c i replaced r =
     (case replaced of
            None \<Rightarrow> Room_Join (an_module r) now c u (an_room r)
          | Some old \<Rightarrow>
              if si_RoomID old = i
              then Room_JoinReplace (an_module r) now (si_ClientID old) c u (an_room r)
              else Room_Join (an_module r) now c u (an_room r))"

definition joined_pc :: "string \<Rightarrow> sessionInfo option \<Rightarrow> goerror option outcome \<Rightarrow> mpc" where
  "joined_pc i replaced res =
         (case res of
            Panic e \<Rightarrow> JRet (Panic e)
          | Val (Some joinErr) \<Rightarrow> Failed joinErr
          | Val None \<Rightarrow>
              (case replaced of
                 None \<Rightarrow> At_info
               | Some old \<Rightarrow> if si_RoomID old = i then Kicking old else Joined old))"

lemma join_room_eq:
  "join_room now u c i replaced h =
     map_option (\<lambda>(res, h'). (joined_pc i replaced res, h')) (on_obj i (join_op now u c i replaced) h)"
  unfolding join_room_def join_op_def [abs_def] joined_pc_def ..

definition evict_old :: "sessionInfo \<Rightarrow> string \<Rightarrow> 's Manager \<Rightarrow> eff list \<Rightarrow> goerror option outcome \<times> 's Manager \<times> eff list" where
  "evict_old old i m es =
     (case Manager_Find (si_RoomID old) m of
        None \<Rightarrow> kick (si_ClientID old) i m es
      | Some o' \<Rightarrow>
          (case Room_Leave (an_module o') (si_ClientID old) (an_room o') of
             (Panic e, or', es') \<Rightarrow> (Panic e, set_room (si_RoomID old) (o'\<lparr>an_room := or'\<rparr>) m, es @ es')
           | (Val _, or', es') \<Rightarrow> kick (si_ClientID old) i (set_room (si_RoomID old) (o'\<lparr>an_room := or'\<rparr>) m) (es @ es')))"

definition finish_join ::
  "string \<Rightarrow> sessionInfo option \<Rightarrow> goerror option outcome \<Rightarrow> 's Manager \<Rightarrow> eff list \<Rightarrow> goerror option outcome \<times> 's Manager \<times> eff list" where
  "finish_join i replaced res m es =
     (case replaced of
        None \<Rightarrow> (res, m, es)
      | Some old \<Rightarrow>
          if res \<noteq> Val None then (res, m, es)
          else if si_RoomID old = i then kick (si_ClientID old) i m es
          else evict_old old i m es)"

lemma join_or_replace_finish:
  "join_op now u c i replaced r = (res, r', es) \<Longrightarrow>
     join_or_replace now u c i r replaced m = finish_join i replaced res (set_room i (r\<lparr>an_room := r'\<rparr>) m) es"
  by (auto simp: join_op_def join_or_replace_def finish_join_def evict_old_def Let_def split: option.splits if_splits)

lemma join_op_config: "join_op now u c i replaced r = (res, r', es) \<Longrightarrow> rm_config r' = rm_config (an_room r)"
  by (auto simp: join_op_def split: option.splits if_splits dest: ar.join_ident ar.replace_ident)

text \<open>From the join on.\<close>

lemma alone_joined:
  assumes r: "mget (mg_rooms (hp_mgr h)) i = Some r" and ne: "si_RoomID old \<noteq> i"
    and h': "h' = emit es (h\<lparr>hp_mgr := set_room i r' (hp_mgr h)\<rparr>)"
  shows "run_alone (Suc (Suc (Suc (Suc n)))) now (ReqJoin u c i) (Joined old, h') =
    after_join u c i mode ty
      (evict_old old i (hp_mgr h') es) h"
proof -
  have r': "mget (mg_rooms (hp_mgr h')) i = Some r'" using h' by simp
  have k: "after_join u c i mode ty (kick d i m es') h' = after_join u c i mode ty (kick d i m (es @ es')) h" for d m es'
    by (simp add: h' kick_def after_emit split: outcome.splits)
  show ?thesis
  proof (cases "Manager_Find (si_RoomID old) (hp_mgr h')")
    case None
    then show ?thesis using alone_kick [OF r', of "Suc n" now u c old mode ty] k [of _ _ "[]"]
      by (simp del: run_alone.simps add: run_alone.simps(2) [of "Suc (Suc (Suc n))"] find_old_def evict_old_def)
  next
    case (Some o')
    then have o: "mget (mg_rooms (hp_mgr h')) (si_RoomID old) = Some o'" by (simp add: Manager_Find_def)
    obtain res or' es' where l: "Room_Leave (an_module o') (si_ClientID old) (an_room o') = (res, or', es')"
      by (metis prod_cases3)
    show ?thesis using alone_evict [OF r' o l ne, of n now u c mode ty] Some l Room_Leave_fields(6) [OF l] k
      by (simp del: run_alone.simps add: run_alone.simps(2) [of "Suc (Suc (Suc n))"] find_old_def evict_old_def)
  qed
qed

lemma alone_finish:
  assumes r: "mget (mg_rooms (hp_mgr h)) i = Some r" and cfg: "rm_config r' = rm_config (an_room r)"
    and h': "h' = emit es (h\<lparr>hp_mgr := set_room i (r\<lparr>an_room := r'\<rparr>) (hp_mgr h)\<rparr>)"
  shows "run_alone (Suc (Suc (Suc (Suc 0)))) now (ReqJoin u c i) (joined_pc i replaced res, h') =
    after_join u c i (rc_SingletonMode (rm_config (an_room r))) (rc_Type (rm_config (an_room r)))
      (finish_join i replaced res (hp_mgr h') es) h" (is "?run = after_join u c i ?mode ?ty _ h")
proof -
  have r': "mget (mg_rooms (hp_mgr h')) i = Some (r\<lparr>an_room := r'\<rparr>)" by (simp add: h')
  consider e where "res = Panic e" | e where "res = Val (Some e)" | "res = Val None" "replaced = None"
    | old where "res = Val None" "replaced = Some old" "si_RoomID old = i"
    | old where "res = Val None" "replaced = Some old" "si_RoomID old \<noteq> i"
    by (metis not_None_eq outcome.exhaust)
  then show ?thesis
  proof cases
    case (2 e)
    then have "?run = run_alone (Suc (Suc (Suc (Suc 0)))) now (ReqJoin u c i) (Failed e, h')" by (simp only: joined_pc_def) simp
    then show ?thesis using 2 cfg
      by (simp only: alone_undo [OF r']) (simp add: finish_join_def after_join_def emit_def set_sessions_def h' split: option.splits)
  next
    case 3
    then have "?run = run_alone (Suc (Suc (Suc (Suc 0)))) now (ReqJoin u c i) (At_info, h')" by (simp only: joined_pc_def) simp
    then show ?thesis using 3 by (simp only: alone_info [OF r']) (simp add: finish_join_def after_join_def emit_def h')
  next
    case (4 old)
    then have "?run = run_alone (Suc (Suc (Suc (Suc 0)))) now (ReqJoin u c i) (Kicking old, h')" by (simp only: joined_pc_def) simp
    then show ?thesis using 4 after_kick [of u c i ?mode ?ty "si_ClientID old" "hp_mgr h'" es h "hp_mgr h'"]
      by (simp only: alone_kick [OF r', where mode = ?mode and ty = ?ty]) (simp add: finish_join_def h')
  next
    case (5 old)
    then have "?run = run_alone (Suc (Suc (Suc (Suc 0)))) now (ReqJoin u c i) (Joined old, h')" by (simp only: joined_pc_def) simp
    then show ?thesis using 5 alone_joined [OF r 5(3) h', where mode = ?mode and ty = ?ty]
      by (simp only: finish_join_def) simp
  qed (auto simp only: joined_pc_def run_Suc, simp_all add: finish_join_def after_join_def emit_def run_Suc h' split: option.splits)
qed

lemma alone_join:
  assumes r: "mget (mg_rooms (hp_mgr h)) i = Some r"
  shows "run_alone 5 now (ReqJoin u c i) (Reserved replaced, h) =
    after_join u c i (rc_SingletonMode (rm_config (an_room r))) (rc_Type (rm_config (an_room r)))
      (join_or_replace now u c i r replaced (hp_mgr h)) h" (is "?run = _")
proof -
  obtain res r' es where op: "join_op now u c i replaced r = (res, r', es)" by (metis prod_cases3)
  let ?h = "emit es (h\<lparr>hp_mgr := set_room i (r\<lparr>an_room := r'\<rparr>) (hp_mgr h)\<rparr>)"
  have "join_room now u c i replaced h = Some (joined_pc i replaced res, ?h)"
    by (simp add: join_room_eq on_obj_map [where f = "join_op now u c i replaced", OF r op])
  then have "?run = run_alone (Suc (Suc (Suc (Suc 0)))) now (ReqJoin u c i) (joined_pc i replaced res, ?h)"
    using run_alone.simps(2) [of "Suc (Suc (Suc (Suc 0)))" now "ReqJoin u c i" "Reserved replaced" h]
    by (simp del: run_alone.simps add: numeral_eq_Suc)
  then show ?thesis
    unfolding alone_finish [OF r join_op_config [OF op] refl] join_or_replace_finish [OF op] by simp
qed

lemma alone_JoinRoom:
  "run_alone 6 now (ReqJoin u c i) (At_lock, h) =
     (case Manager_JoinRoom now u c i (hp_mgr h) of (res, m', es) \<Rightarrow>
        (JRet res, h\<lparr>hp_mgr := m', hp_out := hp_out h @ es\<rparr>))"
proof -
  have run: "run_alone 6 now (ReqJoin u c i) (At_lock, h) = run_alone 5 now (ReqJoin u c i) (join_lock u c i h)"
    using run_alone.simps(2) [of 5 now "ReqJoin u c i" At_lock h] by (simp del: run_alone.simps)
  show ?thesis
  proof (cases "mget (mg_rooms (hp_mgr h)) i")
    case None
    then show ?thesis unfolding run by (simp add: join_lock_def Manager_JoinRoom_def run_Suc)
  next
    case (Some r)
    obtain a us where rs: "reserve (rc_SingletonMode (rm_config (an_room r))) (rc_Type (rm_config (an_room r)))
        u c i (mg_userSessions (hp_mgr h)) = (a, us)" by force
    show ?thesis
    proof (cases a)
      case (Inl err)
      with Some rs show ?thesis unfolding run
        by (simp add: join_lock_def Manager_JoinRoom_def run_Suc set_sessions_def)
    next
      case (Inr replaced)
      then have l: "join_lock u c i h = (Reserved replaced, set_sessions us h)"
        using Some rs by (simp add: join_lock_def)
      have r: "mget (mg_rooms (hp_mgr (set_sessions us h))) i = Some r" using Some by simp
      show ?thesis unfolding run l alone_join [OF r] using Some rs Inr
        by (auto simp: Manager_JoinRoom_def after_join_def set_sessions_def split: prod.splits outcome.splits option.splits sum.splits)
    qed
  qed
qed

lemma alone_LeaveRoom:
  "run_alone 2 now (ReqLeave u c i) (At_lock, h) =
     (case Manager_LeaveRoom u c i (hp_mgr h) of (res, m', es) \<Rightarrow>
        (Ret res, h\<lparr>hp_mgr := m', hp_out := hp_out h @ es\<rparr>))"
  by (auto simp: numeral_eq_Suc leave_lock_def leave_room_def Manager_LeaveRoom_def on_obj_def obj_def put_obj_def
      mhas_def set_sessions_def set_room_def emit_def Let_def split: option.splits prod.splits)

lemma alone_Remove:
  "\<exists>gone. run_alone 3 now (ReqRemove i) (At_lock, h) =
     (case Manager_Remove i (hp_mgr h) of (res, m', es) \<Rightarrow>
        (Ret res, \<lparr>hp_mgr = m', hp_gone = gone, hp_out = hp_out h @ es\<rparr>))"
proof (cases "mget (mg_rooms (hp_mgr h)) i")
  case None
  then show ?thesis by (cases h) (auto simp: numeral_eq_Suc remove_lock_def Manager_Remove_def run_Suc)
next
  case (Some r)
  obtain r' es where s: "Room_Shutdown (an_module r) (an_room r) = (r', es)" by force
  show ?thesis using Some s
    by (cases h) (auto simp: numeral_eq_Suc remove_lock_def remove_shut_def remove_announce_def Manager_Remove_def on_obj_def
      obj_def put_obj_def mhas_def emit_def Let_def run_Suc split: outcome.splits)
qed

end
