(* ===== verification/Manager_Race_Props.thy ===== *)
theory Manager_Race_Props
  imports Manager_Alone
begin

text \<open>
  Lemmas on concurrent calls of the manager: what each kind of step does to the rooms and the records,
  that no call is ever stuck, and that in an orderly execution every place of a room type of the mode
  \<open>SingletonReject\<close> is recorded.
\<close>

section \<open>What a step does to the rooms\<close>

definition ocfg :: "'s heap \<Rightarrow> string \<Rightarrow> RoomConfig option" where
  "ocfg h i = map_option (\<lambda>r. rm_config (an_room r)) (obj h i)"

abbreviation us_of :: "'s heap \<Rightarrow> user_sessions" where
  "us_of h \<equiv> mg_userSessions (hp_mgr h)"

text \<open>Nothing a caller can see changes but the members.\<close>

definition alike :: "'s heap \<Rightarrow> 's heap \<Rightarrow> bool" where
  "alike h h' \<longleftrightarrow> us_of h' = us_of h \<and> mg_modules (hp_mgr h') = mg_modules (hp_mgr h) \<and>
     cfg_at (hp_mgr h') = cfg_at (hp_mgr h) \<and> ocfg h' = ocfg h \<and> (live (hp_mgr h) \<longrightarrow> live (hp_mgr h'))"

lemma ocfg_simps [simp]: "ocfg (emit es h) = ocfg h" "ocfg (set_sessions us h) = ocfg h"
  by (simp_all add: ocfg_def fun_eq_iff)

lemma alike_refl [simp]: "alike h h" "alike h (emit es h)"
  by (auto simp: alike_def ocfg_def fun_eq_iff)

lemma obj_put [simp]: "obj (put_obj i r h) = (obj h)(i \<mapsto> r)"
  by (auto simp: obj_def put_obj_def mhas_def fun_eq_iff split: option.splits)

lemma mhas_put [simp]: "mhas (mg_rooms (hp_mgr (put_obj i r h))) j = mhas (mg_rooms (hp_mgr h)) j"
  by (auto simp: put_obj_def)

lemma at_put: "at_room (hp_mgr (put_obj i r h)) j x \<longleftrightarrow>
    (if j = i \<and> mhas (mg_rooms (hp_mgr h)) i then x \<in> members (an_room r) else at_room (hp_mgr h) j x)"
  by (auto simp: put_obj_def at_room_set at_room_def mhas_def)

lemma cfg_at_obj: "cfg_at (hp_mgr h) i = (if mhas (mg_rooms (hp_mgr h)) i then ocfg h i else None)"
  by (auto simp: cfg_at_def ocfg_def obj_def mhas_def split: option.splits)

lemma alike_put:
  assumes "obj h i = Some r" "rm_config r' = rm_config (an_room r)"
    and "mhas (mg_rooms (hp_mgr h)) i \<Longrightarrow> rm_done r' = rm_done (an_room r)"
  shows "alike h (emit es (put_obj i (r\<lparr>an_room := r'\<rparr>) h))"
proof -
  have o: "ocfg (put_obj i (r\<lparr>an_room := r'\<rparr>) h) = ocfg h" using assms(1,2) by (auto simp: ocfg_def fun_eq_iff)
  moreover have "cfg_at (hp_mgr (put_obj i (r\<lparr>an_room := r'\<rparr>) h)) = cfg_at (hp_mgr h)"
    using o by (auto simp: cfg_at_obj fun_eq_iff put_obj_def)
  moreover have "live (hp_mgr (put_obj i (r\<lparr>an_room := r'\<rparr>) h))" if "live (hp_mgr h)"
    using assms that by (auto simp: put_obj_def live_def mhas_def obj_def)
  ultimately show ?thesis by (auto simp: alike_def put_obj_def)
qed

lemma at_room_obj: "at_room (hp_mgr h) i x \<longleftrightarrow> mhas (mg_rooms (hp_mgr h)) i \<and> (\<exists>r. obj h i = Some r \<and> x \<in> members (an_room r))"
  by (auto simp: at_room_def mhas_def obj_def)

text \<open>The operations of a room keep its configuration and life and add at most the client that joins.\<close>

definition adds :: "uint64 set \<Rightarrow> ('s AnyRoom \<Rightarrow> 'a \<times> 's Room \<times> eff list) \<Rightarrow> bool" where
  "adds X f \<longleftrightarrow> (\<forall>r a r' es. f r = (a, r', es) \<longrightarrow> rm_config r' = rm_config (an_room r) \<and>
     rm_done r' = rm_done (an_room r) \<and> members r' \<subseteq> members (an_room r) \<union> X)"

lemma adds_ops:
  "adds {} (\<lambda>r. Room_Leave (an_module r) c (an_room r))"
  "adds {} (\<lambda>r. Room_HandleMessage (an_module r) ctx c op pl (an_room r))"
  "adds {} (\<lambda>r. ((), if rm_done (an_room r) \<or> \<not> has_ticker (an_module r) then (an_room r, [])
      else tick_step (an_module r) dt (an_room r)))"
proof -
  show "adds {} (\<lambda>r. Room_Leave (an_module r) c (an_room r))"
    unfolding adds_def by (auto dest: ar.leave_ident) (auto dest!: ar.leave_mem split: if_splits)
  show "adds {} (\<lambda>r. Room_HandleMessage (an_module r) ctx c op pl (an_room r))"
    unfolding adds_def by (auto dest: ar.handle_ident) (auto dest!: ar.handle_mem)
  show "adds {} (\<lambda>r. ((), if rm_done (an_room r) \<or> \<not> has_ticker (an_module r) then (an_room r, [])
      else tick_step (an_module r) dt (an_room r)))"
    unfolding adds_def by (auto simp: same_core_def members_def split: if_splits dest: tick_step_core)
qed

lemma adds_join:
  "adds {c} (\<lambda>r. case replaced of
            None \<Rightarrow> Room_Join (an_module r) now c u (an_room r)
          | Some old \<Rightarrow>
              if si_RoomID old = i
              then Room_JoinReplace (an_module r) now (si_ClientID old) c u (an_room r)
              else Room_Join (an_module r) now c u (an_room r))"
  by (auto simp: adds_def split: option.splits if_splits
      dest!: Room_Join_fields Room_JoinReplace_fields)

lemma on_obj_adds:
  assumes "on_obj i f h = Some (a, h')" "adds X f"
  shows "alike h h'" and "at_room (hp_mgr h') j x \<Longrightarrow> at_room (hp_mgr h) j x \<or> j = i \<and> x \<in> X"
proof -
  obtain r r' es where o: "obj h i = Some r" and fr: "f r = (a, r', es)"
    and h': "h' = emit es (put_obj i (r\<lparr>an_room := r'\<rparr>) h)"
    using assms(1) by (auto simp: on_obj_def split: option.splits prod.splits)
  have r': "rm_config r' = rm_config (an_room r)" "rm_done r' = rm_done (an_room r)"
    "members r' \<subseteq> members (an_room r) \<union> X" using assms(2) fr by (auto simp: adds_def)
  show "alike h h'" using r' h' by (auto intro: alike_put [OF o])
  show "at_room (hp_mgr h') j x \<Longrightarrow> at_room (hp_mgr h) j x \<or> j = i \<and> x \<in> X"
    using r' h' o by (auto simp: at_put at_room_obj split: if_splits)
qed

lemma leave_out:
  assumes "on_obj i (\<lambda>r. Room_Leave (an_module r) c (an_room r)) h = Some (b, h')" "live (hp_mgr h)"
  shows "\<not> at_room (hp_mgr h') i c"
proof -
  obtain r r' es where o: "obj h i = Some r" and l: "Room_Leave (an_module r) c (an_room r) = (b, r', es)"
    and h': "h' = emit es (put_obj i (r\<lparr>an_room := r'\<rparr>) h)"
    using assms(1) by (auto simp: on_obj_def split: option.splits prod.splits)
  show ?thesis
  proof (cases "mhas (mg_rooms (hp_mgr h)) i")
    case True
    then have "\<not> rm_done (an_room r)" using o assms(2) by (auto simp: obj_def live_def mhas_def)
    then show ?thesis using ar.leave_mem [OF l] h' by (simp add: at_room_obj)
  qed (simp add: h' at_room_obj)
qed

lemma shut_alike:
  assumes "remove_shut i h = Some (p, h')" "\<not> mhas (mg_rooms (hp_mgr h)) i"
  shows "alike h h'" "at_room (hp_mgr h') = at_room (hp_mgr h)"
proof -
  obtain r r' es where o: "obj h i = Some r" and s: "Room_Shutdown (an_module r) (an_room r) = (r', es)"
    and h': "h' = emit es (put_obj i (r\<lparr>an_room := r'\<rparr>) h)"
    using assms(1) by (auto simp: remove_shut_def on_obj_def split: option.splits prod.splits)
  show "alike h h'" using h' assms(2) ar.shutdown_ident [OF s] by (auto intro: alike_put [OF o])
  show "at_room (hp_mgr h') = at_room (hp_mgr h)" using h' assms(2) by (auto simp: at_put fun_eq_iff)
qed

section \<open>The kinds of steps\<close>

lemma adds_join_op: "adds {c} (join_op now u c i replaced)"
  using adds_join unfolding join_op_def [abs_def] .

text \<open>Steps that publish, look or return, and leave the rooms and the records alone.\<close>

fun idle_pc :: "mpc \<Rightarrow> bool" where
  "idle_pc (Joined old) = True"
| "idle_pc (Kicking old) = True"
| "idle_pc At_info = True"
| "idle_pc Shut = True"
| "idle_pc _ = False"

fun later_pc :: "mpc \<Rightarrow> bool" where
  "later_pc At_lock = False"
| "later_pc (Reserved x) = False"
| "later_pc (Failed e) = False"
| "later_pc Dropped = False"
| "later_pc Taken = False"
| "later_pc _ = True"

lemma advance_cases:
  assumes "advance now q p h = Some (p', h')"
  obtains (join_lock) u c i where "q = ReqJoin u c i" "p = At_lock" "join_lock u c i h = (p', h')"
  | (join) u c i replaced res where "q = ReqJoin u c i" "p = Reserved replaced"
      "on_obj i (join_op now u c i replaced) h = Some (res, h')" "p' = joined_pc i replaced res"
  | (undo) u c i e r where "q = ReqJoin u c i" "p = Failed e" "obj h i = Some r" "p' = JRet (Val (Inl e))"
      "h' = set_sessions (rollback (rc_SingletonMode (rm_config (an_room r))) (rc_Type (rm_config (an_room r)))
           u c (us_of h)) h"
  | (evict) u c i old res where "q = ReqJoin u c i" "p = Evicting old"
      "on_obj (si_RoomID old) (\<lambda>r. Room_Leave (an_module r) (si_ClientID old) (an_room r)) h = Some (res, h')"
      "later_pc p'" "p' = Kicking old \<or> (\<exists>e. p' = JRet e)"
  | (idle) es where "idle_pc p" "h' = emit es h" "later_pc p'"
  | (leave_lock) u c i where "q = ReqLeave u c i" "p = At_lock" "leave_lock u c i h = (p', h')"
  | (leave) u c i res where "q = ReqLeave u c i" "p = Dropped"
      "on_obj i (\<lambda>r. Room_Leave (an_module r) c (an_room r)) h = Some (res, h')" "p' = Ret res"
  | (remove_lock) i where "q = ReqRemove i" "p = At_lock" "remove_lock i h = (p', h')"
  | (shut) i where "q = ReqRemove i" "p = Taken" "remove_shut i h = Some (p', h')"
proof (cases q)
  case (ReqJoin u c i)
  show ?thesis
  proof (cases p)
    case (Reserved replaced)
    with ReqJoin assms show ?thesis using join by (auto simp: join_room_eq)
  next
    case (Failed e)
    with ReqJoin assms show ?thesis using undo by (auto simp: join_undo_def)
  next
    case (Joined old)
    with ReqJoin assms show ?thesis using idle [of "[]"] by (auto simp: find_old_def emit_def)
  next
    case (Evicting old)
    with ReqJoin assms obtain res
      where r: "on_obj (si_RoomID old) (\<lambda>r. Room_Leave (an_module r) (si_ClientID old) (an_room r)) h = Some (res, h')"
        and "p' = (case res of Panic e \<Rightarrow> JRet (Panic e) | Val _ \<Rightarrow> Kicking old)"
      by (auto simp: evict_def)
    then have "later_pc p'" "p' = Kicking old \<or> (\<exists>e. p' = JRet e)" by (auto split: outcome.splits)
    then show ?thesis by (rule evict [OF ReqJoin Evicting r])
  next
    case (Kicking old)
    with ReqJoin assms show ?thesis using idle [of "[]"] idle
      by (auto simp: kick_old_def emit_def split: outcome.splits)
  next
    case At_info
    with ReqJoin assms show ?thesis using idle [of "[]"] by (auto simp: join_info_def emit_def)
  qed (use ReqJoin assms join_lock in auto)
next
  case (ReqLeave u c i)
  with assms show ?thesis using leave_lock leave by (cases p) (auto simp: leave_room_def)
next
  case (ReqRemove i)
  with assms show ?thesis using remove_lock shut idle [of "[]"] idle
    by (cases p) (auto simp: remove_announce_def emit_def split: outcome.splits)
qed

section \<open>Calls are never stuck\<close>

text \<open>
  What a call holds: the object of its room once it has read it from the map, and of a room it is about to
  empty. The room of a \<open>Remove\<close> past its critical section is out of the map for good.
\<close>

fun holds :: "'s heap \<Rightarrow> req \<Rightarrow> mpc \<Rightarrow> bool" where
  "holds h (ReqJoin u c i) p =
     (case p of At_lock \<Rightarrow> True | JRet res \<Rightarrow> True
      | Evicting old \<Rightarrow> obj h i \<noteq> None \<and> obj h (si_RoomID old) \<noteq> None
      | Dropped \<Rightarrow> False | Taken \<Rightarrow> False | Shut \<Rightarrow> False | Ret res \<Rightarrow> False
      | _ \<Rightarrow> obj h i \<noteq> None)"
| "holds h (ReqLeave u c i) p = (case p of At_lock \<Rightarrow> True | Dropped \<Rightarrow> obj h i \<noteq> None | Ret res \<Rightarrow> True | _ \<Rightarrow> False)"
| "holds h (ReqRemove i) p =
     (case p of At_lock \<Rightarrow> True | Taken \<Rightarrow> obj h i \<noteq> None \<and> \<not> mhas (mg_rooms (hp_mgr h)) i | Shut \<Rightarrow> True
      | Ret res \<Rightarrow> True | _ \<Rightarrow> False)"

definition grows :: "'s heap \<Rightarrow> 's heap \<Rightarrow> bool" where
  "grows h h' \<longleftrightarrow> (\<forall>i. obj h i \<noteq> None \<longrightarrow> obj h' i \<noteq> None \<and>
     (mhas (mg_rooms (hp_mgr h')) i \<longrightarrow> mhas (mg_rooms (hp_mgr h)) i))"

lemma holds_grows: "holds h q p \<Longrightarrow> grows h h' \<Longrightarrow> holds h' q p"
  by (cases q; cases p) (auto simp: grows_def)

lemma grows_simps [simp]: "grows h h" "grows h (emit es h') = grows h h'" "grows h (set_sessions us h') = grows h h'"
  by (auto simp: grows_def)

lemma on_obj_grows: "on_obj i f h = Some (a, h') \<Longrightarrow> grows h h'"
  by (auto simp: on_obj_def grows_def split: option.splits prod.splits)

lemma remove_lock_grows: "grows h (snd (remove_lock i h))"
  by (auto simp: remove_lock_def grows_def obj_def split: option.splits if_splits)

lemma advance_grows: "advance now q p h = Some (p', h') \<Longrightarrow> grows h h'"
proof (erule advance_cases)
  fix i assume "remove_lock i h = (p', h')"
  then show "grows h h'" using remove_lock_grows [of h i] by simp
qed (auto simp: join_lock_def leave_lock_def remove_shut_def dest: on_obj_grows
       split: option.splits prod.splits sum.splits)

lemma advance_holds:
  assumes "advance now q p h = Some (p', h')" "holds h q p"
  shows "holds h' q p'"
proof -
  have "holds h' q p" by (rule holds_grows [OF assms(2) advance_grows [OF assms(1)]])
  with assms show ?thesis
    by (cases q; cases p)
     (auto simp: join_lock_def join_room_def join_undo_def find_old_def evict_def kick_old_def join_info_def
        leave_lock_def leave_room_def remove_lock_def remove_shut_def remove_announce_def obj_def Manager_Find_def mhas_def
        split: option.splits prod.splits sum.splits outcome.splits if_splits)
qed

text \<open>How many steps a call has at most before it returns.\<close>

fun rank :: "mpc \<Rightarrow> nat" where
  "rank At_lock = 6"
| "rank (Reserved replaced) = 5"
| "rank (Joined old) = 4"
| "rank (Evicting old) = 3"
| "rank (Kicking old) = 2"
| "rank At_info = 1"
| "rank (Failed joinErr) = 1"
| "rank Dropped = 1"
| "rank Taken = 2"
| "rank Shut = 1"
| "rank _ = 0"

lemma advance_total:
  assumes "holds h q p" "\<not> returned p"
  shows "\<exists>p' h'. advance now q p h = Some (p', h') \<and> rank p' < rank p"
proof (cases "p = At_info")
  case True
  with assms show ?thesis by (cases q) (auto simp: join_info_def)
next
  case False
  with assms show ?thesis
    by (cases q; cases p)
       (auto simp: join_lock_def join_room_def join_undo_def find_old_def evict_def kick_old_def
        leave_lock_def leave_room_def remove_lock_def remove_shut_def remove_announce_def on_obj_def
        split: option.splits prod.splits sum.splits outcome.splits if_splits)
qed

definition all_hold :: "'s race \<Rightarrow> bool" where
  "all_hold s \<longleftrightarrow> (\<forall>k q p. ra_calls s k = Some (q, p) \<longrightarrow> holds (ra_heap s) q p)"

lemma create_grows:
  assumes "Manager_Create zero uuid config (hp_mgr h) = (res, m', es)"
    "obj h (rc_Name (new_config config (hp_mgr h)) @ ''_'' @ uuid) = None"
  shows "grows h (emit es (h\<lparr>hp_mgr := m'\<rparr>))"
  using assms(1)
  by (rule Create_room) (use assms(2) in \<open>auto simp: grows_def obj_def split: option.splits if_splits\<close>)

lemma race_step_hold: "race_step owner zero s s' \<Longrightarrow> all_hold s \<Longrightarrow> all_hold s'"
proof (induction rule: race_step.induct)
  case (call s k q)
  then show ?case by (cases q) (auto simp: all_hold_def)
next
  case (go s k q p now p' h')
  then show ?case using advance_holds [OF go(2)] holds_grows [OF _ advance_grows [OF go(2)]]
    by (auto simp: all_hold_def)
next
  case (create s config uuid res m' es)
  then show ?case using holds_grows [OF _ create_grows [OF create(2,1)]] by (auto simp: all_hold_def intro: holds_grows)
qed (auto simp: all_hold_def intro: holds_grows dest: on_obj_grows)

lemma race_reach_hold: "race_reach owner zero m s \<Longrightarrow> all_hold s"
  by (induction rule: race_reach.induct) (auto simp: race_step_hold, simp add: all_hold_def race_init_def)

section \<open>The places of a user\<close>

fun holding :: "mpc \<Rightarrow> bool" where
  "holding (Reserved replaced) = True"
| "holding (Failed joinErr) = True"
| "holding _ = False"

definition of_type :: "string \<Rightarrow> RoomConfig option \<Rightarrow> bool" where
  "of_type t x \<longleftrightarrow> (\<exists>cf. x = Some cf \<and> rc_Type cf = t)"

abbreviation place_at :: "string \<Rightarrow> uint64 \<Rightarrow> sessionInfo" where
  "place_at i c \<equiv> \<lparr>si_RoomID = i, si_ClientID = c\<rparr>"

definition leaving :: "(nat \<rightharpoonup> req \<times> mpc) \<Rightarrow> string \<Rightarrow> uint64 \<Rightarrow> bool" where
  "leaving calls j c \<longleftrightarrow> (\<exists>k u. calls k = Some (ReqLeave u c j, Dropped))"

text \<open>
  The invariant for a room type \<open>t\<close> of the mode \<open>SingletonReject\<close>. A place in a room of the map, or the
  intent to take one, is recorded, but for a place that is being left.
\<close>

definition recorded :: "(uint64 \<Rightarrow> string) \<Rightarrow> string \<Rightarrow> 's heap \<Rightarrow> (nat \<rightharpoonup> req \<times> mpc) \<Rightarrow> bool" where
  "recorded owner t h calls \<longleftrightarrow>
     us_wf (us_of h) \<and> live (hp_mgr h) \<and>
     (\<forall>i cf. ocfg h i = Some cf \<and> rc_Type cf = t \<longrightarrow> rc_SingletonMode cf = SingletonReject) \<and>
     (\<forall>k u c i replaced. calls k = Some (ReqJoin u c i, Reserved replaced) \<and> of_type t (cfg_at (hp_mgr h) i) \<longrightarrow>
        record_of (us_of h) (owner c, t) = Some (place_at i c)) \<and>
     (\<forall>k u c i p s. calls k = Some (ReqJoin u c i, p) \<and> holding p \<and> of_type t (ocfg h i) \<and>
        record_of (us_of h) (owner c, t) = Some s \<and> si_ClientID s = c \<longrightarrow> si_RoomID s = i) \<and>
     (\<forall>k u c i p. calls k = Some (ReqJoin u c i, p) \<and> holding p \<longrightarrow> \<not> at_room (hp_mgr h) i c) \<and>
     (\<forall>j c. at_room (hp_mgr h) j c \<and> of_type t (cfg_at (hp_mgr h) j) \<longrightarrow>
        record_of (us_of h) (owner c, t) = Some (place_at j c) \<or> leaving calls j c)"

lemma recordedD:
  assumes "recorded owner t h calls"
  shows "us_wf (us_of h)" "live (hp_mgr h)"
    "ocfg h i = Some cf \<Longrightarrow> rc_Type cf = t \<Longrightarrow> rc_SingletonMode cf = SingletonReject"
    "calls k = Some (ReqJoin u c i, Reserved replaced) \<Longrightarrow> of_type t (cfg_at (hp_mgr h) i) \<Longrightarrow>
       record_of (us_of h) (owner c, t) = Some (place_at i c)"
    "calls k = Some (ReqJoin u c i, p) \<Longrightarrow> holding p \<Longrightarrow> of_type t (ocfg h i) \<Longrightarrow>
       record_of (us_of h) (owner c, t) = Some s \<Longrightarrow> si_ClientID s = c \<Longrightarrow> si_RoomID s = i"
    "calls k = Some (ReqJoin u c i, p) \<Longrightarrow> holding p \<Longrightarrow> \<not> at_room (hp_mgr h) i c"
    "at_room (hp_mgr h) j c \<Longrightarrow> of_type t (cfg_at (hp_mgr h) j) \<Longrightarrow>
        record_of (us_of h) (owner c, t) = Some (place_at j c) \<or> leaving calls j c"
  using assms unfolding recorded_def by blast+

lemma recordedI:
  assumes "us_wf (us_of h)" "live (hp_mgr h)"
    and "\<And>i cf. ocfg h i = Some cf \<Longrightarrow> rc_Type cf = t \<Longrightarrow> rc_SingletonMode cf = SingletonReject"
    and "\<And>k u c i replaced. calls k = Some (ReqJoin u c i, Reserved replaced) \<Longrightarrow> of_type t (cfg_at (hp_mgr h) i) \<Longrightarrow>
       record_of (us_of h) (owner c, t) = Some (place_at i c)"
    and "\<And>k u c i p s. calls k = Some (ReqJoin u c i, p) \<Longrightarrow> holding p \<Longrightarrow> of_type t (ocfg h i) \<Longrightarrow>
       record_of (us_of h) (owner c, t) = Some s \<Longrightarrow> si_ClientID s = c \<Longrightarrow> si_RoomID s = i"
    and "\<And>k u c i p. calls k = Some (ReqJoin u c i, p) \<Longrightarrow> holding p \<Longrightarrow> \<not> at_room (hp_mgr h) i c"
    and "\<And>j c. at_room (hp_mgr h) j c \<Longrightarrow> of_type t (cfg_at (hp_mgr h) j) \<Longrightarrow>
        record_of (us_of h) (owner c, t) = Some (place_at j c) \<or> leaving calls j c"
  shows "recorded owner t h calls"
  using assms unfolding recorded_def by blast

text \<open>A step of a room: no record changes, and at most the client \<open>c\<close> comes into the room \<open>i\<close>.\<close>

lemma recorded_alike:
  assumes S: "recorded owner t h calls" and al: "alike h h'"
    and mem: "\<And>j x. at_room (hp_mgr h') j x \<Longrightarrow> at_room (hp_mgr h) j x \<or> new \<and> j = i \<and> x = c"
    and rec: "new \<Longrightarrow> of_type t (cfg_at (hp_mgr h) i) \<Longrightarrow> record_of (us_of h) (owner c, t) = Some (place_at i c)"
    and res: "\<And>k u d j x. calls' k = Some (ReqJoin u d j, Reserved x) \<Longrightarrow> calls k = Some (ReqJoin u d j, Reserved x)"
    and hold: "\<And>k u d j p. calls' k = Some (ReqJoin u d j, p) \<Longrightarrow> holding p \<Longrightarrow>
      (\<exists>p0. calls k = Some (ReqJoin u d j, p0) \<and> holding p0) \<and> \<not> (new \<and> d = c \<and> j = i)"
    and out: "\<And>j x. leaving calls j x \<Longrightarrow> leaving calls' j x \<or> \<not> at_room (hp_mgr h') j x"
  shows "recorded owner t h' calls'"
proof -
  have e: "us_of h' = us_of h" "cfg_at (hp_mgr h') = cfg_at (hp_mgr h)" "ocfg h' = ocfg h"
    and l: "live (hp_mgr h')" using al recordedD(2) [OF S] by (auto simp: alike_def)
  show ?thesis
  proof (rule recordedI, unfold e)
    fix k u d j p s
    assume "calls' k = Some (ReqJoin u d j, p)" and p: "holding p" "of_type t (ocfg h j)"
      "record_of (us_of h) (owner d, t) = Some s" "si_ClientID s = d"
    with hold obtain p0 where "calls k = Some (ReqJoin u d j, p0)" "holding p0" by blast
    then show "si_RoomID s = j" using recordedD(5) [OF S _ _ p(2,3,4)] by blast
  next
    fix k u d j p
    assume "calls' k = Some (ReqJoin u d j, p)" and p: "holding p"
    with hold obtain p0 where "calls k = Some (ReqJoin u d j, p0)" "holding p0" "\<not> (new \<and> d = c \<and> j = i)" by blast
    then show "\<not> at_room (hp_mgr h') j d" using recordedD(6) [OF S] mem by blast
  next
    fix j x
    assume a: "at_room (hp_mgr h') j x" "of_type t (cfg_at (hp_mgr h) j)"
    from mem [OF a(1)] show "record_of (us_of h) (owner x, t) = Some (place_at j x) \<or> leaving calls' j x"
    proof
      assume "at_room (hp_mgr h) j x"
      from recordedD(7) [OF S this a(2)] show ?thesis using out [of j x] a(1) by blast
    next
      assume "new \<and> j = i \<and> x = c"
      then show ?thesis using rec a(2) by blast
    qed
  qed (use l recordedD(1-4) [OF S] res in \<open>blast+\<close>)
qed


text \<open>No other call of the connection is under way.\<close>

definition solo :: "(nat \<rightharpoonup> req \<times> mpc) \<Rightarrow> nat \<Rightarrow> uint64 \<Rightarrow> bool" where
  "solo calls k c \<longleftrightarrow> (\<forall>k' q p. calls k' = Some (q, p) \<and> \<not> returned p \<and> req_client q = Some c \<longrightarrow> k' = k)"

lemma orderly_solo:
  "orderly s \<Longrightarrow> ra_calls s k = Some (q, p) \<Longrightarrow> \<not> returned p \<Longrightarrow> req_client q = Some c \<Longrightarrow> solo (ra_calls s) k c"
  unfolding orderly_def solo_def by blast

lemma holding_not_returned: "holding p \<Longrightarrow> \<not> returned p"
  by (cases p) auto

lemma solo_other: "solo calls k c \<Longrightarrow> calls k' = Some (ReqJoin u d j, p) \<Longrightarrow> holding p \<Longrightarrow> k' \<noteq> k \<Longrightarrow> d \<noteq> c"
  unfolding solo_def using holding_not_returned by fastforce

lemma leaving_upd:
  "calls k = Some (q, p) \<Longrightarrow> p \<noteq> Dropped \<Longrightarrow> leaving calls j x \<Longrightarrow> leaving (calls(k \<mapsto> (q', p'))) j x"
  unfolding leaving_def by (metis fun_upd_other option.inject prod.inject)

lemma of_type_cfg: "of_type t (cfg_at (hp_mgr h) i) \<Longrightarrow> of_type t (ocfg h i)"
  by (auto simp: of_type_def cfg_at_obj split: if_splits)

text \<open>Writing the record of a join.\<close>

lemma recorded_put:
  assumes S: "recorded owner t h calls" and k: "calls k = Some (ReqJoin u c i, At_lock)" "owner c = u" "solo calls k c"
    and away: "\<not> at_room (hp_mgr h) i c" and wf: "us_wf us'"
    and R: "\<And>x. record_of us' (x, t) = record_of (us_of h) (x, t) \<or>
      x = u \<and> record_of us' (x, t) = Some (place_at i c) \<and>
      (record_of (us_of h) (x, t) = None \<or> record_of (us_of h) (x, t) = Some (place_at i c))"
    and own: "of_type t (ocfg h i) \<Longrightarrow> record_of us' (u, t) = Some (place_at i c)"
  shows "recorded owner t (set_sessions us' h) (calls(k \<mapsto> (ReqJoin u c i, Reserved replaced)))" (is "recorded owner t ?h ?calls")
proof -
  have Some: "record_of us' (x, t) = Some s" if "record_of (us_of h) (x, t) = Some s" for x s
    using R [of x] that by auto
  show ?thesis
  proof (rule recordedI)
    fix k' u' d j rep
    assume a: "?calls k' = Some (ReqJoin u' d j, Reserved rep)" "of_type t (cfg_at (hp_mgr ?h) j)"
    show "record_of (us_of ?h) (owner d, t) = Some (place_at j d)"
    proof (cases "k' = k")
      case True
      with a k(2) own of_type_cfg [of t h i] show ?thesis by simp
    next
      case False
      with a Some recordedD(4) [OF S, of k' u' d j rep] show ?thesis by simp
    qed
  next
    fix k' u' d j p s
    assume a: "?calls k' = Some (ReqJoin u' d j, p)" "holding p" "of_type t (ocfg ?h j)"
      "record_of (us_of ?h) (owner d, t) = Some s" "si_ClientID s = d"
    show "si_RoomID s = j"
    proof (cases "k' = k")
      case True
      with a k(2) own show ?thesis by auto
    next
      case False
      with a(1) have c': "calls k' = Some (ReqJoin u' d j, p)" by simp
      then have "d \<noteq> c" using solo_other [OF k(3)] a(2) False by blast
      with R [of "owner d"] a(4,5) have "record_of (us_of h) (owner d, t) = Some s" by auto
      with recordedD(5) [OF S c' a(2)] a(3,5) show ?thesis by simp
    qed
  next
    fix k' u' d j p
    assume "?calls k' = Some (ReqJoin u' d j, p)" "holding p"
    then show "\<not> at_room (hp_mgr ?h) j d" using away recordedD(6) [OF S, of k'] by (auto split: if_splits)
  next
    fix j x
    assume "at_room (hp_mgr ?h) j x" "of_type t (cfg_at (hp_mgr ?h) j)"
    with recordedD(7) [OF S, of j x] Some leaving_upd [of calls k, OF k(1)]
    show "record_of (us_of ?h) (owner x, t) = Some (place_at j x) \<or> leaving ?calls j x" by auto
  qed (use S wf in \<open>auto dest: recordedD(2,3)\<close>)
qed

text \<open>Deleting a record of the client \<open>c\<close>.\<close>

lemma recorded_del:
  assumes S: "recorded owner t h calls" and k: "calls k = Some (q, p)" "p \<noteq> Dropped" "solo calls k c"
    and wf: "us_wf us'" and p': "\<not> holding p'"
    and R: "\<And>x. record_of us' (x, t) = record_of (us_of h) (x, t) \<or>
      x = owner c \<and> record_of us' (x, t) = None \<and>
      (\<exists>j. record_of (us_of h) (x, t) = Some (place_at j c) \<and>
         (at_room (hp_mgr h) j c \<longrightarrow> q = ReqLeave u c j \<and> p' = Dropped))"
  shows "recorded owner t (set_sessions us' h) (calls(k \<mapsto> (q, p')))" (is "recorded owner t ?h ?calls")
proof -
  have Some: "record_of (us_of h) (x, t) = Some s" if "record_of us' (x, t) = Some s" for x s
    using R [of x] that by auto
  have old: "calls k' = Some (ReqJoin u' d j, p0) \<and> d \<noteq> c"
    if "?calls k' = Some (ReqJoin u' d j, p0)" "holding p0" for k' u' d j p0
    using that p' solo_other [OF k(3)] by (auto split: if_splits)
  show ?thesis
  proof (rule recordedI)
    fix k' u' d j rep
    assume a: "?calls k' = Some (ReqJoin u' d j, Reserved rep)" "of_type t (cfg_at (hp_mgr ?h) j)"
    with old [OF a(1)] recordedD(4) [OF S, of k' u' d j rep] have "record_of (us_of h) (owner d, t) = Some (place_at j d)" "d \<noteq> c"
      by simp_all
    with R [of "owner d"] show "record_of (us_of ?h) (owner d, t) = Some (place_at j d)" by auto
  next
    fix k' u' d j p0 s
    assume a: "?calls k' = Some (ReqJoin u' d j, p0)" "holding p0" "of_type t (ocfg ?h j)"
      "record_of (us_of ?h) (owner d, t) = Some s" "si_ClientID s = d"
    with old [OF a(1,2)] recordedD(5) [OF S _ a(2), of k' u' d j s] Some show "si_RoomID s = j" by simp
  next
    fix k' u' d j p0
    assume "?calls k' = Some (ReqJoin u' d j, p0)" "holding p0"
    with old recordedD(6) [OF S, of k' u' d j p0] show "\<not> at_room (hp_mgr ?h) j d" by simp
  next
    fix j x
    assume a: "at_room (hp_mgr ?h) j x" "of_type t (cfg_at (hp_mgr ?h) j)"
    then have "record_of (us_of h) (owner x, t) = Some (place_at j x) \<or> leaving calls j x"
      using recordedD(7) [OF S, of j x] by simp
    then show "record_of (us_of ?h) (owner x, t) = Some (place_at j x) \<or> leaving ?calls j x"
    proof
      assume r: "record_of (us_of h) (owner x, t) = Some (place_at j x)"
      from R [of "owner x"] show ?thesis using r a(1) by (auto simp: leaving_def)
    qed (simp add: leaving_upd [of calls k, OF k(1,2)])
  qed (use S wf in \<open>auto dest: recordedD(2,3)\<close>)
qed

lemma recorded_quiet:
  assumes S: "recorded owner t h calls" and "alike h h'" and k: "calls k = Some (q, p)"
    and mem: "\<And>j x. at_room (hp_mgr h') j x \<Longrightarrow> at_room (hp_mgr h) j x"
    and p': "\<not> holding p'"
    and out: "\<And>u j x. q = ReqLeave u x j \<Longrightarrow> p = Dropped \<Longrightarrow> \<not> at_room (hp_mgr h') j x"
  shows "recorded owner t h' (calls(k \<mapsto> (q, p')))"
proof (rule recorded_alike [OF S assms(2), where new = False])
  show "leaving (calls(k \<mapsto> (q, p'))) j x \<or> \<not> at_room (hp_mgr h') j x" if "leaving calls j x" for j x
    using that out k unfolding leaving_def by (metis fun_upd_other option.inject prod.inject)
qed (use mem p' in \<open>auto split: if_splits\<close>)

lemma join_op_fail:
  assumes "on_obj i (join_op now u c i' replaced) h = Some (Val (Some e), h')" "at_room (hp_mgr h') j x"
  shows "at_room (hp_mgr h) j x"
proof -
  obtain r r' es where o: "obj h i = Some r" and f: "join_op now u c i' replaced r = (Val (Some e), r', es)"
    and h': "h' = emit es (put_obj i (r\<lparr>an_room := r'\<rparr>) h)"
    using assms(1) by (auto simp: on_obj_def split: option.splits prod.splits)
  have "members r' \<subseteq> members (an_room r)"
  proof (cases "join_op now u c i' replaced r = Room_Join (an_module r) now c u (an_room r)")
    case True
    with f have "Room_Join (an_module r) now c u (an_room r) = (Val (Some e), r', es)" by simp
    then show ?thesis using ar.join_error by blast
  next
    case False
    then obtain d where "Room_JoinReplace (an_module r) now d c u (an_room r) = (Val (Some e), r', es)"
      using f by (auto simp: join_op_def split: option.splits if_splits)
    then show ?thesis
      by (auto simp: Room_JoinReplace_def room_do_def joinReplace_step_cases drop_old_fields(6)
          split: if_splits prod.splits option.splits outcome.splits)
  qed
  then show ?thesis using assms(2) h' o by (auto simp: at_put at_room_obj split: if_splits)
qed

lemma recorded_join:
  assumes S: "recorded owner t h calls" and k: "calls k = Some (ReqJoin u c i, Reserved replaced)" "solo calls k c"
    and o: "on_obj i (join_op now u c i replaced) h = Some (res, h')"
  shows "recorded owner t h' (calls(k \<mapsto> (ReqJoin u c i, joined_pc i replaced res)))"
proof (rule recorded_alike [OF S, where new = "\<forall>e. res \<noteq> Val (Some e)" and i = i and c = c])
  let ?calls = "calls(k \<mapsto> (ReqJoin u c i, joined_pc i replaced res))"
  note a = on_obj_adds [OF o adds_join_op]
  show "alike h h'" by (rule a(1))
  show "at_room (hp_mgr h) j x \<or> (\<forall>e. res \<noteq> Val (Some e)) \<and> j = i \<and> x = c" if "at_room (hp_mgr h') j x" for j x
    using a(2) [OF that] join_op_fail [OF _ that] o by auto
  show "record_of (us_of h) (owner c, t) = Some (place_at i c)" if "of_type t (cfg_at (hp_mgr h) i)"
    by (rule recordedD(4) [OF S k(1) that])
  have p: "holding (joined_pc i replaced res) \<longleftrightarrow> (\<exists>e. res = Val (Some e))"
    and r: "joined_pc i replaced res \<noteq> Reserved x" for x
    by (auto simp: joined_pc_def split: outcome.splits option.splits)
  show "calls k' = Some (ReqJoin v d j, Reserved x)" if "?calls k' = Some (ReqJoin v d j, Reserved x)" for k' v d j x
    using that r by (auto split: if_splits)
  show "(\<exists>p0. calls k' = Some (ReqJoin v d j, p0) \<and> holding p0) \<and> \<not> ((\<forall>e. res \<noteq> Val (Some e)) \<and> d = c \<and> j = i)"
    if "?calls k' = Some (ReqJoin v d j, p)" "holding p" for k' v d j p
    using that p k solo_other [OF k(2), of k' v d j p] by (cases "k' = k") auto
  show "leaving ?calls j x \<or> \<not> at_room (hp_mgr h') j x" if "leaving calls j x" for j x
    using leaving_upd [of calls k, OF k(1) _ that] by simp
qed

lemma join_lock_recorded:
  assumes S: "recorded owner t h calls" and k: "calls k = Some (ReqJoin u c i, At_lock)" "owner c = u" "solo calls k c"
    and away: "\<not> at_room (hp_mgr h) i c" and l: "join_lock u c i h = (p', h')"
  shows "recorded owner t h' (calls(k \<mapsto> (ReqJoin u c i, p')))"
proof -
  let ?us = "us_of h"
  have quiet: ?thesis if "h' = h" "\<not> holding p'" using that by (auto intro: recorded_quiet [OF S _ k(1)])
  show ?thesis
  proof (cases "mget (mg_rooms (hp_mgr h)) i")
    case None
    with l quiet show ?thesis by (auto simp: join_lock_def)
  next
    case (Some r)
    let ?mode = "rc_SingletonMode (rm_config (an_room r))" and ?ty = "rc_Type (rm_config (an_room r))"
    have o: "ocfg h i = Some (rm_config (an_room r))" using Some by (simp add: ocfg_def obj_def)
    then have rej: "?ty = t \<Longrightarrow> ?mode = SingletonReject" using recordedD(3) [OF S] by blast
    obtain a us where rs: "reserve ?mode ?ty u c i ?us = (a, us)" by force
    have h': "h' = set_sessions us h" using l Some rs by (auto simp: join_lock_def split: sum.splits)
    have self: "set_sessions (us_of h) h = h" by (simp add: set_sessions_def)
    show ?thesis
    proof (cases a)
      case (Inl e)
      then have "us = ?us" using rs by (auto simp: reserve_eq split: if_splits option.splits)
      then show ?thesis using h' self Inl l Some rs by (intro quiet) (auto simp: join_lock_def)
    next
      case (Inr replaced)
      then have p': "p' = Reserved replaced" using l Some rs by (simp add: join_lock_def)
      have us: "us = ?us \<and> ?mode = SingletonAllow \<or> us = sess_put (u, ?ty) (place_at i c) ?us \<and>
          (?mode = SingletonReject \<longrightarrow> record_of ?us (u, ?ty) = None \<or> record_of ?us (u, ?ty) = Some (place_at i c))"
        using rs Inr by (auto simp: reserve_eq split: if_splits option.splits)
      have wf: "us_wf us" using us recordedD(1) [OF S] us_wf_put by auto
      show ?thesis unfolding h' p'
      proof (rule recorded_put [OF S k away wf])
        show "record_of us (x, t) = record_of ?us (x, t) \<or> x = u \<and> record_of us (x, t) = Some (place_at i c) \<and>
            (record_of ?us (x, t) = None \<or> record_of ?us (x, t) = Some (place_at i c))" for x
          using us rej by (auto simp: record_of_put split: if_splits)
        show "record_of us (u, t) = Some (place_at i c)" if "of_type t (ocfg h i)"
          using us rej that o by (auto simp: record_of_put of_type_def)
      qed
    qed
  qed
qed

lemma undo_recorded:
  assumes S: "recorded owner t h calls" and k: "calls k = Some (ReqJoin u c i, Failed e)" "owner c = u" "solo calls k c"
    and o: "obj h i = Some r"
  shows "recorded owner t (set_sessions (rollback (rc_SingletonMode (rm_config (an_room r)))
      (rc_Type (rm_config (an_room r))) u c (us_of h)) h) (calls(k \<mapsto> (ReqJoin u c i, JRet res)))"
    (is "recorded owner t (set_sessions ?us' h) ?calls")
proof (rule recorded_del [OF S k(1) _ k(3)])
  show "us_wf ?us'" using recordedD(1) [OF S] us_wf_del by (auto simp: rollback_eq)
  have i: "si_RoomID s = i" if "rc_Type (rm_config (an_room r)) = t" "record_of (us_of h) (u, t) = Some s" "si_ClientID s = c" for s
    using recordedD(5) [OF S k(1)] that o k(2) by (auto simp: ocfg_def of_type_def)
  have "\<not> at_room (hp_mgr h) i c" using recordedD(6) [OF S k(1)] by simp
  then show "record_of ?us' (x, t) = record_of (us_of h) (x, t) \<or>
      x = owner c \<and> record_of ?us' (x, t) = None \<and> (\<exists>j. record_of (us_of h) (x, t) = Some (place_at j c) \<and>
         (at_room (hp_mgr h) j c \<longrightarrow> ReqJoin u c i = ReqLeave v c j \<and> JRet res = Dropped))" for x v
    using i k(2) by (auto simp: rollback_eq record_of_del sessionInfo_eq)
qed auto

lemma leave_lock_recorded:
  assumes S: "recorded owner t h calls" and k: "calls k = Some (ReqLeave u c i, At_lock)" "owner c = u" "solo calls k c"
    and l: "leave_lock u c i h = (p', h')"
  shows "recorded owner t h' (calls(k \<mapsto> (ReqLeave u c i, p')))"
proof (cases "mget (mg_rooms (hp_mgr h)) i")
  case None
  with l show ?thesis by (auto simp: leave_lock_def intro: recorded_quiet [OF S _ k(1)])
next
  case (Some r)
  let ?us' = "drop_session (rc_SingletonMode (rm_config (an_room r))) (rc_Type (rm_config (an_room r))) u c i (us_of h)"
  have p: "p' = Dropped" "h' = set_sessions ?us' h" using l Some by (auto simp: leave_lock_def)
  show ?thesis unfolding p
  proof (rule recorded_del [OF S k(1) _ k(3)])
    show "us_wf ?us'" using recordedD(1) [OF S] us_wf_del by (auto simp: drop_session_eq)
    show "record_of ?us' (x, t) = record_of (us_of h) (x, t) \<or>
      x = owner c \<and> record_of ?us' (x, t) = None \<and> (\<exists>j. record_of (us_of h) (x, t) = Some (place_at j c) \<and>
         (at_room (hp_mgr h) j c \<longrightarrow> ReqLeave u c i = ReqLeave u c j \<and> Dropped = Dropped))" for x
      using k(2) by (auto simp: drop_session_eq record_of_del)
  qed auto
qed


lemma remove_lock_recorded:
  assumes S: "recorded owner t h calls" and k: "calls k = Some (ReqRemove i, At_lock)"
    and l: "remove_lock i h = (p', h')"
  shows "recorded owner t h' (calls(k \<mapsto> (ReqRemove i, p')))"
proof (cases "mget (mg_rooms (hp_mgr h)) i")
  case None
  with l show ?thesis by (auto simp: remove_lock_def intro: recorded_quiet [OF S _ k])
next
  case (Some r)
  let ?us' = "cleanupSessionType (rc_Type (rm_config (an_room r))) i (us_of h)"
  have p: "p' = Taken" and m: "mg_rooms (hp_mgr h') = mdel i (mg_rooms (hp_mgr h))" and us: "us_of h' = ?us'"
    and g: "hp_gone h' = mput i r (hp_gone h)" using l Some by (auto simp: remove_lock_def)
  have ob: "obj h' = obj h" using Some m g by (auto simp: obj_def fun_eq_iff split: option.splits)
  then have oc: "ocfg h' = ocfg h" by (simp add: ocfg_def fun_eq_iff)
  have at: "at_room (hp_mgr h') j x \<longleftrightarrow> j \<noteq> i \<and> at_room (hp_mgr h) j x" for j x by (auto simp: at_room_def m)
  have cf: "cfg_at (hp_mgr h') j = (if j = i then None else cfg_at (hp_mgr h) j)" for j by (simp add: cfg_at_def m)
  note rec = record_of_cleanup [OF recordedD(1) [OF S]]
  have keep: "record_of ?us' x = Some s" if "record_of (us_of h) x = Some s" "si_RoomID s \<noteq> i" for x s
    using that by (simp add: rec)
  have old: "record_of (us_of h) x = Some s" if "record_of ?us' x = Some s" for x s
    using that by (auto simp: rec split: option.splits if_splits)
  have new: "calls k' = Some (ReqJoin u c j, p0)"
    if "(calls(k \<mapsto> (ReqRemove i, Taken))) k' = Some (ReqJoin u c j, p0)" for k' u c j p0
    using that by (auto split: if_splits)
  show ?thesis unfolding p
  proof (rule recordedI, unfold us oc)
    show "us_wf ?us'" using us_wf_cleanup [OF recordedD(1) [OF S]] .
    show "live (hp_mgr h')" using recordedD(2) [OF S] m by (auto simp: live_def)
  next
    fix k' u c j rep
    assume c: "(calls(k \<mapsto> (ReqRemove i, Taken))) k' = Some (ReqJoin u c j, Reserved rep)"
      and "of_type t (cfg_at (hp_mgr h') j)"
    then show "record_of ?us' (owner c, t) = Some (place_at j c)"
      using recordedD(4) [OF S new [OF c]] keep by (auto simp: cf of_type_def split: if_splits)
  next
    fix k' u c j p0 s
    assume c: "(calls(k \<mapsto> (ReqRemove i, Taken))) k' = Some (ReqJoin u c j, p0)" and "holding p0"
      "of_type t (ocfg h j)" "record_of ?us' (owner c, t) = Some s" "si_ClientID s = c"
    then show "si_RoomID s = j" using recordedD(5) [OF S new [OF c]] old by blast
  next
    fix k' u c j p0
    assume c: "(calls(k \<mapsto> (ReqRemove i, Taken))) k' = Some (ReqJoin u c j, p0)" and "holding p0"
    then show "\<not> at_room (hp_mgr h') j c" using recordedD(6) [OF S new [OF c]] at by blast
  next
    fix j c
    assume "at_room (hp_mgr h') j c" "of_type t (cfg_at (hp_mgr h') j)"
    then show "record_of ?us' (owner c, t) = Some (place_at j c) \<or> leaving (calls(k \<mapsto> (ReqRemove i, Taken))) j c"
      using recordedD(7) [OF S, of j c] keep leaving_upd [of calls k, OF k, of j c] by (auto simp: at cf)
  qed (use recordedD(3) [OF S] in blast)
qed

lemma advance_recorded:
  assumes S: "recorded owner t h calls" and A: "advance now q p h = Some (p', h')" and k: "calls k = Some (q, p)"
    and ok: "req_ok owner q" "holds h q p" and solo: "\<And>c. req_client q = Some c \<Longrightarrow> \<not> returned p \<Longrightarrow> solo calls k c"
    and away: "\<And>u c i. q = ReqJoin u c i \<Longrightarrow> p = At_lock \<Longrightarrow> \<not> at_room (hp_mgr h) i c"
  shows "recorded owner t h' (calls(k \<mapsto> (q, p')))"
  using A
proof (cases rule: advance_cases)
  case (join_lock u c i)
  then show ?thesis using k ok solo away by (auto intro: join_lock_recorded [OF S])
next
  case (join u c i replaced res)
  then show ?thesis using k solo by (auto intro: recorded_join [OF S])
next
  case (undo u c i e r)
  then show ?thesis using k ok solo by (auto intro: undo_recorded [OF S])
next
  case (evict u c i old res)
  note a = on_obj_adds [OF evict(3) adds_ops(1)]
  show ?thesis using evict a by (intro recorded_quiet [OF S _ k]) auto
next
  case (idle es)
  have "\<not> holding p'" using idle(3) by (cases p') auto
  with idle show ?thesis by (intro recorded_quiet [OF S _ k]) auto
next
  case (leave_lock u c i)
  then show ?thesis using k ok solo by (auto intro: leave_lock_recorded [OF S])
next
  case (leave u c i res)
  note a = on_obj_adds [OF leave(3) adds_ops(1)]
  show ?thesis using leave a leave_out [OF leave(3) recordedD(2) [OF S]] by (intro recorded_quiet [OF S _ k]) auto
next
  case (remove_lock i)
  then show ?thesis using k by (auto intro: remove_lock_recorded [OF S])
next
  case (shut i)
  have "\<not> mhas (mg_rooms (hp_mgr h)) i" using ok(2) shut by simp
  note a = shut_alike [OF shut(3) this]
  have "p' = Shut" using shut(3) by (auto simp: remove_shut_def)
  then show ?thesis using shut a by (intro recorded_quiet [OF S _ k]) auto
qed

lemma advance_modules:
  assumes "advance now q p h = Some (p', h')"
  shows "mg_modules (hp_mgr h') = mg_modules (hp_mgr h)"
  using assms
proof (cases rule: advance_cases)
  case (join u c i replaced res)
  from on_obj_adds(1) [OF join(3) adds_join_op] show ?thesis by (simp add: alike_def)
next
  case (evict u c i old res)
  from on_obj_adds(1) [OF evict(3) adds_ops(1)] show ?thesis by (simp add: alike_def)
next
  case (leave u c i res)
  from on_obj_adds(1) [OF leave(3) adds_ops(1)] show ?thesis by (simp add: alike_def)
qed (auto simp: join_lock_def leave_lock_def remove_lock_def remove_shut_def on_obj_def put_obj_def
       split: option.splits sum.splits prod.splits if_splits)

text \<open>A new room of a registered type has the mode of its module, and nobody in it.\<close>

lemma new_config_mode:
  "mget (mg_modules m) t = Some md \<Longrightarrow> rc_Type (new_config config m) = t \<Longrightarrow>
     rc_SingletonMode (new_config config m) = rc_SingletonMode (md_config md)"
  by (auto simp: new_config_def room_config_def ApplyDefaults_def Module_BaseConfig_def Let_def split: option.splits if_splits)

lemma create_recorded:
  assumes S: "recorded owner t h calls" and hold: "\<And>k q p. calls k = Some (q, p) \<Longrightarrow> holds h q p"
    and fresh: "obj h (rc_Name (new_config config (hp_mgr h)) @ ''_'' @ uuid) = None"
    and c: "Manager_Create zero uuid config (hp_mgr h) = (res, m', es)"
    and md: "mget (mg_modules (hp_mgr h)) t = Some md" "rc_SingletonMode (md_config md) = SingletonReject"
  shows "recorded owner t (emit es (h\<lparr>hp_mgr := m'\<rparr>)) calls" and "mg_modules m' = mg_modules (hp_mgr h)"
proof -
  let ?i = "rc_Name (new_config config (hp_mgr h)) @ ''_'' @ uuid" and ?h = "emit es (h\<lparr>hp_mgr := m'\<rparr>)"
  from c obtain r where m': "m' = set_room ?i \<lparr>an_module = new_module zero config (hp_mgr h), an_room = r\<rparr> (hp_mgr h)"
    and r: "rm_config r = new_config config (hp_mgr h)" "rm_players r = []" "\<not> rm_done r" by (rule Create_room)
  show "mg_modules m' = mg_modules (hp_mgr h)" using m' by simp
  have none: "mget (mg_rooms (hp_mgr h)) ?i = None" using fresh by (auto simp: obj_def split: option.splits)
  have at: "at_room (hp_mgr ?h) j x \<longleftrightarrow> at_room (hp_mgr h) j x" for j x
    using m' r(2) none by (auto simp: at_room_set members_def at_room_def)
  have cf: "cfg_at (hp_mgr ?h) j = (if j = ?i then Some (new_config config (hp_mgr h)) else cfg_at (hp_mgr h) j)" for j
    using m' r(1) by (simp add: cfg_at_set)
  have oc: "ocfg ?h j = (if j = ?i then Some (new_config config (hp_mgr h)) else ocfg h j)" for j
    using m' r(1) by (auto simp: ocfg_def obj_def split: option.splits)
  have us: "us_of ?h = us_of h" using m' by simp
  have known: "j \<noteq> ?i" if "calls k = Some (ReqJoin u x j, p)" "holding p" for k u x j p
    using hold [OF that(1)] that(2) fresh by (cases p) auto
  have here: "j \<noteq> ?i" if "at_room (hp_mgr h) j x" for j x using that none by (auto simp: at_room_def)
  show "recorded owner t ?h calls"
  proof (rule recordedI, unfold us at)
    show "live (hp_mgr ?h)" using recordedD(2) [OF S] m' r(3) by (auto simp: live_def)
    show "rc_SingletonMode cf = SingletonReject" if "ocfg ?h j = Some cf" "rc_Type cf = t" for j cf
      using that recordedD(3) [OF S] new_config_mode [OF md(1)] md(2) unfolding oc by (auto split: if_splits)
  next
    fix k u x j rep
    assume a: "calls k = Some (ReqJoin u x j, Reserved rep)" "of_type t (cfg_at (hp_mgr ?h) j)"
    then show "record_of (us_of h) (owner x, t) = Some (place_at j x)"
      using recordedD(4) [OF S a(1)] known [OF a(1)] by (simp only: cf) simp
  next
    fix k u x j p s
    assume a: "calls k = Some (ReqJoin u x j, p)" "holding p" "of_type t (ocfg ?h j)"
      "record_of (us_of h) (owner x, t) = Some s" "si_ClientID s = x"
    have "of_type t (ocfg h j)" using a(3) known [OF a(1,2)] by (simp only: oc) simp
    from recordedD(5) [OF S a(1,2) this a(4,5)] show "si_RoomID s = j" .
  next
    fix j x
    assume a: "at_room (hp_mgr h) j x" "of_type t (cfg_at (hp_mgr ?h) j)"
    then show "record_of (us_of h) (owner x, t) = Some (place_at j x) \<or> leaving calls j x"
      using recordedD(7) [OF S a(1)] here [OF a(1)] by (simp only: cf) simp
  qed (use recordedD(1,6) [OF S] in blast)+
qed

section \<open>Every orderly interleaving\<close>

definition race_ok :: "(uint64 \<Rightarrow> string) \<Rightarrow> string \<Rightarrow> 's Manager \<Rightarrow> 's race \<Rightarrow> bool" where
  "race_ok owner t m s \<longleftrightarrow> recorded owner t (ra_heap s) (ra_calls s) \<and> all_hold s \<and>
     (\<forall>k q p. ra_calls s k = Some (q, p) \<longrightarrow> req_ok owner q) \<and> mg_modules (hp_mgr (ra_heap s)) = mg_modules m"

lemma room_step_ok:
  assumes ok: "race_ok owner t m s" and o: "on_obj i f (ra_heap s) = Some (a, h')" "adds {} f"
    and hold: "all_hold (s\<lparr>ra_heap := h'\<rparr>)"
  shows "race_ok owner t m (s\<lparr>ra_heap := h'\<rparr>)"
proof -
  note a = on_obj_adds [OF o]
  have S: "recorded owner t (ra_heap s) (ra_calls s)" using ok by (simp add: race_ok_def)
  have "recorded owner t h' (ra_calls s)"
    by (rule recorded_alike [OF S a(1), where new = False]) (use a(2) in \<open>blast+\<close>)
  then show ?thesis using ok hold a(1) by (auto simp: race_ok_def alike_def)
qed

lemma race_step_ok:
  assumes "race_step owner zero s s'" "race_ok owner t m s" "orderly s"
    and md: "mget (mg_modules m) t = Some md" "rc_SingletonMode (md_config md) = SingletonReject"
  shows "race_ok owner t m s'"
  using assms(1)
proof (cases rule: race_step.cases)
  case (call k q)
  have S: "recorded owner t (ra_heap s) (ra_calls s)" using assms(2) by (simp add: race_ok_def)
  have "recorded owner t (ra_heap s) ((ra_calls s)(k \<mapsto> (q, At_lock)))"
  proof (rule recorded_alike [OF S alike_refl(1), where new = False])
    show "leaving ((ra_calls s)(k \<mapsto> (q, At_lock))) j x \<or> \<not> at_room (hp_mgr (ra_heap s)) j x"
      if "leaving (ra_calls s) j x" for j x
      using that call(2) unfolding leaving_def by (metis fun_upd_other option.distinct(1))
  qed (auto split: if_splits)
  then show ?thesis using assms(2) call race_step_hold [OF assms(1)] by (auto simp: race_ok_def)
next
  case (go k q p now p' h')
  have ok: "recorded owner t (ra_heap s) (ra_calls s)" "req_ok owner q" "holds (ra_heap s) q p"
    using assms(2) go(2) unfolding race_ok_def all_hold_def by blast+
  have "recorded owner t h' ((ra_calls s)(k \<mapsto> (q, p')))"
    using assms(3) go(2) orderly_solo [OF assms(3) go(2)]
    by (intro advance_recorded [OF ok(1) go(3,2) ok(2,3)]) (auto simp: orderly_def)
  then show ?thesis using assms(2) go race_step_hold [OF assms(1)] advance_modules [OF go(3)]
    by (auto simp: race_ok_def split: if_splits)
next
  case (create config uuid res m' es)
  have md': "mget (mg_modules (hp_mgr (ra_heap s))) t = Some md" using assms(2) md(1) by (simp add: race_ok_def)
  have "holds (ra_heap s) q p" if "ra_calls s k = Some (q, p)" for k q p
    using assms(2) that by (auto simp: race_ok_def all_hold_def)
  from create_recorded [OF _ this create(2,3) md' md(2), of owner "ra_calls s"] show ?thesis
    using assms(2) create race_step_hold [OF assms(1)] by (auto simp: race_ok_def)
next
  case (message i ctx c op pl res h')
  then show ?thesis using room_step_ok [OF assms(2) message(2) adds_ops(2)] race_step_hold [OF assms(1)] assms(2)
    by (simp add: race_ok_def)
next
  case (tick i dt u h')
  then show ?thesis using room_step_ok [OF assms(2) tick(2) adds_ops(3)] race_step_hold [OF assms(1)] assms(2)
    by (simp add: race_ok_def)
qed

lemma init_ok: "race_ok owner t m (race_init m)" and init_orderly: "orderly (race_init m)"
  by (auto simp: race_ok_def race_init_def recorded_def us_wf_def live_def ocfg_def obj_def at_room_def record_of_def
      all_hold_def orderly_def)

lemma orderly_reach_ok:
  assumes "orderly_reach owner zero m s"
    and "mget (mg_modules m) t = Some md" "rc_SingletonMode (md_config md) = SingletonReject"
  shows "race_ok owner t m s \<and> orderly s"
  using assms(1)
  by (induction rule: orderly_reach.induct) (auto simp: init_ok init_orderly intro: race_step_ok [OF _ _ _ assms(2,3)])

end
