(* ===== verification/Manager_Race_Demo.thy ===== *)
theory Manager_Race_Demo
  imports Manager_Race_Props
begin

text \<open>Executions of concurrent calls on the two rooms of \<^verbatim>\<open>Manager_Demo\<close>.\<close>

section \<open>Concrete interleavings\<close>

definition registered :: "uint8 \<Rightarrow> unit Manager" where
  "registered mode = \<lparr>mg_rooms = [], mg_userSessions = [], mg_modules = [(''g'', game mode)], mg_opTypes = []\<rparr>"

definition table :: "uint8 \<Rightarrow> (uint64, Player) gomap \<Rightarrow> (uint64, Player) gomap \<Rightarrow> user_sessions \<Rightarrow> eff list \<Rightarrow> unit heap" where
  "table mode ps qs us out = \<lparr>hp_mgr = game_mgr mode ps qs us, hp_gone = [], hp_out = out\<rparr>"

lemma orderly_no_calls: "ra_calls s = Map.empty \<Longrightarrow> orderly s"
  by (simp add: orderly_def)

lemma create_game:
  assumes m: "m = \<lparr>mg_rooms = rs, mg_userSessions = [], mg_modules = [(''g'', game mode)], mg_opTypes = []\<rparr>"
    and fresh: "mget rs (''g_'' @ uuid) = None"
    and reach: "orderly_reach owner () (registered mode) \<lparr>ra_heap = \<lparr>hp_mgr = m, hp_gone = [], hp_out = out\<rparr>, ra_calls = Map.empty\<rparr>"
  shows "\<exists>out. orderly_reach owner () (registered mode)
     \<lparr>ra_heap = \<lparr>hp_mgr = m\<lparr>mg_rooms := mput (''g_'' @ uuid) (game_room mode (''g_'' @ uuid) []) rs\<rparr>,
        hp_gone = [], hp_out = out\<rparr>, ra_calls = Map.empty\<rparr>"
proof -
  let ?cfg = "RoomConfig_zero\<lparr>rc_Type := ''g''\<rparr>"
  let ?s = "\<lparr>ra_heap = \<lparr>hp_mgr = m, hp_gone = [], hp_out = out\<rparr>, ra_calls = Map.empty\<rparr>"
  have cfg: "new_config ?cfg m = game_config mode" by (rule game_new_config) (simp add: m)
  have rs: "mg_rooms m = rs" by (simp add: m)
  obtain res m' es where c: "Manager_Create () uuid ?cfg m = (res, m', es)" by (metis prod_cases3)
  have "m' = fst (snd (Manager_Create () uuid ?cfg m))" using c by simp
  also have "\<dots> = m\<lparr>mg_rooms := mput (''g_'' @ uuid) (game_room mode (''g_'' @ uuid) []) rs\<rparr>"
    unfolding Create_mgr cfg by (simp add: m new_module_def newRoom_def Room_setOnEmpty_def Let_def game_simps)
  finally have m': "m' = m\<lparr>mg_rooms := mput (''g_'' @ uuid) (game_room mode (''g_'' @ uuid) []) rs\<rparr>" .
  have "race_step owner () ?s (?s\<lparr>ra_heap := emit es ((ra_heap ?s)\<lparr>hp_mgr := m'\<rparr>)\<rparr>)"
    by (rule race_step.create [where config = ?cfg and uuid = uuid and res = res])
       (use c fresh in \<open>simp_all add: cfg obj_def rs game_config_def\<close>)
  from orderly_reach.step [OF reach this] show ?thesis
    using m' by (auto simp: orderly_no_calls emit_def)
qed

lemma tables_ready:
  "\<exists>out. orderly_reach owner () (registered mode) \<lparr>ra_heap = table mode [] [] [] out, ra_calls = Map.empty\<rparr>"
proof -
  have "orderly_reach owner () (registered mode)
      \<lparr>ra_heap = \<lparr>hp_mgr = registered mode, hp_gone = [], hp_out = []\<rparr>, ra_calls = Map.empty\<rparr>"
    using orderly_reach.init [of owner "()" "registered mode"] by (simp add: race_init_def registered_def mempty_def)
  from create_game [OF registered_def [of mode] _ this, of "''1''"] obtain out
    where "orderly_reach owner () (registered mode) \<lparr>ra_heap = \<lparr>hp_mgr = \<lparr>mg_rooms = [(''g_1'', game_room mode ''g_1'' [])],
       mg_userSessions = [], mg_modules = [(''g'', game mode)], mg_opTypes = []\<rparr>,
       hp_gone = [], hp_out = out\<rparr>, ra_calls = Map.empty\<rparr>"
    by (auto simp: registered_def mput_def)
  from create_game [OF refl _ this, of "''2''"] show ?thesis
    by (auto simp: table_def game_mgr_def map_defs)
qed

lemma orderly_race: "orderly_reach owner zero m s \<Longrightarrow> race_reach owner zero m s"
  by (induction rule: orderly_reach.induct) (auto intro: race_reach.intros)

subsection \<open>Steps at the tables\<close>

lemma rooms_table:
  "mget (mg_rooms (hp_mgr (table mode ps qs us out))) ''g_1'' = Some (game_room mode ''g_1'' ps)"
  "mget (mg_rooms (hp_mgr (table mode ps qs us out))) ''g_2'' = Some (game_room mode ''g_2'' qs)"
  by (simp_all add: table_def game_mgr_def mget_def)

lemma put_table:
  "put_obj ''g_1'' (game_room mode ''g_1'' ps') (table mode ps qs us out) = table mode ps' qs us out"
  "put_obj ''g_2'' (game_room mode ''g_2'' qs') (table mode ps qs us out) = table mode ps qs' us out"
  by (simp_all add: put_obj_def table_def game_mgr_def set_room_def map_defs mhas_def)

lemma table_upd:
  "emit es (table mode ps qs us out) = table mode ps qs us (out @ es)"
  "set_sessions us' (table mode ps qs us out) = table mode ps qs us' out"
  "us_of (table mode ps qs us out) = us" "game_room mode i ps\<lparr>an_room := an_room (game_room mode i ps')\<rparr> = game_room mode i ps'"
  by (simp_all add: emit_def set_sessions_def table_def game_mgr_def game_room_def)

lemma game_type:
  "rc_SingletonMode (rm_config (an_room (game_room mode i ps))) = mode" "rc_Type (rm_config (an_room (game_room mode i ps))) = ''g''"
  by (simp_all add: game_room_def game_config_def)

lemma place_simps:
  "record_of [] k = None" "record_of (place u i c) (u, ''g'') = Some (place_at i c)"
  "sess_put (u, ''g'') (place_at i c) [] = place u i c" "sess_put (u, ''g'') (place_at i c) (place u j d) = place u i c"
  "sess_del (u, ''g'') (place u i c) = []"
  by (simp_all add: record_of_def place_def sess_put_def sess_del_def map_defs)

definition joined_eff :: "string \<Rightarrow> uint64 \<Rightarrow> string \<Rightarrow> eff" where
  "joined_eff i c u = Pub (''room:'' @ i) \<lparr>ev_Op = EventPlayerJoined, ev_Payload = PlayerJoined_enc \<lparr>pj_PlayerID = c, pj_UserID = u\<rparr>\<rparr>"

lemma game_sit:
  "fits16 u \<Longrightarrow> Room_Join (an_module (game_room mode i [])) 5 c u (an_room (game_room mode i [])) =
     (Val None, an_room (game_room mode i (seat c u)), [joined_eff i c u])"
  by (simp add: join_simps seat_def joined_eff_def)

lemma game_info: "Room_Info (an_room (game_room mode i ps)) = Inr (roomInfo (an_room (game_room mode i ps)))"
  by (simp add: Room_Info_def room_do_def game_room_def)

lemma game_absent: "Room_Leave md c (an_room (game_room mode i [])) = (Val (), an_room (game_room mode i []), [])"
  by (rule Room_Leave_absent) (auto simp: game_room_def members_def)

lemmas table_simps = rooms_table put_table table_upd game_type place_simps game_sit game_info game_absent obj_map on_obj_def
  join_lock_def join_room_def find_old_def evict_def kick_old_def join_info_def leave_lock_def leave_room_def
  reserve_eq drop_session_eq Manager_Find_def

lemma kicked_at:
  "fits16 i \<Longrightarrow> \<exists>ev. kicked_event i = Val ev"
  by (simp add: kicked_event_def NewEvent_def Encode_def Kicked_marshal_fits Kicked_fits_def fits16_def)

lemma first_reserves:
  "advance 5 (ReqJoin u c ''g_1'') At_lock (table mode [] [] [] out) =
     Some (Reserved None, table mode [] [] (if mode = SingletonAllow then [] else place u ''g_1'' c) out)"
  by (simp add: table_simps)

lemma second_replaces:
  "advance 5 (ReqJoin u d ''g_2'') At_lock (table 2 [] [] (place u ''g_1'' c) out) =
     Some (Reserved (Some (place_at ''g_1'' c)), table 2 [] [] (place u ''g_2'' d) out)"
  by (simp add: table_simps)

lemma second_joins:
  "fits16 u \<Longrightarrow> advance 5 (ReqJoin u d ''g_2'') (Reserved (Some (place_at ''g_1'' c))) (table mode ps [] us out) =
     Some (Joined (place_at ''g_1'' c), table mode ps (seat d u) us (out @ [joined_eff ''g_2'' d u]))"
  by (simp add: table_simps)

lemma second_evicts:
  "advance 5 (ReqJoin u d ''g_2'') (Joined (place_at ''g_1'' c)) (table mode ps qs us out) =
     Some (Evicting (place_at ''g_1'' c), table mode ps qs us out)"
  "advance 5 (ReqJoin u d ''g_2'') (Evicting (place_at ''g_1'' c)) (table mode [] qs us out) =
     Some (Kicking (place_at ''g_1'' c), table mode [] qs us out)"
  by (simp_all add: table_simps)

lemma first_joins:
  "fits16 u \<Longrightarrow> advance 5 (ReqJoin u c ''g_1'') (Reserved None) (table mode [] qs us out) =
     Some (At_info, table mode (seat c u) qs us (out @ [joined_eff ''g_1'' c u]))"
  by (simp add: table_simps)

lemma both_return:
  "advance 5 (ReqJoin u c ''g_1'') At_info (table mode ps qs us out) =
     Some (JRet (Val (Inr (roomInfo (an_room (game_room mode ''g_1'' ps))))), table mode ps qs us out)"
  "advance 5 (ReqJoin u c ''g_2'') At_info (table mode ps qs us out) =
     Some (JRet (Val (Inr (roomInfo (an_room (game_room mode ''g_2'' qs))))), table mode ps qs us out)"
  by (simp_all add: table_simps)

lemma leave_drops:
  "advance 5 (ReqLeave u c ''g_1'') At_lock (table 1 [] [] (place u ''g_1'' c) out) = Some (Dropped, table 1 [] [] [] out)"
  "advance 5 (ReqLeave u c ''g_1'') Dropped (table mode [] qs us out) = Some (Ret (Val ()), table mode [] qs us out)"
  by (simp_all add: table_simps)


subsection \<open>Two connections of one user\<close>

definition duel :: "unit heap \<Rightarrow> mpc \<Rightarrow> mpc \<Rightarrow> unit race" where
  "duel h p0 p1 = \<lparr>ra_heap = h,
     ra_calls = [0 \<mapsto> (ReqJoin ''u'' 1 ''g_1'', p0), 1 \<mapsto> (ReqJoin ''u'' 2 ''g_2'', p1)]\<rparr>"

lemma duel_orderly:
  "(p0 = At_lock \<Longrightarrow> \<not> at_room (hp_mgr h) ''g_1'' 1) \<Longrightarrow> (p1 = At_lock \<Longrightarrow> \<not> at_room (hp_mgr h) ''g_2'' 2) \<Longrightarrow>
     orderly (duel h p0 p1)"
  by (auto simp: orderly_def duel_def split: if_splits)

lemma duel_0:
  assumes "orderly_reach owner () m (duel h p0 p1)" "advance 5 (ReqJoin ''u'' 1 ''g_1'') p0 h = Some (p0', h')"
    and "p0' \<noteq> At_lock" "p1 = At_lock \<Longrightarrow> \<not> at_room (hp_mgr h') ''g_2'' 2"
  shows "orderly_reach owner () m (duel h' p0' p1)"
proof (rule orderly_reach.step [OF assms(1)])
  show "race_step owner () (duel h p0 p1) (duel h' p0' p1)"
    using race_step.go [of "duel h p0 p1" 0 "ReqJoin ''u'' 1 ''g_1''" p0 5 p0' h' owner "()"] assms(2)
    by (simp add: duel_def fun_upd_twist)
  show "orderly (duel h' p0' p1)" using assms(3,4) by (auto intro: duel_orderly)
qed

lemma duel_1:
  assumes "orderly_reach owner () m (duel h p0 p1)" "advance 5 (ReqJoin ''u'' 2 ''g_2'') p1 h = Some (p1', h')"
    and "p1' \<noteq> At_lock" "p0 = At_lock \<Longrightarrow> \<not> at_room (hp_mgr h') ''g_1'' 1"
  shows "orderly_reach owner () m (duel h' p0 p1')"
proof (rule orderly_reach.step [OF assms(1)])
  show "race_step owner () (duel h p0 p1) (duel h' p0 p1')"
    using race_step.go [of "duel h p0 p1" 1 "ReqJoin ''u'' 2 ''g_2''" p1 5 p1' h' owner "()"] assms(2)
    by (simp add: duel_def)
  show "orderly (duel h' p0 p1')" using assms(3,4) by (auto intro: duel_orderly)
qed

lemma table_empty: "\<not> at_room (hp_mgr (table mode [] [] us out)) i c"
  by (auto simp: at_room_def table_def game_mgr_def mget_def game_room_def members_def split: if_splits)

lemma duel_start:
  "\<exists>out. orderly_reach (\<lambda>_. ''u'') () (registered mode) (duel (table mode [] [] [] out) At_lock At_lock)"
proof -
  obtain out where r: "orderly_reach (\<lambda>_. ''u'') () (registered mode) \<lparr>ra_heap = table mode [] [] [] out, ra_calls = Map.empty\<rparr>"
    using tables_ready by blast
  let ?h = "table mode [] [] [] out"
  let ?s = "\<lparr>ra_heap = ?h, ra_calls = [0 \<mapsto> (ReqJoin ''u'' 1 ''g_1'', At_lock)]\<rparr>"
  have "race_step (\<lambda>_. ''u'') () \<lparr>ra_heap = ?h, ra_calls = Map.empty\<rparr> ?s"
    using race_step.call [of "\<lparr>ra_heap = ?h, ra_calls = Map.empty\<rparr>" 0 "\<lambda>_. ''u''" "ReqJoin ''u'' 1 ''g_1''" "()"] by simp
  from orderly_reach.step [OF r this] have s: "orderly_reach (\<lambda>_. ''u'') () (registered mode) ?s"
    by (auto simp: orderly_def table_empty split: if_splits)
  have "race_step (\<lambda>_. ''u'') () ?s (duel ?h At_lock At_lock)"
    using race_step.call [of ?s 1 "\<lambda>_. ''u''" "ReqJoin ''u'' 2 ''g_2''" "()"] by (simp add: duel_def)
  from orderly_reach.step [OF s this duel_orderly [OF table_empty table_empty]] show ?thesis by blast
qed

text \<open>The first connection reserves its place; the second one overtakes it, finds nobody to evict, and
  returns; then the first one joins.\<close>

lemma duel_end:
  "\<exists>out r r'. orderly_reach (\<lambda>_. ''u'') () (registered 2)
     (duel (table 2 (seat 1 ''u'') (seat 2 ''u'') (place ''u'' ''g_2'' 2) out) (JRet (Val (Inr r))) (JRet (Val (Inr r'))))"
proof -
  have u: "fits16 ''u''" by (simp add: fits16_def)
  obtain ev where ev: "kicked_event ''g_2'' = Val ev" using kicked_at [of "''g_2''"] by (auto simp: fits16_def)
  obtain out where "orderly_reach (\<lambda>_. ''u'') () (registered 2) (duel (table 2 [] [] [] out) At_lock At_lock)"
    using duel_start by blast
  note s = duel_0 [OF this first_reserves, simplified, OF table_empty]
  note s = duel_1 [OF s second_replaces, simplified]
  note s = duel_1 [OF s second_joins [OF u], simplified]
  note s = duel_1 [OF s second_evicts(1), simplified]
  note s = duel_1 [OF s second_evicts(2), simplified]
  have "advance 5 (ReqJoin ''u'' 2 ''g_2'') (Kicking old) (table 2 [] qs us out) =
      Some (At_info, table 2 [] qs us (out @ [Pub (clientTopic (si_ClientID old)) ev]))" for old qs us out
    by (simp add: kick_old_def ev table_upd)
  note s = duel_1 [OF s this, simplified]
  note s = duel_1 [OF s both_return(2), simplified]
  note s = duel_0 [OF s first_joins [OF u], simplified]
  note s = duel_0 [OF s both_return(1), simplified]
  then show ?thesis by blast
qed


subsection \<open>A connection that ends while it joins\<close>

definition parting :: "unit heap \<Rightarrow> mpc \<Rightarrow> mpc \<Rightarrow> unit race" where
  "parting h p0 p1 = \<lparr>ra_heap = h,
     ra_calls = [0 \<mapsto> (ReqJoin ''u'' 1 ''g_1'', p0), 1 \<mapsto> (ReqLeave ''u'' 1 ''g_1'', p1)]\<rparr>"

lemma parting_go:
  assumes "race_reach owner () m (parting h p0 p1)"
  shows "advance 5 (ReqJoin ''u'' 1 ''g_1'') p0 h = Some (p0', h') \<Longrightarrow> race_reach owner () m (parting h' p0' p1)"
    and "advance 5 (ReqLeave ''u'' 1 ''g_1'') p1 h = Some (p1', h') \<Longrightarrow> race_reach owner () m (parting h' p0 p1')"
  using race_reach.step [OF assms race_step.go [of "parting h p0 p1" 0 "ReqJoin ''u'' 1 ''g_1''" p0 5 p0' h']]
    race_reach.step [OF assms race_step.go [of "parting h p0 p1" 1 "ReqLeave ''u'' 1 ''g_1''" p1 5 p1' h']]
  by (simp_all add: parting_def fun_upd_twist)

lemma parting_end:
  "\<exists>out r. race_reach (\<lambda>_. ''u'') () (registered 1) (parting (table 1 (seat 1 ''u'') [] [] out) (JRet (Val (Inr r))) (Ret (Val ())))"
proof -
  have u: "fits16 ''u''" by (simp add: fits16_def)
  obtain out where r: "race_reach (\<lambda>_. ''u'') () (registered 1) \<lparr>ra_heap = table 1 [] [] [] out, ra_calls = Map.empty\<rparr>"
    using tables_ready [of "\<lambda>_. ''u''" 1] by (auto dest: orderly_race)
  let ?h = "table 1 [] [] [] out"
  let ?s = "\<lparr>ra_heap = ?h, ra_calls = [0 \<mapsto> (ReqJoin ''u'' 1 ''g_1'', At_lock)]\<rparr>"
  have "race_step (\<lambda>_. ''u'') () \<lparr>ra_heap = ?h, ra_calls = Map.empty\<rparr> ?s"
    using race_step.call [of "\<lparr>ra_heap = ?h, ra_calls = Map.empty\<rparr>" 0 "\<lambda>_. ''u''" "ReqJoin ''u'' 1 ''g_1''" "()"] by simp
  moreover have "race_step (\<lambda>_. ''u'') () ?s (parting ?h At_lock At_lock)"
    using race_step.call [of ?s 1 "\<lambda>_. ''u''" "ReqLeave ''u'' 1 ''g_1''" "()"] by (simp add: parting_def)
  ultimately have "race_reach (\<lambda>_. ''u'') () (registered 1) (parting ?h At_lock At_lock)"
    using r by (blast intro: race_reach.step)
  note s = parting_go(1) [OF this first_reserves, simplified]
  note s = parting_go(2) [OF s leave_drops(1)]
  note s = parting_go(2) [OF s leave_drops(2)]
  note s = parting_go(1) [OF s first_joins [OF u]]
  note s = parting_go(1) [OF s both_return(1)]
  then show ?thesis by blast
qed

subsection \<open>One connection is recorded while the other waits\<close>

lemma duel_at_table:
  "\<exists>out. orderly_reach (\<lambda>_. ''u'') () (registered 1)
     (duel (table 1 (seat 1 ''u'') [] (place ''u'' ''g_1'' 1) out) At_info At_lock)"
proof -
  have u: "fits16 ''u''" by (simp add: fits16_def)
  have e: "\<not> at_room (hp_mgr (table 1 ps [] us out)) ''g_2'' c" for ps us out c
    by (auto simp: at_room_def rooms_table game_room_def members_def)
  obtain out where "orderly_reach (\<lambda>_. ''u'') () (registered 1) (duel (table 1 [] [] [] out) At_lock At_lock)"
    using duel_start by blast
  note s = duel_0 [OF this first_reserves, simplified, OF table_empty]
  note s = duel_0 [OF s first_joins [OF u], simplified, OF e]
  then show ?thesis by blast
qed

end
