(* ===== verification/Manager_Race_Theorems.thy ===== *)
theory Manager_Race_Theorems
  imports Manager_Race_Demo
begin

text \<open>The properties of concurrent calls of the manager.\<close>

section \<open>The steps and the operations\<close>

text \<open>A call of \<open>JoinRoom\<close>, \<open>LeaveRoom\<close> or \<open>Remove\<close> that no other call disturbs does, in at most six critical
  sections, exactly what the sequential operation of the manager does: the same result, the same
  manager and the same publications in the same order.\<close>

lemma undisturbed_calls_are_the_operations:
  "run_alone 6 now (ReqJoin u c i) (At_lock, h) =
     (case Manager_JoinRoom now u c i (hp_mgr h) of (res, m', es) \<Rightarrow>
        (JRet res, h\<lparr>hp_mgr := m', hp_out := hp_out h @ es\<rparr>)) \<and>
   run_alone 2 now (ReqLeave u c i) (At_lock, h) =
     (case Manager_LeaveRoom u c i (hp_mgr h) of (res, m', es) \<Rightarrow>
        (Ret res, h\<lparr>hp_mgr := m', hp_out := hp_out h @ es\<rparr>)) \<and>
   (\<exists>gone. run_alone 3 now (ReqRemove i) (At_lock, h) =
     (case Manager_Remove i (hp_mgr h) of (res, m', es) \<Rightarrow>
        (Ret res, \<lparr>hp_mgr = m', hp_gone = gone, hp_out = hp_out h @ es\<rparr>)))"
  using alone_JoinRoom alone_LeaveRoom alone_Remove by blast

text \<open>No call waits for another. In every state that concurrent callers can reach, a call that has not
  returned can take its next step, whatever the others do, and it has at most six steps to take.\<close>

lemma calls_always_return:
  assumes "race_reach owner zero m s" "ra_calls s k = Some (q, p)"
  shows "returned p \<or> (\<exists>p' h'. advance now q p (ra_heap s) = Some (p', h') \<and> rank p' < rank p \<and> rank p \<le> 6)"
proof -
  have "holds (ra_heap s) q p" using race_reach_hold [OF assms(1)] assms(2) by (auto simp: all_hold_def)
  moreover have "rank p \<le> 6" by (cases p) auto
  ultimately show ?thesis using advance_total by blast
qed

section \<open>One place per user\<close>

lemma recorded_place:
  assumes "recorded owner t h calls" "Manager_Find i (hp_mgr h) = Some r" "rc_Type (rm_config (an_room r)) = t"
    "c \<in> members (an_room r)" "\<not> leaving calls i c"
  shows "record_of (us_of h) (owner c, t) = Some (place_at i c)"
proof -
  have "at_room (hp_mgr h) i c" using assms(2,4) by (simp add: Manager_Find_def at_room_def)
  moreover have "of_type t (cfg_at (hp_mgr h) i)" using assms(2,3) by (simp add: Manager_Find_def cfg_at_def of_type_def)
  ultimately show ?thesis using recordedD(7) [OF assms(1)] assms(5) by blast
qed

text \<open>C3: the singleton rule holds under every interleaving of concurrent joins, leaves and removals. If a
  room type is registered with the mode \<open>SingletonReject\<close>, the calls of one connection do not overlap
  and no connection asks to join a room it is in already, then the connections of one user never
  hold two places in rooms of the type, apart from places that a \<open>LeaveRoom\<close> is about to free: a call
  that has dropped the record under the lock and has not yet taken the player out of the room. (A
  connection calls for the user it is logged in as, and new rooms have new IDs.)\<close>

theorem one_place_per_user:
  assumes "orderly_reach owner zero m s"
    and "mget (mg_modules m) t = Some md" "rc_SingletonMode (md_config md) = SingletonReject"
    and "Manager_Find i (hp_mgr (ra_heap s)) = Some r" "rc_Type (rm_config (an_room r)) = t" "c \<in> members (an_room r)"
    and "Manager_Find j (hp_mgr (ra_heap s)) = Some r'" "rc_Type (rm_config (an_room r')) = t" "d \<in> members (an_room r')"
    and "owner c = owner d" "\<not> leaving (ra_calls s) i c" "\<not> leaving (ra_calls s) j d"
  shows "i = j \<and> c = d"
proof -
  have S: "recorded owner t (ra_heap s) (ra_calls s)"
    using orderly_reach_ok [OF assms(1,2,3)] by (simp add: race_ok_def)
  have "Some (place_at i c) = Some (place_at j d)"
    unfolding recorded_place [OF S assms(4-6,11), symmetric] recorded_place [OF S assms(7-9,12), symmetric] assms(10) ..
  then show ?thesis by (simp only: option.inject sessionInfo.iffs) 
qed

theorem one_place_per_user_witness:
  "\<exists>s r r'. orderly_reach (\<lambda>_. ''u'') () (registered 1) s \<and>
     Manager_Find ''g_1'' (hp_mgr (ra_heap s)) = Some r \<and> members (an_room r) = {1} \<and>
     Manager_Find ''g_2'' (hp_mgr (ra_heap s)) = Some r' \<and> members (an_room r') = {}"
proof -
  obtain out where s: "orderly_reach (\<lambda>_. ''u'') () (registered 1)
      (duel (table 1 (seat 1 ''u'') [] (place ''u'' ''g_1'' 1) out) At_info At_lock)" (is "orderly_reach _ _ _ ?s")
    using duel_at_table by blast
  have h: "hp_mgr (ra_heap ?s) = game_mgr 1 (seat 1 ''u'') [] (place ''u'' ''g_1'' 1)" by (simp add: duel_def table_def)
  let ?r = "game_room 1 ''g_1'' (seat 1 ''u'')" and ?r' = "game_room 1 ''g_2'' []"
  have f: "Manager_Find ''g_1'' (hp_mgr (ra_heap ?s)) = Some ?r" "Manager_Find ''g_2'' (hp_mgr (ra_heap ?s)) = Some ?r'"
    by (simp_all add: h game_find)
  have md: "mget (mg_modules (registered 1)) ''g'' = Some (game 1)" "rc_SingletonMode (md_config (game 1)) = SingletonReject"
    by (simp_all add: registered_def game_simps)
  have l: "\<not> leaving (ra_calls ?s) i c" for i c by (auto simp: leaving_def duel_def)
  have "d \<notin> members (an_room ?r')" for d
    using one_place_per_user [OF s md f(1) game_type(2) _ f(2) game_type(2) _ refl l l, of 1 d] game_room_sel(2) [of 1 "''g_1''" 1 "''u''"]
    by auto
  then show ?thesis using s f game_room_sel(2) [of 1 "''g_1''" 1 "''u''"] by blast
qed

section \<open>Races\<close>

text \<open>C19: the mode \<open>SingletonReplace\<close> does not keep a user to one place when two connections of the user join at
  the same time. The first call records its place; the second one takes over the record, joins, finds
  nobody to evict in the first room, and returns; then the first one joins too. Both calls succeed,
  and the user is in two rooms of a type that allows one, with nothing left that would undo it.\<close>

theorem replaced_place_can_survive:
  "\<exists>s r r' info info'. orderly_reach (\<lambda>_. ''u'') () (registered SingletonReplace) s \<and>
     Manager_Find ''g_1'' (hp_mgr (ra_heap s)) = Some r \<and> Manager_Find ''g_2'' (hp_mgr (ra_heap s)) = Some r' \<and>
     rm_config (an_room r') = rm_config (an_room r) \<and> rc_SingletonMode (rm_config (an_room r)) = SingletonReplace \<and>
     members (an_room r) = {1} \<and> members (an_room r') = {2} \<and>
     ra_calls s = [0 \<mapsto> (ReqJoin ''u'' 1 ''g_1'', JRet (Val (Inr info))), 1 \<mapsto> (ReqJoin ''u'' 2 ''g_2'', JRet (Val (Inr info')))]"
proof -
  obtain out i i' where s: "orderly_reach (\<lambda>_. ''u'') () (registered 2)
     (duel (table 2 (seat 1 ''u'') (seat 2 ''u'') (place ''u'' ''g_2'' 2) out) (JRet (Val (Inr i))) (JRet (Val (Inr i'))))"
    using duel_end by blast
  let ?s = "duel (table 2 (seat 1 ''u'') (seat 2 ''u'') (place ''u'' ''g_2'' 2) out) (JRet (Val (Inr i))) (JRet (Val (Inr i')))"
  have h: "hp_mgr (ra_heap ?s) = game_mgr 2 (seat 1 ''u'') (seat 2 ''u'') (place ''u'' ''g_2'' 2)"
    by (simp add: duel_def table_def)
  have "ra_calls ?s = [0 \<mapsto> (ReqJoin ''u'' 1 ''g_1'', JRet (Val (Inr i))), 1 \<mapsto> (ReqJoin ''u'' 2 ''g_2'', JRet (Val (Inr i')))]"
    by (simp add: duel_def)
  then show ?thesis using s game_find [of 2 "seat 1 ''u''" "seat 2 ''u''" "place ''u'' ''g_2'' 2"]
      game_room_sel(1) [of 2] game_room_sel(2) [of 2 "''g_1''" 1 "''u''"] game_room_sel(2) [of 2 "''g_2''" 2 "''u''"]
    by (intro exI [of _ ?s] exI [of _ "game_room 2 ''g_1'' (seat 1 ''u'')"] exI [of _ "game_room 2 ''g_2'' (seat 2 ''u'')"]
          exI [of _ i] exI [of _ i']) (simp add: h game_config_def)
qed

text \<open>C20: a connection that ends while one of its requests is joining a room stays in the room. \<open>OnDisconnect\<close>
  runs on the goroutine of the read loop and calls \<open>LeaveRoom\<close> between the reservation and the join of the
  handler's \<open>JoinRoom\<close>: the record is dropped, there is no player to remove yet, and the join then
  succeeds. All calls have returned, the player is in the room, and no record names it.\<close>

theorem interrupted_join_leaves_a_ghost:
  "\<exists>s r info. race_reach (\<lambda>_. ''u'') () (registered SingletonReject) s \<and>
     Manager_Find ''g_1'' (hp_mgr (ra_heap s)) = Some r \<and> members (an_room r) = {1} \<and>
     mg_userSessions (hp_mgr (ra_heap s)) = [] \<and>
     ra_calls s = [0 \<mapsto> (ReqJoin ''u'' 1 ''g_1'', JRet (Val (Inr info))), 1 \<mapsto> (ReqLeave ''u'' 1 ''g_1'', Ret (Val ()))]"
proof -
  obtain out r where s: "race_reach (\<lambda>_. ''u'') () (registered 1)
      (parting (table 1 (seat 1 ''u'') [] [] out) (JRet (Val (Inr r))) (Ret (Val ())))" using parting_end by blast
  let ?s = "parting (table 1 (seat 1 ''u'') [] [] out) (JRet (Val (Inr r))) (Ret (Val ()))"
  have h: "hp_mgr (ra_heap ?s) = game_mgr 1 (seat 1 ''u'') [] []" by (simp add: parting_def table_def)
  have "ra_calls ?s = [0 \<mapsto> (ReqJoin ''u'' 1 ''g_1'', JRet (Val (Inr r))), 1 \<mapsto> (ReqLeave ''u'' 1 ''g_1'', Ret (Val ()))]"
    by (simp add: parting_def)
  then show ?thesis using s game_find(1) [of 1 "seat 1 ''u''"] game_room_sel(2) [of 1 "''g_1''" 1 "''u''"]
    by (intro exI [of _ ?s] exI [of _ "game_room 1 ''g_1'' (seat 1 ''u'')"] exI [of _ r]) (simp add: h game_mgr_def)
qed

end
