(* ===== verification/Command.thy ===== *)
theory Command
  imports Go_Map
begin

text \<open>
  The package \<^verbatim>\<open>command\<close>: the registry of global RPC handlers by opcode. The handler type is a
  parameter; the handlers themselves are modelled in \<^verbatim>\<open>Handlers.thy\<close>.
\<close>

record 'h Registry =
  rg_handlers :: "(uint16, 'h) gomap"

definition NewRegistry :: "'h Registry" where
  "NewRegistry = \<lparr>rg_handlers = mempty\<rparr>"

definition Registry_Register :: "uint16 \<Rightarrow> 'h \<Rightarrow> 'h Registry \<Rightarrow> 'h Registry outcome" where
  "Registry_Register op handler r =
     (if mhas (rg_handlers r) op
      then Panic (''command: opcode '' @ format_nat (unat op) @ '' already registered'')
      else Val (r\<lparr>rg_handlers := mput op handler (rg_handlers r)\<rparr>))"

definition Registry_Get :: "'h Registry \<Rightarrow> uint16 \<Rightarrow> 'h option" where
  "Registry_Get r op = mget (rg_handlers r) op"

definition Registry_Has :: "'h Registry \<Rightarrow> uint16 \<Rightarrow> bool" where
  "Registry_Has r op \<longleftrightarrow> Registry_Get r op \<noteq> None"

lemma Registry_Get_New [simp]: "Registry_Get NewRegistry op = None"
  by (simp add: Registry_Get_def NewRegistry_def)

lemma Registry_Register_Val:
  "Registry_Register op h r = Val r' \<longleftrightarrow>
     \<not> Registry_Has r op \<and> r' = r\<lparr>rg_handlers := mput op h (rg_handlers r)\<rparr>"
  by (auto simp: Registry_Register_def Registry_Has_def Registry_Get_def mhas_def)

lemma Registry_Get_Register:
  "Registry_Register op h r = Val r' \<Longrightarrow>
     Registry_Get r' op' = (if op' = op then Some h else Registry_Get r op')"
  by (auto simp: Registry_Register_Val Registry_Get_def)

end
