(* ===== verification/Handlers.thy ===== *)
theory Handlers
  imports Client Manager_Runs Command
begin

text \<open>
  The running server as one state, and the built-in request handlers of
  \<^verbatim>\<open>internal/handlers\<close> and \<^verbatim>\<open>lobby\<close> on it. The effects of the manager are carried out on the
  server: an event goes through the bus to the clients subscribed to its topic, a removal becomes a
  pending goroutine, and a \<open>go\<close> of a nil function ends the process.
\<close>

section \<open>The server\<close>

record ('s, 'v) World =
  wd_bus :: EventBus
  wd_clients :: "(uint64, 'v Client) gomap"
  wd_sessions :: "'v Store"
  wd_mgr :: "'s Manager"
  wd_pending :: "string list" \<comment> \<open>rooms whose removal runs as a goroutine\<close>
  wd_fired :: "string list" \<comment> \<open>rooms whose grace timer has expired and whose check is still to run\<close>
  wd_crashed :: bool

text \<open>Delivery to a client; a panic of its \<open>Send\<close> is recovered by the topic.\<close>

definition world_send :: "(uint64, 'v Client) gomap send" where
  "world_send sub topic event clients =
     (case mget clients (sub_ID sub) of
        None \<Rightarrow> (clients, None)
      | Some c \<Rightarrow>
          (case Client_Send topic event c of
             Val c' \<Rightarrow> (mput (sub_ID sub) c' clients, None)
           | Panic e \<Rightarrow> (clients, Some e)))"

fun run_eff :: "eff \<Rightarrow> ('s, 'v) World \<Rightarrow> ('s, 'v) World" where
  "run_eff (Pub topic event) w =
     w\<lparr>wd_clients := Publish world_send topic event (wd_bus w) (wd_clients w)\<rparr>"
| "run_eff (GoOnEmpty i) w = w\<lparr>wd_pending := wd_pending w @ [i]\<rparr>"
| "run_eff GoNilFunc w = w\<lparr>wd_crashed := True\<rparr>"

definition run_effs :: "eff list \<Rightarrow> ('s, 'v) World \<Rightarrow> ('s, 'v) World" where
  "run_effs es w = fold run_eff es w"

text \<open>A manager operation on the server.\<close>

definition on_mgr :: "('s Manager \<Rightarrow> 'a \<times> 's Manager \<times> eff list) \<Rightarrow> ('s, 'v) World \<Rightarrow> 'a \<times> ('s, 'v) World" where
  "on_mgr f w = (case f (wd_mgr w) of (a, m, es) \<Rightarrow> (a, run_effs es (w\<lparr>wd_mgr := m\<rparr>)))"

section \<open>The context of a request\<close>

text \<open>
  \<open>command.Context\<close>: the session and the client of the request; \<open>cx_now\<close> and \<open>cx_uuid\<close> are what the
  clock and the generator of IDs return during it, and \<open>cx_cancelled\<close> tells whether its context is.
\<close>

record 'v CmdContext =
  cx_Session :: "'v Session option"
  cx_ClientID :: uint64
  cx_cancelled :: bool
  cx_now :: int
  cx_uuid :: string

definition ctx_Subscribe :: "'v CmdContext \<Rightarrow> string \<Rightarrow> ('s, 'v) World \<Rightarrow> ('s, 'v) World" where
  "ctx_Subscribe cx topic w =
     (case mget (wd_clients w) (cx_ClientID cx) of
        None \<Rightarrow> w
      | Some c \<Rightarrow> (case Client_Subscribe topic c (wd_bus w) of
          (c', b) \<Rightarrow> w\<lparr>wd_clients := mput (cx_ClientID cx) c' (wd_clients w), wd_bus := b\<rparr>))"

definition ctx_Unsub :: "'v CmdContext \<Rightarrow> string \<Rightarrow> ('s, 'v) World \<Rightarrow> ('s, 'v) World" where
  "ctx_Unsub cx topic w =
     (case mget (wd_clients w) (cx_ClientID cx) of
        None \<Rightarrow> w
      | Some c \<Rightarrow> (case Client_Unsubscribe topic c (wd_bus w) of
          (c', b) \<Rightarrow> w\<lparr>wd_clients := mput (cx_ClientID cx) c' (wd_clients w), wd_bus := b\<rparr>))"

type_synonym ('s, 'v) Handler =
  "'v CmdContext \<Rightarrow> bytes \<Rightarrow> ('s, 'v) World \<Rightarrow> (goerror + marshaler) outcome \<times> ('s, 'v) World"

definition nil_deref :: string where
  "nil_deref = ''invalid memory address or nil pointer dereference''"

section \<open>Rooms\<close>

definition optionsMap :: "CreateOption list \<Rightarrow> (string, string) gomap" where
  "optionsMap options =
     (if length options = 0 then []
      else fold (\<lambda>x m. mput (co_Key x) (co_Value x) m) options mempty)"

definition request_config :: "CreateRoomRequest \<Rightarrow> RoomConfig" where
  "request_config req = \<lparr>rc_Name = crr_Name req, rc_Type = crr_Type req, rc_MaxPlayers = crr_MaxPlayers req,
     rc_SingletonMode = crr_SingletonMode req, rc_Options = optionsMap (crr_Options req), rc_EmptyGrace = 0\<rparr>"

definition createRoomHandler :: "'s \<Rightarrow> ('s, 'v) Handler" where
  "createRoomHandler zero cx payload w =
     (case Decode CreateRoomRequest_zero CreateRoomRequest_Unmarshal payload of
        Inl err \<Rightarrow> (Val (Inl (NewError 400 ''invalid payload'')), w)
      | Inr req \<Rightarrow>
          if crr_Type req = [] then (Val (Inl (NewError 400 ''type is required'')), w)
          else (case on_mgr (Manager_Create zero (cx_uuid cx) (request_config req)) w of
            (Panic e, w) \<Rightarrow> (Panic e, w)
          | (Val r, w) \<Rightarrow>
              (let i = rm_id (an_room r); w = ctx_Subscribe cx (''room:'' @ i) w in
               case cx_Session cx of
                 None \<Rightarrow> (Panic nil_deref, w)
               | Some sess \<Rightarrow>
                   (case on_mgr (Manager_JoinRoom (cx_now cx) (se_UserID sess) (cx_ClientID cx) i) w of
                      (Panic e, w) \<Rightarrow> (Panic e, w)
                    | (Val (Inl err), w) \<Rightarrow>
                        (case on_mgr (Manager_Remove i) (ctx_Unsub cx (''room:'' @ i) w) of
                           (Panic e, w) \<Rightarrow> (Panic e, w)
                         | (Val _, w) \<Rightarrow> (Val (Inl err), w))
                    | (Val (Inr info), w) \<Rightarrow> (Val (Inr (Some (RoomInfo_Marshal info))), w)))))"

definition joinRoomHandler :: "('s, 'v) Handler" where
  "joinRoomHandler cx payload w =
     (case Decode JoinRoomRequest_zero JoinRoomRequest_Unmarshal payload of
        Inl err \<Rightarrow> (Val (Inl (NewError 400 ''invalid payload'')), w)
      | Inr req \<Rightarrow>
          if jr_RoomID req = [] then (Val (Inl (NewError 400 ''roomId is required'')), w)
          else
            let w = ctx_Subscribe cx (''room:'' @ jr_RoomID req) w in
            (case cx_Session cx of
               None \<Rightarrow> (Panic nil_deref, w)
             | Some sess \<Rightarrow>
                 (case on_mgr (Manager_JoinRoom (cx_now cx) (se_UserID sess) (cx_ClientID cx) (jr_RoomID req)) w of
                    (Panic e, w) \<Rightarrow> (Panic e, w)
                  | (Val (Inl err), w) \<Rightarrow> (Val (Inl err), ctx_Unsub cx (''room:'' @ jr_RoomID req) w)
                  | (Val (Inr info), w) \<Rightarrow> (Val (Inr (Some (RoomInfo_Marshal info))), w))))"

definition leaveRoomHandler :: "('s, 'v) Handler" where
  "leaveRoomHandler cx payload w =
     (case Decode LeaveRoomRequest_zero LeaveRoomRequest_Unmarshal payload of
        Inl err \<Rightarrow> (Val (Inl (NewError 400 ''invalid payload'')), w)
      | Inr req \<Rightarrow>
          if lr_RoomID req = [] then (Val (Inl (NewError 400 ''roomId is required'')), w)
          else
            (case cx_Session cx of
               None \<Rightarrow> (Panic nil_deref, w)
             | Some sess \<Rightarrow>
                 (case on_mgr (Manager_LeaveRoom (se_UserID sess) (cx_ClientID cx) (lr_RoomID req)) w of
                    (Panic e, w) \<Rightarrow> (Panic e, w)
                  | (Val _, w) \<Rightarrow> (Val (Inr None), ctx_Unsub cx (''room:'' @ lr_RoomID req) w))))"

section \<open>The lobby\<close>

definition Lobby_List :: "'s Manager \<Rightarrow> RoomInfo list" where
  "Lobby_List m = Manager_List m"

definition lobbyListHandler :: "('s, 'v) Handler" where
  "lobbyListHandler cx payload w =
     (Val (Inr (Some (RoomList_Marshal \<lparr>rl_Rooms = Lobby_List (wd_mgr w)\<rparr>))), w)"

section \<open>Registration\<close>

definition RegisterRoomHandlers :: "'s \<Rightarrow> ('s, 'v) Handler Registry \<Rightarrow> ('s, 'v) Handler Registry outcome" where
  "RegisterRoomHandlers zero registry =
     bindO (Registry_Register MethodRoomCreate (createRoomHandler zero) registry) (\<lambda>r.
     bindO (Registry_Register MethodRoomJoin joinRoomHandler r)
       (Registry_Register MethodRoomLeave leaveRoomHandler))"

definition RegisterLobbyHandlers :: "('s, 'v) Handler Registry \<Rightarrow> ('s, 'v) Handler Registry outcome" where
  "RegisterLobbyHandlers registry = Registry_Register MethodLobbyList lobbyListHandler registry"

end
