(* ===== verification/Dispatcher.thy ===== *)
theory Dispatcher
  imports Handlers
begin

text \<open>
  \<^verbatim>\<open>gateway/dispatcher.go\<close>: routing of decoded client messages to authentication, subscriptions,
  global handlers and rooms, the mapping of errors to wire codes, and the clean-up of a connection.
  The authenticator is code of the application and so an argument: it gets the token, whether its
  context is cancelled, and a fresh ID to use. \<open>env\<close> is what the clock and the ID generator return during the message.
\<close>

record ('s, 'v) Dispatcher =
  dp_commands :: "('s, 'v) Handler Registry"
  dp_authenticator :: "string \<Rightarrow> bool \<Rightarrow> string \<Rightarrow> goerror + 'v Session"

text \<open>The bus, the sessions and the rooms a dispatcher refers to are those of the \<open>World\<close> its operations take.\<close>

definition NewDispatcher ::
  "('s, 'v) Handler Registry \<Rightarrow> (string \<Rightarrow> bool \<Rightarrow> string \<Rightarrow> goerror + 'v Session) \<Rightarrow> ('s, 'v) Dispatcher" where
  [simp]: "NewDispatcher commands authenticator = \<lparr>dp_commands = commands, dp_authenticator = authenticator\<rparr>"

record env =
  en_now :: int
  en_uuid :: string

text \<open>A method of the client with the given ID.\<close>

definition on_client ::
  "uint64 \<Rightarrow> ('v Client \<Rightarrow> 'v Client outcome) \<Rightarrow> ('s, 'v) World \<Rightarrow> unit outcome \<times> ('s, 'v) World" where
  "on_client i f w =
     (case mget (wd_clients w) i of
        None \<Rightarrow> (Val (), w)
      | Some c \<Rightarrow>
          (case f c of
             Val c' \<Rightarrow> (Val (), w\<lparr>wd_clients := mput i c' (wd_clients w)\<rparr>)
           | Panic e \<Rightarrow> (Panic e, w)))"

section \<open>Error codes\<close>

text \<open>\<open>errors.As\<close> for \<open>*protocol.Error\<close>, and \<open>errors.Is\<close>: both follow the chain of wrapped errors.\<close>

fun as_Error :: "goerror \<Rightarrow> int option" where
  "as_Error (ProtocolError code message) = Some code"
| "as_Error (WrapError prefix e) = as_Error e"
| "as_Error _ = None"

fun err_is :: "goerror \<Rightarrow> goerror \<Rightarrow> bool" where
  "err_is (WrapError prefix e) target \<longleftrightarrow> WrapError prefix e = target \<or> err_is e target"
| "err_is e target \<longleftrightarrow> e = target"

definition errorCode :: "goerror \<Rightarrow> int" where
  "errorCode err =
     (case as_Error err of
        Some code \<Rightarrow> code
      | None \<Rightarrow>
          if err_is err ErrRoomNotFound then 404
          else if err_is err ErrRoomFull \<or> err_is err ErrAlreadyInRoomOfType then 409
          else if err_is err ErrRoomClosed then 410
          else if err_is err ErrNotInRoom \<or> err_is err ErrAmbiguousRoom then 400
          else 500)"

section \<open>Dispatching\<close>

definition handleAuth ::
  "('s, 'v) Dispatcher \<Rightarrow> env \<Rightarrow> 'v Client \<Rightarrow> ClientMessage \<Rightarrow> ('s, 'v) World \<Rightarrow> unit outcome \<times> ('s, 'v) World" where
  "handleAuth d env c msg w =
     (if IsAuthenticated c then on_client (cl_id c) (SendError (cm_ID msg) ''already authenticated'' 400) w
      else case dp_authenticator d (en_uuid env) (cl_done c) (cm_Token msg) of
        Inl err \<Rightarrow>
          on_client (cl_id c) (\<lambda>c. bindO (SendError (cm_ID msg) (error_text err) 401 c) (\<lambda>c. Val (Client_Close c))) w
      | Inr sess \<Rightarrow>
          (let w = snd (on_client (cl_id c) (\<lambda>c. Val (SetSession sess c)) w);
               w = w\<lparr>wd_sessions := Store_Set sess (wd_sessions w)\<rparr>
           in on_client (cl_id c) (SendResponse (cm_ID msg)
                (Some (AuthResult_Marshal \<lparr>ar_SessionID = se_ID sess, ar_UserID = se_UserID sess\<rparr>))) w))"

definition respond :: "uint64 \<Rightarrow> uint32 \<Rightarrow> goerror + marshaler \<Rightarrow> ('s, 'v) World \<Rightarrow> unit outcome \<times> ('s, 'v) World" where
  "respond ci i res w =
     (case res of
        Inl err \<Rightarrow> on_client ci (SendError i (error_text err) (errorCode err)) w
      | Inr result \<Rightarrow> on_client ci (SendResponse i result) w)"

definition handleRequest ::
  "('s, 'v) Dispatcher \<Rightarrow> env \<Rightarrow> 'v Client \<Rightarrow> ClientMessage \<Rightarrow> ('s, 'v) World \<Rightarrow> unit outcome \<times> ('s, 'v) World" where
  "handleRequest d env c msg w =
     (case Registry_Get (dp_commands d) (cm_Op msg) of
        Some handler \<Rightarrow>
          (case handler \<lparr>cx_Session = cl_session c, cx_ClientID = cl_id c, cx_cancelled = cl_done c,
                         cx_now = en_now env, cx_uuid = en_uuid env\<rparr> (cm_Payload msg) w of
             (Panic e, w) \<Rightarrow> (Panic e, w)
           | (Val res, w) \<Rightarrow> respond (cl_id c) (cm_ID msg) res w)
      | None \<Rightarrow>
          (case on_mgr (DispatchRoomMessage (cl_done c) (cl_id c) (cm_Op msg) (cm_Payload msg) (RoomIDs c)) w of
             (None, w) \<Rightarrow> on_client (cl_id c) (SendError (cm_ID msg) ''method not found'' 404) w
           | (Some res, w) \<Rightarrow> respond (cl_id c) (cm_ID msg) res w))"

definition client_ctx :: "'v Client \<Rightarrow> 'v CmdContext" where
  "client_ctx c = \<lparr>cx_Session = cl_session c, cx_ClientID = cl_id c, cx_cancelled = cl_done c, cx_now = 0, cx_uuid = []\<rparr>"

definition Dispatch ::
  "('s, 'v) Dispatcher \<Rightarrow> env \<Rightarrow> 'v Client \<Rightarrow> ClientMessage \<Rightarrow> ('s, 'v) World \<Rightarrow> unit outcome \<times> ('s, 'v) World" where
  "Dispatch d env c msg w =
     (if cm_Type msg = MessageAuth then handleAuth d env c msg w
      else if cm_Type msg = MessageSubscribe then (Val (), ctx_Subscribe (client_ctx c) (cm_Channel msg) w)
      else if cm_Type msg = MessageUnsubscribe then (Val (), ctx_Unsub (client_ctx c) (cm_Channel msg) w)
      else if cm_Type msg = MessageRequest then handleRequest d env c msg w
      else on_client (cl_id c) (SendError (cm_ID msg) ''unknown message type'' 400) w)"

section \<open>Disconnecting\<close>

text \<open>A panic of \<open>LeaveRoom\<close> would end the loop; it cannot happen, as \<open>PlayerLeft\<close> always encodes.\<close>

fun leave_rooms :: "string \<Rightarrow> uint64 \<Rightarrow> string list \<Rightarrow> ('s, 'v) World \<Rightarrow> unit outcome \<times> ('s, 'v) World" where
  "leave_rooms userID ci [] w = (Val (), w)"
| "leave_rooms userID ci (rid # rids) w =
     (case on_mgr (Manager_LeaveRoom userID ci rid) w of
        (Panic e, w) \<Rightarrow> (Panic e, w)
      | (Val _, w) \<Rightarrow> leave_rooms userID ci rids w)"

definition OnDisconnect :: "'v Client \<Rightarrow> ('s, 'v) World \<Rightarrow> unit outcome \<times> ('s, 'v) World" where
  "OnDisconnect c w =
     (let topics = mkeys (cl_topics c) in
      case (case cl_session c of
              None \<Rightarrow> (Val (), w)
            | Some sess \<Rightarrow> leave_rooms (se_UserID sess) (cl_id c) (RoomIDs c) w) of
        (Panic e, w) \<Rightarrow> (Panic e, w)
      | (Val _, w) \<Rightarrow>
          (let w = fold (ctx_Unsub (client_ctx c)) topics w in
           (Val (), case cl_session c of
                      None \<Rightarrow> w
                    | Some sess \<Rightarrow> w\<lparr>wd_sessions := Store_Delete (se_ID sess) (wd_sessions w)\<rparr>)))"

end
