(* ===== verification/Gateway.thy ===== *)
theory Gateway
  imports Dispatcher
begin

text \<open>
  \<^verbatim>\<open>gateway/gateway.go\<close>: the connections of the server, their loops, and the shutdown. A step of the
  server is one iteration of one loop of one connection, a new connection, the end of a read loop, a
  pending removal of a room, or a tick or timer of a room; any of them may come next.
  \<open>gw_reading\<close> are the connections whose read loop has not ended. A message is dispatched in one step: the model does not split a handler into the
  calls it makes, whose own interleavings are studied per room in \<^verbatim>\<open>Room_Steps\<close>, per topic in
  \<^verbatim>\<open>Event_Bus_Race\<close> and for the manager in \<^verbatim>\<open>Manager_Race\<close>. The HTTP server and the upgrade of a request to a WebSocket are outside: a
  \<open>connect\<close> step is a successful upgrade.
\<close>

section \<open>The gateway\<close>

record ('s, 'v) Gateway =
  gw_world :: "('s, 'v) World"
  gw_clients :: "(uint64, unit) gomap"
  gw_reading :: "(uint64, unit) gomap"
  gw_tuning :: tuning
  gw_dispatcher :: "('s, 'v) Dispatcher"
  gw_nextClientID :: uint64

definition register :: "'v Client \<Rightarrow> ('s, 'v) Gateway \<Rightarrow> ('s, 'v) Gateway" where
  "register c g = g\<lparr>gw_clients := mput (cl_id c) () (gw_clients g)\<rparr>"

definition unregister :: "'v Client \<Rightarrow> ('s, 'v) Gateway \<Rightarrow> ('s, 'v) Gateway" where
  "unregister c g = g\<lparr>gw_clients := mdel (cl_id c) (gw_clients g)\<rparr>"

text \<open>\<open>handleWebSocket\<close> after the upgrade: the new client is known to the bus and to the gateway.\<close>

definition handleWebSocket :: "bool \<Rightarrow> ('s, 'v) Gateway \<Rightarrow> ('s, 'v) Gateway" where
  "handleWebSocket pick g =
     (let i = gw_nextClientID g + 1; w = gw_world g in
      case NewClient i pick (gw_tuning g) (wd_bus w) of (client, bus) \<Rightarrow>
        let g = g\<lparr>gw_nextClientID := i,
                  gw_world := w\<lparr>wd_bus := bus, wd_clients := mput i client (wd_clients w)\<rparr>\<rparr>;
            g = register client g
        in g\<lparr>gw_reading := mput i () (gw_reading g)\<rparr>)"

text \<open>The end of a read loop: the deferred \<open>Close\<close> and \<open>OnDisconnect\<close>, then \<open>unregister\<close>.\<close>

definition end_ReadLoop :: "uint64 \<Rightarrow> ('s, 'v) Gateway \<Rightarrow> unit outcome \<times> ('s, 'v) Gateway" where
  "end_ReadLoop i g =
     (case mget (wd_clients (gw_world g)) i of
        None \<Rightarrow> (Val (), g)
      | Some c \<Rightarrow>
          (let c = Client_Close c; w = gw_world g;
               w = w\<lparr>wd_clients := mput i c (wd_clients w)\<rparr>
           in case OnDisconnect c w of
                (Panic e, w) \<Rightarrow> (Panic e, g\<lparr>gw_world := w\<rparr>)
              | (Val _, w) \<Rightarrow>
                  (Val (), unregister c (g\<lparr>gw_world := w, gw_reading := mdel i (gw_reading g)\<rparr>))))"

text \<open>
  \<open>g.wg.Wait()\<close>: it returns once every read loop has ended, and \<open>None\<close> says that it never does. The server
  ends a read loop by closing its connection only (the read loop of a closed connection ends, as
  \<^verbatim>\<open>Connection_Theorems\<close> shows); the loop of a connection that is still open waits for its peer. \<open>order\<close> is
  the order in which the loops end.
\<close>

fun wg_Wait :: "uint64 list \<Rightarrow> ('s, 'v) Gateway \<Rightarrow> (unit outcome \<times> ('s, 'v) Gateway) option" where
  "wg_Wait [] g = (if gw_reading g = mempty then Some (Val (), g) else None)"
| "wg_Wait (i # order) g =
     (case mget (wd_clients (gw_world g)) i of
        None \<Rightarrow> None
      | Some c \<Rightarrow>
          if mhas (gw_reading g) i \<and> cl_done c
          then (case end_ReadLoop i g of (Panic e, g) \<Rightarrow> Some (Panic e, g) | (Val _, g) \<Rightarrow> wg_Wait order g)
          else None)"

definition close_client :: "uint64 \<Rightarrow> ('s, 'v) World \<Rightarrow> ('s, 'v) World" where
  "close_client i w =
     (case mget (wd_clients w) i of
        None \<Rightarrow> w | Some c \<Rightarrow> w\<lparr>wd_clients := mput i (Client_Close c) (wd_clients w)\<rparr>)"

text \<open>
  \<open>shutdown\<close>: every registered connection is closed, the read loops end in some order, and the rooms are
  shut down last; \<open>None\<close> if the wait for the read loops never ends.
\<close>

definition shutdown :: "uint64 list \<Rightarrow> ('s, 'v) Gateway \<Rightarrow> (unit outcome \<times> ('s, 'v) Gateway) option" where
  "shutdown order g =
     (let clients = mkeys (gw_clients g);
          g = g\<lparr>gw_clients := mempty, gw_world := fold close_client clients (gw_world g)\<rparr>
      in case wg_Wait order g of
           None \<Rightarrow> None
         | Some (Panic e, g) \<Rightarrow> Some (Panic e, g)
         | Some (Val _, g) \<Rightarrow>
             (case Manager_ShutdownAll (wd_mgr (gw_world g)) of (m, es) \<Rightarrow>
                Some (Val (), g\<lparr>gw_world := run_effs es ((gw_world g)\<lparr>wd_mgr := m\<rparr>)\<rparr>)))"

text \<open>
  \<open>Run\<close> once the server is to stop: because its context is cancelled, or because the listener failed with
  an error. It shuts the gateway down in either case and returns the error if there was one.
\<close>

datatype 'e run_end = Cancelled | Died 'e

definition Gateway_Run ::
  "uint64 list \<Rightarrow> 'e run_end \<Rightarrow> ('s, 'v) Gateway \<Rightarrow> ('e option outcome \<times> ('s, 'v) Gateway) option" where
  "Gateway_Run order ended g =
     (case shutdown order g of
        None \<Rightarrow> None
      | Some (Panic e, g) \<Rightarrow> Some (Panic e, g)
      | Some (Val _, g) \<Rightarrow> Some (Val (case ended of Cancelled \<Rightarrow> None | Died err \<Rightarrow> Some err), g))"

section \<open>Steps\<close>

definition set_client :: "uint64 \<Rightarrow> 'v Client \<Rightarrow> ('s, 'v) World \<Rightarrow> ('s, 'v) World" where
  "set_client i c w = w\<lparr>wd_clients := mput i c (wd_clients w)\<rparr>"

text \<open>
  What a room does on its own: a tick of its game loop, the expiry of its grace timer, and the check
  the expired timer submits. A check submitted to a room that is gone does nothing.
\<close>

definition room_ticks :: "duration \<Rightarrow> 's AnyRoom \<Rightarrow> 's AnyRoom \<times> eff list" where
  "room_ticks dt r =
     (if rm_done (an_room r) \<or> \<not> has_ticker (an_module r) then (r, [])
      else case tick_step (an_module r) dt (an_room r) of (r', es) \<Rightarrow> (r\<lparr>an_room := r'\<rparr>, es))"

definition room_expires :: "'s AnyRoom \<Rightarrow> 's AnyRoom" where
  "room_expires r = r\<lparr>an_room := (an_room r)\<lparr>rm_emptyTimer := Some Fired\<rparr>\<rparr>"

definition room_checks :: "'s AnyRoom \<Rightarrow> 's AnyRoom \<times> eff list" where
  "room_checks r =
     (if rm_done (an_room r) then (r, [])
      else case timer_check (an_room r) of (r', es) \<Rightarrow> (r\<lparr>an_room := r'\<rparr>, es))"

definition on_room :: "string \<Rightarrow> ('s AnyRoom \<Rightarrow> 's AnyRoom \<times> eff list) \<Rightarrow> 's Manager \<Rightarrow> unit \<times> 's Manager \<times> eff list" where
  "on_room i f m =
     (case mget (mg_rooms m) i of
        None \<Rightarrow> ((), m, [])
      | Some r \<Rightarrow> (case f r of (r', es) \<Rightarrow> ((), set_room i r' m, es)))"

inductive srv_step :: "('s, 'v) Gateway \<Rightarrow> ('s, 'v) Gateway \<Rightarrow> bool" where
  connect: "\<not> mhas (wd_clients (gw_world g)) (gw_nextClientID g + 1) \<Longrightarrow> srv_step g (handleWebSocket pick g)"
| read: "\<lbrakk>mhas (gw_reading g) i; mget (wd_clients (gw_world g)) i = Some c; read_step frame c = Continue c'\<rbrakk>
    \<Longrightarrow> srv_step g (g\<lparr>gw_world := set_client i c' (gw_world g)\<rparr>)"
| handle: "\<lbrakk>mget (wd_clients (gw_world g)) i = Some c; handle_next c = Some (msg, c');
      Dispatch (gw_dispatcher g) env c' msg (set_client i c' (gw_world g)) = (Val (), w)\<rbrakk>
    \<Longrightarrow> srv_step g (g\<lparr>gw_world := w\<rparr>)"
| handle_panic: "\<lbrakk>mget (wd_clients (gw_world g)) i = Some c; handle_next c = Some (msg, c');
      Dispatch (gw_dispatcher g) env c' msg (set_client i c' (gw_world g)) = (Panic e, w)\<rbrakk>
    \<Longrightarrow> srv_step g (g\<lparr>gw_world := w\<lparr>wd_crashed := True\<rparr>\<rparr>)"
| choose: "mget (wd_clients (gw_world g)) i = Some c
    \<Longrightarrow> srv_step g (g\<lparr>gw_world := set_client i (c\<lparr>cl_pick := p\<rparr>) (gw_world g)\<rparr>)"
| flush: "\<lbrakk>mget (wd_clients (gw_world g)) i = Some c; write_next c = Some (data, c')\<rbrakk>
    \<Longrightarrow> srv_step g (g\<lparr>gw_world := set_client i c' (gw_world g)\<rparr>)"
| finish: "\<lbrakk>mhas (gw_reading g) i; end_ReadLoop i g = (Val (), g')\<rbrakk> \<Longrightarrow> srv_step g g'"
| remove: "\<lbrakk>wd_pending (gw_world g) = is @ i # js;
      on_mgr (Manager_Remove i) ((gw_world g)\<lparr>wd_pending := is @ js\<rparr>) = (Val (), w)\<rbrakk>
    \<Longrightarrow> srv_step g (g\<lparr>gw_world := w\<rparr>)"
| tick: "on_mgr (on_room i (room_ticks dt)) (gw_world g) = ((), w) \<Longrightarrow> srv_step g (g\<lparr>gw_world := w\<rparr>)"
| expire: "\<lbrakk>mget (mg_rooms (wd_mgr (gw_world g))) i = Some r; rm_emptyTimer (an_room r) = Some Armed;
      on_mgr (on_room i (\<lambda>r. (room_expires r, []))) ((gw_world g)\<lparr>wd_fired := i # wd_fired (gw_world g)\<rparr>) = ((), w)\<rbrakk>
    \<Longrightarrow> srv_step g (g\<lparr>gw_world := w\<rparr>)"
| check: "\<lbrakk>wd_fired (gw_world g) = is @ i # js;
      on_mgr (on_room i room_checks) ((gw_world g)\<lparr>wd_fired := is @ js\<rparr>) = ((), w)\<rbrakk>
    \<Longrightarrow> srv_step g (g\<lparr>gw_world := w\<rparr>)"

text \<open>
  \<open>choose\<close> re-draws the choice of a connection's \<open>select\<close>; the guard of \<open>connect\<close> says that the 64-bit
  counter of connections has not wrapped around to one still known. After a panic that nobody recovers the
  process is gone.
\<close>

inductive srv_reach :: "('s, 'v) Gateway \<Rightarrow> ('s, 'v) Gateway \<Rightarrow> bool" for g0 where
  start: "srv_reach g0 g0"
| more: "\<lbrakk>srv_reach g0 g; \<not> wd_crashed (gw_world g); srv_step g g'\<rbrakk> \<Longrightarrow> srv_reach g0 g'"

inductive_cases srv_stepE: "srv_step g g'"

text \<open>A server without connections.\<close>

definition Gateway_New :: "tuning \<Rightarrow> ('s, 'v) Dispatcher \<Rightarrow> 's Manager \<Rightarrow> ('s, 'v) Gateway" where
  "Gateway_New t d m =
     \<lparr>gw_world = \<lparr>wd_bus = EventBus_New, wd_clients = mempty, wd_sessions = NewStore, wd_mgr = m,
                  wd_pending = [], wd_fired = [], wd_crashed = False\<rparr>,
      gw_clients = mempty, gw_reading = mempty, gw_tuning = t, gw_dispatcher = d, gw_nextClientID = 0\<rparr>"

end
