(* ===== verification/App.thy ===== *)
theory App
  imports Gateway
begin

text \<open>
  The facade of the package: \<^verbatim>\<open>app.go\<close>, \<^verbatim>\<open>handle.go\<close>, \<^verbatim>\<open>room.go\<close> and \<^verbatim>\<open>devauth.go\<close>. The application
  owns one gateway; its bus, sessions, rooms and commands are those of the gateway's server.
\<close>

section \<open>DevAuth\<close>

text \<open>\<open>uuid\<close> is what \<open>uuid.New()\<close> returns.\<close>

definition DevAuth :: "string \<Rightarrow> bool \<Rightarrow> string \<Rightarrow> goerror + 'v Session" where
  "DevAuth uuid ctx token =
     (if token = [] then Inl (OtherError ''token required'') else Inr (Session_New uuid token))"

section \<open>Building an application\<close>

record ('s, 'v) Config =
  cf_Authenticator :: "(string \<Rightarrow> bool \<Rightarrow> string \<Rightarrow> goerror + 'v Session) option"
  cf_DisableDefaultHandlers :: bool
  cf_tuning :: GwConfig
  cf_Engine :: bool \<comment> \<open>an engine is given\<close>

record ('s, 'v) App =
  ap_gateway :: "('s, 'v) Gateway"

definition App_New :: "'s \<Rightarrow> ('s, 'v) Config \<Rightarrow> ('s, 'v) App outcome" where
  "App_New zero cfg =
     bindO (if cf_DisableDefaultHandlers cfg then Val NewRegistry
            else bindO (RegisterRoomHandlers zero NewRegistry) RegisterLobbyHandlers) (\<lambda>commands.
       let auth = (case cf_Authenticator cfg of None \<Rightarrow> DevAuth | Some a \<Rightarrow> a) in
       if \<not> cf_Engine cfg
       then Panic (''partyx/gateway: Config.Engine is required '' @ [CHR 0xE2, CHR 0x80, CHR 0x94] @
                   '' the consumer owns the gin engine'')
       else Val \<lparr>ap_gateway = Gateway_New (newTuning (cf_tuning cfg))
                  (NewDispatcher commands auth) NewManager\<rparr>)"

definition App_Rooms :: "('s, 'v) App \<Rightarrow> 's Manager" where
  "App_Rooms a = wd_mgr (gw_world (ap_gateway a))"

definition App_Commands :: "('s, 'v) App \<Rightarrow> ('s, 'v) Handler Registry" where
  "App_Commands a = dp_commands (gw_dispatcher (ap_gateway a))"

definition set_rooms :: "'s Manager \<Rightarrow> ('s, 'v) App \<Rightarrow> ('s, 'v) App" where
  "set_rooms m a = a\<lparr>ap_gateway := (ap_gateway a)\<lparr>gw_world := (gw_world (ap_gateway a))\<lparr>wd_mgr := m\<rparr>\<rparr>\<rparr>"

definition set_commands :: "('s, 'v) Handler Registry \<Rightarrow> ('s, 'v) App \<Rightarrow> ('s, 'v) App" where
  "set_commands r a = a\<lparr>ap_gateway := (ap_gateway a)\<lparr>gw_dispatcher :=
     (gw_dispatcher (ap_gateway a))\<lparr>dp_commands := r\<rparr>\<rparr>\<rparr>"

section \<open>Registration\<close>

definition HandleRaw :: "uint16 \<Rightarrow> ('s, 'v) Handler \<Rightarrow> ('s, 'v) App \<Rightarrow> ('s, 'v) App outcome" where
  "HandleRaw op fn app =
     (if OpType op (App_Rooms app) \<noteq> None
      then Panic (''partyx: opcode '' @ format_nat (unat op) @ '' is already claimed by a registered room type'')
      else bindO (Registry_Register op fn (App_Commands app)) (\<lambda>r. Val (set_commands r app)))"

text \<open>
  A typed global handler. What \<open>fn\<close> does to the server is a function of it, applied only when \<open>fn\<close> runs.
\<close>

definition App_Handle ::
  "'req \<Rightarrow> ('req \<Rightarrow> bytes \<Rightarrow> string + ('req \<times> nat)) \<Rightarrow> ('req \<Rightarrow> goerror option) option \<Rightarrow>
   ('resp \<Rightarrow> bytes \<Rightarrow> bytes outcome) \<Rightarrow> uint16 \<Rightarrow>
   ('v CmdContext \<Rightarrow> ('s, 'v) World \<Rightarrow> 'req \<Rightarrow> (('s, 'v) World \<Rightarrow> ('s, 'v) World) list \<times> (goerror + 'resp option)) \<Rightarrow>
   ('s, 'v) App \<Rightarrow> ('s, 'v) App outcome" where
  "App_Handle zero unmarshal validate marshal op fn app =
     HandleRaw op (\<lambda>cx payload w.
       case Call zero unmarshal validate marshal payload (fn cx w) of
         (acts, res) \<Rightarrow> (Val res, fold (\<lambda>f w. f w) acts w)) app"

fun first_global :: "uint16 list \<Rightarrow> ('s, 'v) Handler Registry \<Rightarrow> uint16 option" where
  "first_global [] r = None"
| "first_global (op # ops) r = (if Registry_Has r op then Some op else first_global ops r)"

definition RegisterRoomType :: "'s Module \<Rightarrow> ('s, 'v) App \<Rightarrow> unit outcome \<times> ('s, 'v) App" where
  "RegisterRoomType m app =
     (case first_global (Module_Ops m) (App_Commands app) of
        Some op \<Rightarrow>
          (Panic (''partyx: opcode '' @ format_nat (unat op) @ '' is already registered as a global method''), app)
      | None \<Rightarrow> (case RegisterModule m (App_Rooms app) of (res, mgr) \<Rightarrow> (res, set_rooms mgr app)))"

section \<open>The fluent builder\<close>

record 's RoomBuilder =
  rb_module :: "'s Module"

definition Room_builder :: "'s \<Rightarrow> string \<Rightarrow> 's RoomBuilder" where
  "Room_builder zero ty = \<lparr>rb_module = NewModule zero ty\<rparr>"

definition RoomBuilder_State :: "'s option option \<Rightarrow> 's RoomBuilder \<Rightarrow> 's RoomBuilder" where
  "RoomBuilder_State fn b = b\<lparr>rb_module := Module_State fn (rb_module b)\<rparr>"

definition RoomBuilder_MaxPlayers :: "uint16 \<Rightarrow> 's RoomBuilder \<Rightarrow> 's RoomBuilder" where
  "RoomBuilder_MaxPlayers n b = b\<lparr>rb_module := Module_MaxPlayers n (rb_module b)\<rparr>"

definition RoomBuilder_Singleton :: "uint8 \<Rightarrow> 's RoomBuilder \<Rightarrow> 's RoomBuilder" where
  "RoomBuilder_Singleton mode b = b\<lparr>rb_module := Module_Singleton mode (rb_module b)\<rparr>"

definition RoomBuilder_EmptyGrace :: "duration \<Rightarrow> 's RoomBuilder \<Rightarrow> 's RoomBuilder" where
  "RoomBuilder_EmptyGrace d b = b\<lparr>rb_module := Module_EmptyGrace d (rb_module b)\<rparr>"

definition RoomBuilder_OnInit :: "'s hook option \<Rightarrow> 's RoomBuilder \<Rightarrow> 's RoomBuilder" where
  "RoomBuilder_OnInit fn b = b\<lparr>rb_module := Module_OnInit fn (rb_module b)\<rparr>"

definition RoomBuilder_OnJoin :: "'s player_hook option \<Rightarrow> 's RoomBuilder \<Rightarrow> 's RoomBuilder" where
  "RoomBuilder_OnJoin fn b = b\<lparr>rb_module := Module_OnJoin fn (rb_module b)\<rparr>"

definition RoomBuilder_OnLeave :: "'s player_hook option \<Rightarrow> 's RoomBuilder \<Rightarrow> 's RoomBuilder" where
  "RoomBuilder_OnLeave fn b = b\<lparr>rb_module := Module_OnLeave fn (rb_module b)\<rparr>"

definition RoomBuilder_OnClose :: "'s hook option \<Rightarrow> 's RoomBuilder \<Rightarrow> 's RoomBuilder" where
  "RoomBuilder_OnClose fn b = b\<lparr>rb_module := Module_OnClose fn (rb_module b)\<rparr>"

definition RoomBuilder_Tick ::
  "duration \<Rightarrow> ('s Room \<Rightarrow> duration \<Rightarrow> 's act list) option \<Rightarrow> 's RoomBuilder \<Rightarrow> 's RoomBuilder" where
  "RoomBuilder_Tick rate fn b = b\<lparr>rb_module := Module_Tick rate fn (rb_module b)\<rparr>"

definition RoomBuilder_HandleRaw :: "uint16 \<Rightarrow> 's MessageHandler \<Rightarrow> 's RoomBuilder \<Rightarrow> 's RoomBuilder outcome" where
  "RoomBuilder_HandleRaw op h b = bindO (Module_HandleRaw op h (rb_module b)) (\<lambda>m. Val (b\<lparr>rb_module := m\<rparr>))"

definition RoomBuilder_Handle ::
  "'req \<Rightarrow> ('req \<Rightarrow> bytes \<Rightarrow> string + ('req \<times> nat)) \<Rightarrow> ('req \<Rightarrow> goerror option) option \<Rightarrow>
   ('resp \<Rightarrow> bytes \<Rightarrow> bytes outcome) \<Rightarrow> uint16 \<Rightarrow>
   (bool \<Rightarrow> 's Room \<Rightarrow> Player \<Rightarrow> 'req \<Rightarrow> 's act list \<times> (goerror + 'resp option)) \<Rightarrow>
   's RoomBuilder \<Rightarrow> 's RoomBuilder outcome" where
  "RoomBuilder_Handle zero unmarshal validate marshal op fn b =
     bindO (Module_Handle zero unmarshal validate marshal op fn (rb_module b)) (\<lambda>m. Val (b\<lparr>rb_module := m\<rparr>))"

definition RoomBuilder_Register :: "('s, 'v) App \<Rightarrow> 's RoomBuilder \<Rightarrow> unit outcome \<times> ('s, 'v) App" where
  "RoomBuilder_Register app b = RegisterRoomType (rb_module b) app"

end
