(* ===== verification/Gateway_Props.thy ===== *)
theory Gateway_Props
  imports App Manager_Live
begin

text \<open>
  The invariant of the running server: the bus and the clients agree on who is subscribed to what, a
  connection that has not logged in has nothing but its personal topic, and whoever is in a room is
  logged in. It is kept by every step of the server whose registered handlers keep it, and the
  built-in handlers do.
\<close>

section \<open>Clients that differ only in their queues\<close>

definition clients_rel :: "(uint64, 'v Client) gomap \<Rightarrow> (uint64, 'v Client) gomap \<Rightarrow> bool" where
  "clients_rel cs cs' \<longleftrightarrow> (\<forall>i. rel_option same_subs (mget cs i) (mget cs' i)) \<and> (mwf cs \<longrightarrow> mwf cs')"

lemma same_subs_trans: "same_subs a b \<Longrightarrow> same_subs b c \<Longrightarrow> same_subs a c"
  by (auto simp: same_subs_def intro: grown_trans)

lemma clients_rel_refl [simp]: "clients_rel cs cs"
  by (simp add: clients_rel_def option.rel_refl)

lemma clients_rel_trans: "clients_rel a b \<Longrightarrow> clients_rel b c \<Longrightarrow> clients_rel a c"
proof -
  assume ab: "clients_rel a b" and bc: "clients_rel b c"
  have "rel_option same_subs (mget a i) (mget c i)" for i
  proof -
    have "rel_option same_subs (mget a i) (mget b i)" "rel_option same_subs (mget b i) (mget c i)"
      using ab bc by (simp_all add: clients_rel_def)
    then show ?thesis
      by (cases "mget b i") (auto simp: option_rel_Some1 option_rel_Some2 intro: same_subs_trans)
  qed
  with ab bc show ?thesis by (simp add: clients_rel_def)
qed

lemma clients_rel_put:
  "mget cs i = Some c \<Longrightarrow> same_subs c c' \<Longrightarrow> clients_rel cs (mput i c' cs)"
  by (auto simp: clients_rel_def option.rel_refl)

lemma world_send_rel: "clients_rel cs (fst (world_send sub topic ev cs))"
  by (auto simp: world_send_def split: option.splits outcome.splits
      intro: clients_rel_put sends_subs(1))

lemma fold_rel: "(\<And>x cs. clients_rel cs (f x cs)) \<Longrightarrow> clients_rel cs (fold f xs cs)"
  by (induction xs arbitrary: cs) (auto intro: clients_rel_trans)

lemma Publish_rel: "clients_rel cs (Publish world_send topic ev b cs)"
  unfolding Publish_eq by (rule fold_rel) (rule world_send_rel)

lemma run_eff_frame:
  "wd_bus (run_eff e w) = wd_bus w" "wd_sessions (run_eff e w) = wd_sessions w"
  "wd_mgr (run_eff e w) = wd_mgr w" "clients_rel (wd_clients w) (wd_clients (run_eff e w))"
  by (cases e; simp add: Publish_rel)+

lemma run_effs_frame:
  "wd_bus (run_effs es w) = wd_bus w" "wd_sessions (run_effs es w) = wd_sessions w"
  "wd_mgr (run_effs es w) = wd_mgr w" "clients_rel (wd_clients w) (wd_clients (run_effs es w))"
proof -
  have "wd_bus (fold run_eff es w) = wd_bus w \<and> wd_sessions (fold run_eff es w) = wd_sessions w \<and>
    wd_mgr (fold run_eff es w) = wd_mgr w \<and> clients_rel (wd_clients w) (wd_clients (fold run_eff es w))"
  proof (induction es arbitrary: w)
    case (Cons e es)
    from Cons.IH [of "run_eff e w"] clients_rel_trans [OF run_eff_frame(4) [of w e]] show ?case
      by (simp add: run_eff_frame)
  qed simp
  then show "wd_bus (run_effs es w) = wd_bus w" "wd_sessions (run_effs es w) = wd_sessions w"
    "wd_mgr (run_effs es w) = wd_mgr w" "clients_rel (wd_clients w) (wd_clients (run_effs es w))"
    by (auto simp: run_effs_def)
qed

section \<open>The invariant\<close>

definition logged_in :: "('s, 'v) World \<Rightarrow> uint64 \<Rightarrow> bool" where
  "logged_in w i \<longleftrightarrow> (\<exists>c. mget (wd_clients w) i = Some c \<and> cl_authenticated c)"

definition client_ok :: "uint64 \<Rightarrow> 'v Client \<Rightarrow> bool" where
  "client_ok i c \<longleftrightarrow> cl_id c = i \<and> mwf (cl_topics c) \<and> queue_ok c \<and> (cl_authenticated c \<longleftrightarrow> cl_session c \<noteq> None) \<and>
     (\<not> cl_authenticated c \<longrightarrow> cl_roomIDs c = [] \<and> (\<forall>t. mhas (cl_topics c) t \<longrightarrow> t = clientTopic i) \<and>
        (\<forall>m\<in>set (cl_handles c). cm_Type m = MessageAuth))"

definition topic_held :: "(uint64, 'v Client) gomap \<Rightarrow> uint64 \<Rightarrow> string \<Rightarrow> bool" where
  "topic_held cs i t \<longleftrightarrow> (\<exists>c. mget cs i = Some c \<and> mhas (cl_topics c) t)"

definition srv_inv :: "('s, 'v) World \<Rightarrow> bool" where
  "srv_inv w \<longleftrightarrow> bus_wf (wd_bus w) \<and> mwf (wd_clients w) \<and>
     (\<forall>i c. mget (wd_clients w) i = Some c \<longrightarrow> client_ok i c) \<and>
     (\<forall>i t. i \<in> bus_view (wd_bus w) t \<longleftrightarrow> topic_held (wd_clients w) i t) \<and>
     (\<forall>j i. at_room (wd_mgr w) j i \<longrightarrow> logged_in w i) \<and> live (wd_mgr w)"

lemma srv_invD:
  assumes "srv_inv w"
  shows "bus_wf (wd_bus w)" "mwf (wd_clients w)" "mget (wd_clients w) i = Some c \<Longrightarrow> client_ok i c"
    "i \<in> bus_view (wd_bus w) t \<longleftrightarrow> topic_held (wd_clients w) i t"
    "at_room (wd_mgr w) j i \<Longrightarrow> logged_in w i" "live (wd_mgr w)"
  using assms unfolding srv_inv_def by blast+

lemma client_ok_subs: "client_ok i c \<Longrightarrow> same_subs c c' \<Longrightarrow> client_ok i c'"
  by (auto simp: client_ok_def same_subs_def)

lemma clients_relD:
  assumes "clients_rel cs cs'"
  shows "mget cs i = None \<longleftrightarrow> mget cs' i = None"
    "mget cs' i = Some c' \<Longrightarrow> \<exists>c. mget cs i = Some c \<and> same_subs c c'"
    "mget cs i = Some c \<Longrightarrow> \<exists>c'. mget cs' i = Some c' \<and> same_subs c c'"
proof -
  have r: "rel_option same_subs (mget cs i) (mget cs' i)" using assms by (simp add: clients_rel_def)
  then show "mget cs i = None \<longleftrightarrow> mget cs' i = None" by (cases "mget cs i"; cases "mget cs' i") auto
  show "mget cs' i = Some c' \<Longrightarrow> \<exists>c. mget cs i = Some c \<and> same_subs c c'"
    "mget cs i = Some c \<Longrightarrow> \<exists>c'. mget cs' i = Some c' \<and> same_subs c c'"
    using r by (auto simp: option_rel_Some1 option_rel_Some2)
qed

lemma clients_rel_ex:
  assumes "clients_rel cs cs'" "\<And>c c'. same_subs c c' \<Longrightarrow> P c' \<longleftrightarrow> P c"
  shows "(\<exists>c. mget cs' i = Some c \<and> P c) \<longleftrightarrow> (\<exists>c. mget cs i = Some c \<and> P c)"
proof -
  have "rel_option same_subs (mget cs i) (mget cs' i)" using assms(1) by (simp add: clients_rel_def)
  then show ?thesis using assms(2) by (cases "mget cs i"; cases "mget cs' i") auto
qed

lemma clients_rel_topics: "clients_rel cs cs' \<Longrightarrow> topic_held cs' i t = topic_held cs i t"
  unfolding topic_held_def by (rule clients_rel_ex) (auto simp: same_subs_def)

text \<open>Replacing the clients by ones with other queues, and the rooms by ones with fewer members.\<close>

lemma srv_inv_change:
  assumes inv: "srv_inv w" and bus: "wd_bus w' = wd_bus w" and cs: "clients_rel (wd_clients w) (wd_clients w')"
    and at: "\<And>j i. at_room (wd_mgr w') j i \<Longrightarrow> at_room (wd_mgr w) j i \<or> logged_in w i"
    and alive: "live (wd_mgr w')"
  shows "srv_inv w'"
  unfolding srv_inv_def
proof (intro conjI allI impI)
  show "live (wd_mgr w')" by (rule alive)
next
  show "bus_wf (wd_bus w')" "mwf (wd_clients w')" using srv_invD(1,2) [OF inv] bus cs by (simp_all add: clients_rel_def)
next
  fix i c assume "mget (wd_clients w') i = Some c"
  with clients_relD(2) [OF cs] obtain c0 where "mget (wd_clients w) i = Some c0" "same_subs c0 c" by blast
  with srv_invD(3) [OF inv] show "client_ok i c" by (blast intro: client_ok_subs)
next
  fix i t show "i \<in> bus_view (wd_bus w') t \<longleftrightarrow> topic_held (wd_clients w') i t"
    using srv_invD(4) [OF inv] bus clients_rel_topics [OF cs] by simp
next
  fix j i assume "at_room (wd_mgr w') j i"
  with at srv_invD(5) [OF inv] have "logged_in w i" by blast
  with clients_relD(3) [OF cs] show "logged_in w' i" by (fastforce simp: logged_in_def same_subs_def)
qed

lemma logged_in_rel: "clients_rel (wd_clients w) (wd_clients w') \<Longrightarrow> logged_in w' i = logged_in w i"
  unfolding logged_in_def by (rule clients_rel_ex) (auto simp: same_subs_def)

lemma srv_inv_mgr:
  assumes "srv_inv w" "on_mgr f w = (a, w')"
    and "\<And>a m es j i. f (wd_mgr w) = (a, m, es) \<Longrightarrow> at_room m j i \<Longrightarrow> at_room (wd_mgr w) j i \<or> logged_in w i"
    and "\<And>a m es. f (wd_mgr w) = (a, m, es) \<Longrightarrow> live m"
  shows "srv_inv w'" and "logged_in w' i = logged_in w i"
proof -
  obtain a' m es where f: "f (wd_mgr w) = (a', m, es)" by (metis prod_cases3)
  let ?w = "w\<lparr>wd_mgr := m\<rparr>"
  have w': "w' = run_effs es ?w" using assms(2) f by (simp add: on_mgr_def)
  have rel: "clients_rel (wd_clients w) (wd_clients w')" using run_effs_frame(4) [of ?w es] w' by simp
  show "srv_inv w'"
    by (rule srv_inv_change [OF assms(1) _ rel]) (use w' assms(3,4) [OF f] in \<open>simp_all add: run_effs_frame\<close>)
  show "logged_in w' i = logged_in w i" by (rule logged_in_rel [OF rel])
qed

lemma on_client_rel:
  assumes "on_client i f w = (a, w')" "\<And>c c'. f c = Val c' \<Longrightarrow> same_subs c c'"
  shows "clients_rel (wd_clients w) (wd_clients w')" and "wd_bus w' = wd_bus w" and "wd_mgr w' = wd_mgr w"
  using assms(1) by (auto simp: on_client_def intro: clients_rel_put [OF _ assms(2)] split: option.splits outcome.splits)

lemma srv_inv_on_client:
  assumes "srv_inv w" "on_client i f w = (a, w')" "\<And>c c'. f c = Val c' \<Longrightarrow> same_subs c c'"
  shows "srv_inv w'"
  by (rule srv_inv_change [OF assms(1)]) (use on_client_rel [OF assms(2,3)] srv_invD(6) [OF assms(1)] in simp_all)

text \<open>Subscribing and unsubscribing, for a connection that is logged in.\<close>

lemma srv_inv_set_client:
  assumes inv: "srv_inv w" and c: "mget (wd_clients w) i = Some c"
    and ok: "client_ok i c'" and b: "bus_wf b" and auth: "cl_authenticated c \<Longrightarrow> cl_authenticated c'"
    and view: "\<And>j t. j \<in> bus_view b t \<longleftrightarrow> (if j = i then mhas (cl_topics c') t else j \<in> bus_view (wd_bus w) t)"
  shows "srv_inv (w\<lparr>wd_clients := mput i c' (wd_clients w), wd_bus := b\<rparr>)"
  unfolding srv_inv_def
proof (intro conjI allI impI)
  fix j t
  show "j \<in> bus_view (wd_bus (w\<lparr>wd_clients := mput i c' (wd_clients w), wd_bus := b\<rparr>)) t \<longleftrightarrow>
      topic_held (wd_clients (w\<lparr>wd_clients := mput i c' (wd_clients w), wd_bus := b\<rparr>)) j t"
    using view [of j t] srv_invD(4) [OF inv, of j t] by (auto simp: topic_held_def)
next
  fix j x assume "at_room (wd_mgr (w\<lparr>wd_clients := mput i c' (wd_clients w), wd_bus := b\<rparr>)) j x"
  then have "logged_in w x" using srv_invD(5) [OF inv] by simp
  then show "logged_in (w\<lparr>wd_clients := mput i c' (wd_clients w), wd_bus := b\<rparr>) x"
    using c auth by (auto simp: logged_in_def)
next
  fix j x assume "mget (wd_clients (w\<lparr>wd_clients := mput i c' (wd_clients w), wd_bus := b\<rparr>)) j = Some x"
  then show "client_ok j x" using ok srv_invD(3) [OF inv, of j x] by (cases "j = i") simp_all
qed (use srv_invD(2,6) [OF inv] b in simp_all)

lemma srv_inv_Subscribe:
  assumes inv: "srv_inv w" and a: "logged_in w (cx_ClientID cx)"
  shows "srv_inv (ctx_Subscribe cx topic w)" and "logged_in (ctx_Subscribe cx topic w) i = logged_in w i"
    and "wd_mgr (ctx_Subscribe cx topic w) = wd_mgr w"
proof -
  let ?i = "cx_ClientID cx"
  from a obtain c where c: "mget (wd_clients w) ?i = Some c" "cl_authenticated c" by (auto simp: logged_in_def)
  have ok: "client_ok ?i c" by (rule srv_invD(3) [OF inv c(1)])
  obtain c' b where s: "Client_Subscribe topic c (wd_bus w) = (c', b)" by force
  have w': "ctx_Subscribe cx topic w = w\<lparr>wd_clients := mput ?i c' (wd_clients w), wd_bus := b\<rparr>"
    using c s by (simp add: ctx_Subscribe_def)
  have held: "?i \<in> bus_view (wd_bus w) t \<longleftrightarrow> mhas (cl_topics c) t" for t
    using srv_invD(4) [OF inv] c by (simp add: topic_held_def)
  have c': "client_ok ?i c'" "cl_authenticated c'"
    using s ok c(2) by (auto simp: Client_Subscribe_def Let_def client_ok_def queue_ok_def split: if_splits)
  have wf: "bus_wf (wd_bus w)" by (rule srv_invD(1) [OF inv])
  have "b = wd_bus w \<and> cl_topics c' = cl_topics c \<or>
      b = Subscribe topic (sub_of c') (wd_bus w) \<and> sub_ID (sub_of c') = ?i \<and> cl_topics c' = mput topic () (cl_topics c)"
    using s ok by (auto simp: Client_Subscribe_def Let_def client_ok_def sub_of_def split: if_splits)
  then have b: "bus_wf b" "j \<in> bus_view b t \<longleftrightarrow> (if j = ?i then mhas (cl_topics c') t else j \<in> bus_view (wd_bus w) t)" for j t
    using held [of t] wf by (auto simp: eb.view_subscribe [OF wf] split: if_splits)
  show "srv_inv (ctx_Subscribe cx topic w)" unfolding w'
    by (rule srv_inv_set_client [OF inv c(1) c'(1) b(1)]) (use c'(2) b(2) in simp_all)
  show "logged_in (ctx_Subscribe cx topic w) i = logged_in w i"
    unfolding w' using c c'(2) by (simp add: logged_in_def)
  show "wd_mgr (ctx_Subscribe cx topic w) = wd_mgr w" unfolding w' by simp
qed

lemma srv_inv_Unsub:
  assumes inv: "srv_inv w"
  shows "srv_inv (ctx_Unsub cx topic w)" and "logged_in (ctx_Unsub cx topic w) i = logged_in w i"
    and "wd_mgr (ctx_Unsub cx topic w) = wd_mgr w"
proof -
  let ?i = "cx_ClientID cx"
  have "srv_inv (ctx_Unsub cx topic w) \<and> logged_in (ctx_Unsub cx topic w) i = logged_in w i \<and>
      wd_mgr (ctx_Unsub cx topic w) = wd_mgr w"
  proof (cases "mget (wd_clients w) ?i")
    case None
    then show ?thesis using inv by (simp add: ctx_Unsub_def)
  next
    case (Some c)
    have ok: "client_ok ?i c" by (rule srv_invD(3) [OF inv Some])
    obtain c' b where s: "Client_Unsubscribe topic c (wd_bus w) = (c', b)" by force
    have w': "ctx_Unsub cx topic w = w\<lparr>wd_clients := mput ?i c' (wd_clients w), wd_bus := b\<rparr>"
      using Some s by (simp add: ctx_Unsub_def)
    have held: "?i \<in> bus_view (wd_bus w) t \<longleftrightarrow> mhas (cl_topics c) t" for t
      using srv_invD(4) [OF inv] Some by (simp add: topic_held_def)
    have "mdel x [] = []" for x :: string by (simp add: mdel_def)
    then have c': "client_ok ?i c'" "cl_authenticated c' = cl_authenticated c"
      using s ok by (auto simp: Client_Unsubscribe_def Let_def client_ok_def queue_ok_def)
    have i: "sub_ID (sub_of c') = ?i" and b: "b = Unsubscribe topic (sub_of c') (wd_bus w)"
      and tp: "cl_topics c' = mdel topic (cl_topics c)"
      using s ok by (auto simp: Client_Unsubscribe_def Let_def client_ok_def sub_of_def)
    have wf: "bus_wf (wd_bus w)" by (rule srv_invD(1) [OF inv])
    have bw: "bus_wf b" unfolding b by (rule eb.wf_unsubscribe [OF wf])
    have v: "j \<in> bus_view b t \<longleftrightarrow> (if j = ?i then mhas (cl_topics c') t else j \<in> bus_view (wd_bus w) t)" for j t
      unfolding b eb.view_unsubscribe [OF wf] i tp using held [of t] by simp
    have "srv_inv (ctx_Unsub cx topic w)" unfolding w'
      by (rule srv_inv_set_client [OF inv Some c'(1) bw]) (use c'(2) v in simp_all)
    then show ?thesis using w' Some c'(2) by (simp add: logged_in_def)
  qed
  then show "srv_inv (ctx_Unsub cx topic w)" and "logged_in (ctx_Unsub cx topic w) i = logged_in w i"
    and "wd_mgr (ctx_Unsub cx topic w) = wd_mgr w" by auto
qed

end
