(* ===== verification/Gateway_Runs.thy ===== *)
theory Gateway_Runs
  imports Gateway_Props
begin

text \<open>
  The invariant of the server along its runs: the built-in handlers keep it, so does the dispatcher
  over any registry of handlers that do, and so every step of the server.
\<close>

section \<open>Keeping the invariant on behalf of a connection\<close>

text \<open>No operation of the server adds or drops the record of a connection; only a connect adds one.\<close>

definition same_clients :: "('s, 'v) World \<Rightarrow> ('s, 'v) World \<Rightarrow> bool" where
  "same_clients w w' \<longleftrightarrow> (\<forall>i. mhas (wd_clients w') i = mhas (wd_clients w) i)"

lemma same_clients_refl [simp]: "same_clients w w"
  by (simp add: same_clients_def)

lemma same_clients_trans: "same_clients a b \<Longrightarrow> same_clients b c \<Longrightarrow> same_clients a c"
  by (simp add: same_clients_def)

lemma same_clients_rel: "clients_rel (wd_clients w) (wd_clients w') \<Longrightarrow> same_clients w w'"
  by (simp add: same_clients_def mhas_def clients_relD(1))

lemma same_clients_put: "mget (wd_clients w) i = Some c \<Longrightarrow> same_clients w (set_client i c' w)"
  by (auto simp: same_clients_def set_client_def mhas_def)

lemma same_clients_on_mgr: "on_mgr f w = (a, w') \<Longrightarrow> same_clients w w'"
proof -
  assume "on_mgr f w = (a, w')"
  then obtain m es where "w' = run_effs es (w\<lparr>wd_mgr := m\<rparr>)" by (auto simp: on_mgr_def split: prod.splits)
  then show ?thesis using run_effs_frame(4) [of "w\<lparr>wd_mgr := m\<rparr>" es] by (intro same_clients_rel) simp
qed

lemma same_clients_on_client: "on_client i f w = (a, w') \<Longrightarrow> same_clients w w'"
  by (auto simp: on_client_def same_clients_def mhas_def split: option.splits outcome.splits if_splits)

lemma same_clients_ctx: "same_clients w (ctx_Subscribe cx t w)" "same_clients w (ctx_Unsub cx t w)"
  by (auto simp: ctx_Subscribe_def ctx_Unsub_def same_clients_def mhas_def split: option.split prod.split)

text \<open>What is done for the connection \<open>ci\<close>, once it is logged in, keeps the invariant and who is logged in.\<close>

definition kept :: "uint64 \<Rightarrow> ('s, 'v) World \<Rightarrow> ('s, 'v) World \<Rightarrow> bool" where
  "kept ci w w' \<longleftrightarrow> same_clients w w' \<and>
     (srv_inv w \<and> logged_in w ci \<longrightarrow> srv_inv w' \<and> (\<forall>i. logged_in w' i = logged_in w i))"

definition keeps_inv :: "('s, 'v) Handler \<Rightarrow> bool" where
  "keeps_inv h \<longleftrightarrow> (\<forall>cx payload w. kept (cx_ClientID cx) w (snd (h cx payload w)))"

lemma kept_refl: "kept ci w w"
  by (simp add: kept_def)

lemma kept_Subscribe: "kept (cx_ClientID cx) w w1 \<Longrightarrow> kept (cx_ClientID cx) w (ctx_Subscribe cx t w1)"
  by (auto simp: kept_def srv_inv_Subscribe intro: same_clients_trans same_clients_ctx)

lemma kept_Unsub: "kept ci w w1 \<Longrightarrow> kept ci w (ctx_Unsub cx t w1)"
  by (auto simp: kept_def srv_inv_Unsub intro: same_clients_trans same_clients_ctx)

lemma kept_mgr:
  assumes "on_mgr f w1 = (a, w2)"
    and "\<And>a m es j i. f (wd_mgr w1) = (a, m, es) \<Longrightarrow> at_room m j i \<Longrightarrow> at_room (wd_mgr w1) j i \<or> i = ci"
    and "\<And>a m es. f (wd_mgr w1) = (a, m, es) \<Longrightarrow> live (wd_mgr w1) \<Longrightarrow> live m"
    and "kept ci w w1"
  shows "kept ci w w2"
  unfolding kept_def
proof (intro conjI impI allI)
  show "same_clients w w2" using assms(4) same_clients_on_mgr [OF assms(1)]
    by (auto simp: kept_def intro: same_clients_trans)
next
  assume "srv_inv w \<and> logged_in w ci"
  with assms(4) have w1: "srv_inv w1" "logged_in w1 ci" "\<forall>i. logged_in w1 i = logged_in w i"
    by (simp_all add: kept_def)
  have at: "at_room (wd_mgr w1) j i \<or> logged_in w1 i" if "f (wd_mgr w1) = (a, m, es)" "at_room m j i" for a m es j i
    using assms(2) [OF that] w1(2) by blast
  have "srv_inv w2" "logged_in w2 i = logged_in w1 i" for i
    by (rule srv_inv_mgr [OF w1(1) assms(1)], erule (1) at, erule assms(3) [OF _ srv_invD(6) [OF w1(1)]])+
  with w1(3) show "srv_inv w2" "logged_in w2 i = logged_in w i" for i by simp_all
qed

lemma kept_mgr_ops:
  "on_mgr (Manager_JoinRoom now u ci i) w1 = (a, w2) \<Longrightarrow> kept ci w w1 \<Longrightarrow> kept ci w w2"
  "on_mgr (Manager_LeaveRoom u c i) w1 = (b, w2) \<Longrightarrow> kept ci w w1 \<Longrightarrow> kept ci w w2"
  "on_mgr (Manager_Remove i) w1 = (b, w2) \<Longrightarrow> kept ci w w1 \<Longrightarrow> kept ci w w2"
  "on_mgr (Manager_Create zero uuid cfg) w1 = (r, w2) \<Longrightarrow> kept ci w w1 \<Longrightarrow> kept ci w w2"
  "on_mgr (DispatchRoomMessage ctx c op pl ids) w1 = (d, w2) \<Longrightarrow> kept ci w w1 \<Longrightarrow> kept ci w w2"
  by (erule kept_mgr, blast dest: JoinRoom_adds LeaveRoom_adds Remove_adds Create_adds Dispatch_adds,
      erule (1) JoinRoom_live LeaveRoom_live Remove_live Create_live Dispatch_live, assumption)+

lemma kept_on_client:
  assumes "on_client i f w1 = (a, w2)" "\<And>c c'. f c = Val c' \<Longrightarrow> same_subs c c'" "kept ci w w1"
  shows "kept ci w w2"
  using assms(3) on_client_rel [OF assms(1,2)] srv_inv_on_client [OF _ assms(1,2)]
    same_clients_on_client [OF assms(1)]
  unfolding kept_def by (metis logged_in_rel same_clients_trans)

section \<open>The built-in handlers\<close>

lemma leaveRoomHandler_keeps: "keeps_inv leaveRoomHandler"
  by (auto simp: keeps_inv_def leaveRoomHandler_def
      split: sum.split option.split prod.split outcome.split)
     (rule kept_refl kept_Subscribe kept_Unsub | erule kept_mgr_ops)+

lemma joinRoomHandler_keeps: "keeps_inv joinRoomHandler"
  by (auto simp: keeps_inv_def joinRoomHandler_def Let_def
      split: sum.split option.split prod.split outcome.split)
     (rule kept_refl kept_Subscribe kept_Unsub | erule kept_mgr_ops)+

lemma createRoomHandler_keeps: "keeps_inv (createRoomHandler zero)"
  by (auto simp: keeps_inv_def createRoomHandler_def Let_def
      split: sum.split option.split prod.split outcome.split)
     (rule kept_refl kept_Subscribe kept_Unsub | erule kept_mgr_ops)+

lemma lobbyListHandler_keeps: "keeps_inv lobbyListHandler"
  by (simp add: keeps_inv_def lobbyListHandler_def kept_refl)

section \<open>The dispatcher\<close>

text \<open>One connection is replaced by another that has the same subscriptions.\<close>

lemma srv_inv_put:
  assumes "srv_inv w" "mget (wd_clients w) i = Some c" "client_ok i c'" "cl_topics c' = cl_topics c"
    "cl_authenticated c \<Longrightarrow> cl_authenticated c'"
  shows "srv_inv (set_client i c' w)"
proof -
  have "i \<in> bus_view (wd_bus w) t \<longleftrightarrow> mhas (cl_topics c) t" for t
    using srv_invD(4) [OF assms(1), of i t] assms(2) by (simp add: topic_held_def)
  then have "srv_inv (w\<lparr>wd_clients := mput i c' (wd_clients w), wd_bus := wd_bus w\<rparr>)"
    by (intro srv_inv_set_client [OF assms(1-3) srv_invD(1) [OF assms(1)] assms(5)]) (simp_all add: assms(4))
  then show ?thesis by (simp add: set_client_def)
qed

lemma srv_inv_fields:
  "wd_bus w' = wd_bus w \<Longrightarrow> wd_clients w' = wd_clients w \<Longrightarrow> wd_mgr w' = wd_mgr w \<Longrightarrow> srv_inv w' = srv_inv w"
  by (simp add: srv_inv_def logged_in_def)

lemma handleAuth_inv:
  assumes inv: "srv_inv w" and c: "mget (wd_clients w) (cl_id c) = Some c"
    and h: "handleAuth d env c msg w = (a, w')"
  shows "srv_inv w'"
proof (cases "IsAuthenticated c")
  case True
  with h have "on_client (cl_id c) (SendError (cm_ID msg) ''already authenticated'' 400) w = (a, w')"
    by (simp add: handleAuth_def)
  then show ?thesis by (rule srv_inv_on_client [OF inv _ sends_subs(3)])
next
  case False
  show ?thesis
  proof (cases "dp_authenticator d (en_uuid env) (cl_done c) (cm_Token msg)")
    case (Inl err)
    have "same_subs c1 c2" if "bindO (SendError (cm_ID msg) (error_text err) 401 c1) (\<lambda>c. Val (Client_Close c)) = Val c2" for c1 c2
      using that by (auto simp: bindO_Val dest!: sends_subs(3) intro: same_subs_trans Client_Close_subs)
    with h False Inl srv_inv_on_client [OF inv] show ?thesis by (auto simp: handleAuth_def)
  next
    case (Inr sess)
    let ?w = "(set_client (cl_id c) (SetSession sess c) w)\<lparr>wd_sessions := Store_Set sess (wd_sessions w)\<rparr>"
    have "client_ok (cl_id c) (SetSession sess c)"
      using srv_invD(3) [OF inv c] by (simp add: client_ok_def SetSession_def queue_ok_def)
    then have "srv_inv (set_client (cl_id c) (SetSession sess c) w)"
      by (rule srv_inv_put [OF inv c]) (simp_all add: SetSession_def)
    then have "srv_inv ?w" by (simp add: srv_inv_fields [of ?w "set_client (cl_id c) (SetSession sess c) w"])
    moreover have "handleAuth d env c msg w = on_client (cl_id c) (SendResponse (cm_ID msg)
        (Some (AuthResult_Marshal \<lparr>ar_SessionID = se_ID sess, ar_UserID = se_UserID sess\<rparr>))) ?w"
      using False Inr c by (simp add: handleAuth_def on_client_def Let_def set_client_def cong: outcome.case_cong)
    ultimately show ?thesis using h by (metis srv_inv_on_client sends_subs(2))
  qed
qed

definition all_keep :: "('s, 'v) Dispatcher \<Rightarrow> bool" where
  "all_keep d \<longleftrightarrow> (\<forall>op h. Registry_Get (dp_commands d) op = Some h \<longrightarrow> keeps_inv h)"

lemmas kept_sends = kept_on_client [OF surjective_pairing sends_subs(2)]
  kept_on_client [OF surjective_pairing sends_subs(3)]

lemma kept_respond: "kept ci w w1 \<Longrightarrow> kept ci w (snd (respond i n res w1))"
  by (simp add: respond_def kept_sends split: sum.split)

lemma handleRequest_kept:
  assumes "all_keep d" shows "kept (cl_id c) w (snd (handleRequest d env c msg w))"
proof (cases "Registry_Get (dp_commands d) (cm_Op msg)")
  case None
  then show ?thesis
    by (auto simp: handleRequest_def split: option.split prod.split
        intro!: kept_respond kept_sends intro: kept_mgr_ops(5) [OF _ kept_refl])
next
  case (Some h)
  let ?cx = "\<lparr>cx_Session = cl_session c, cx_ClientID = cl_id c, cx_cancelled = cl_done c,
    cx_now = en_now env, cx_uuid = en_uuid env\<rparr>"
  have "kept (cx_ClientID ?cx) w (snd (h ?cx (cm_Payload msg) w))"
    using assms Some unfolding all_keep_def keeps_inv_def by blast
  then show ?thesis using Some by (auto simp: handleRequest_def split: prod.split outcome.split intro: kept_respond)
qed

lemma Dispatch_inv:
  assumes inv: "srv_inv w" and c: "mget (wd_clients w) (cl_id c) = Some c"
    and msg: "cl_authenticated c \<or> cm_Type msg = MessageAuth" and d: "all_keep d"
    and h: "Dispatch d env c msg w = (a, w')"
  shows "srv_inv w'"
proof (cases "cm_Type msg = MessageAuth")
  case True
  with h handleAuth_inv [OF inv c] show ?thesis by (simp add: Dispatch_def)
next
  case False
  have li: "logged_in w (cl_id c)" using False msg c by (auto simp: logged_in_def)
  have "kept (cl_id c) w w'"
    using h False kept_Subscribe [OF kept_refl, of "client_ctx c" w "cm_Channel msg"]
      kept_Unsub [OF kept_refl, of "cl_id c" w "client_ctx c" "cm_Channel msg"] handleRequest_kept [OF d, of c w env msg]
    by (auto simp: Dispatch_def client_ctx_def split: if_splits intro: kept_on_client sends_subs kept_refl)
  with inv li show ?thesis by (simp add: kept_def)
qed

lemma handleAuth_clients: "handleAuth d env c msg w = (a, w') \<Longrightarrow> same_clients w w'"
  by (auto simp: handleAuth_def Let_def same_clients_def on_client_def mhas_def
      split: if_splits sum.splits option.splits outcome.splits)

lemma Dispatch_clients:
  assumes "all_keep d" "Dispatch d env c msg w = (a, w')"
  shows "same_clients w w'"
proof -
  have "same_clients w (snd (handleRequest d env c msg w))"
    using handleRequest_kept [OF assms(1)] by (simp add: kept_def)
  with assms(2) show ?thesis
    by (auto simp: Dispatch_def split: if_splits
        intro: handleAuth_clients same_clients_ctx same_clients_on_client)
qed

section \<open>The end of a connection\<close>

lemma leave_rooms_kept: "leave_rooms u c is w1 = (a, w2) \<Longrightarrow> kept ci w w1 \<Longrightarrow> kept ci w w2"
  by (induction u c "is" w1 rule: leave_rooms.induct)
     (auto split: prod.splits outcome.splits dest: kept_mgr_ops(2))

lemma srv_inv_Unsubs: "srv_inv w \<Longrightarrow> srv_inv (fold (ctx_Unsub cx) ts w)"
  by (induction ts arbitrary: w) (simp_all add: srv_inv_Unsub)

lemma OnDisconnect_inv:
  assumes inv: "srv_inv w" and c: "mget (wd_clients w) (cl_id c) = Some c" and d: "OnDisconnect c w = (a, w')"
  shows "srv_inv w'"
proof (cases "cl_session c")
  case None
  with d inv show ?thesis by (auto simp: OnDisconnect_def Let_def srv_inv_Unsubs)
next
  case (Some sess)
  with srv_invD(3) [OF inv c] c have li: "logged_in w (cl_id c)" by (simp add: client_ok_def logged_in_def)
  obtain b w1 where l: "leave_rooms (se_UserID sess) (cl_id c) (RoomIDs c) w = (b, w1)" by force
  have "srv_inv w1" using leave_rooms_kept [OF l kept_refl] inv li by (simp add: kept_def)
  moreover have "w' = w1 \<or> w' = (fold (ctx_Unsub (client_ctx c)) (mkeys (cl_topics c)) w1)\<lparr>wd_sessions :=
      Store_Delete (se_ID sess) (wd_sessions (fold (ctx_Unsub (client_ctx c)) (mkeys (cl_topics c)) w1))\<rparr>"
    using d Some l by (cases b) (auto simp: OnDisconnect_def Let_def)
  ultimately show ?thesis using srv_inv_Unsubs [of w1 "client_ctx c" "mkeys (cl_topics c)"]
    by (elim disjE) (simp_all add: srv_inv_def logged_in_def)
qed

lemma end_ReadLoop_inv:
  assumes inv: "srv_inv (gw_world g)" and e: "end_ReadLoop i g = (a, g')"
  shows "srv_inv (gw_world g')"
proof (cases "mget (wd_clients (gw_world g)) i")
  case None
  with e inv show ?thesis by (simp add: end_ReadLoop_def)
next
  case (Some c)
  let ?w = "set_client i (Client_Close c) (gw_world g)"
  have i: "cl_id c = i" using srv_invD(3) [OF inv Some] by (simp add: client_ok_def)
  have w: "srv_inv ?w"
    by (rule srv_inv_put [OF inv Some client_ok_subs [OF srv_invD(3) [OF inv Some] Client_Close_subs]])
       (simp_all add: Client_Close_def)
  obtain b w1 where d: "OnDisconnect (Client_Close c) ?w = (b, w1)" by force
  have "srv_inv w1" by (rule OnDisconnect_inv [OF w _ d]) (simp add: Client_Close_def set_client_def i)
  moreover have "gw_world g' = w1"
    using e Some d by (cases b) (simp_all add: end_ReadLoop_def set_client_def unregister_def, auto)
  ultimately show ?thesis by simp
qed

section \<open>Steps of the server\<close>

lemma on_room_adds:
  assumes "on_room i f m = (a, m', es)" "\<And>r r' es. f r = (r', es) \<Longrightarrow> members (an_room r') = members (an_room r)"
    "at_room m' j x"
  shows "at_room m j x"
  using assms by (auto simp: on_room_def at_room_set at_roomI split: option.splits prod.splits if_splits)

definition same_players :: "'s AnyRoom \<Rightarrow> 's AnyRoom \<Rightarrow> bool" where
  "same_players r r' \<longleftrightarrow> members (an_room r') = members (an_room r) \<and> rm_done (an_room r') = rm_done (an_room r)"

lemma room_own_steps:
  "room_ticks dt r = (r', es) \<Longrightarrow> same_players r r'"
  "same_players r (room_expires r)"
  "room_checks r = (r', es) \<Longrightarrow> same_players r r'"
  by (auto simp: same_players_def room_ticks_def room_expires_def room_checks_def members_def
      same_coreD [OF tick_step_core] same_coreD [OF timer_check_core] split: if_splits prod.splits)

lemma srv_inv_on_room:
  assumes "srv_inv w" "on_mgr (on_room i f) w = (a, w')" "\<And>r r' es. f r = (r', es) \<Longrightarrow> same_players r r'"
  shows "srv_inv w'"
proof (rule srv_inv_mgr(1) [OF assms(1,2)])
  fix a m es j x assume "on_room i f (wd_mgr w) = (a, m, es)" "at_room m j x"
  from on_room_adds [OF this(1) _ this(2)] assms(3)
  show "at_room (wd_mgr w) j x \<or> logged_in w x" by (simp add: same_players_def)
next
  fix a m es assume "on_room i f (wd_mgr w) = (a, m, es)"
  then show "live m" using srv_invD(6) [OF assms(1)] assms(3)
    by (fastforce simp: on_room_def live_def set_room_def same_players_def split: option.splits prod.splits if_splits)
qed

lemma srv_inv_connect:
  fixes g :: "('s, 'v) Gateway"
  assumes inv: "srv_inv (gw_world g)" and new: "\<not> mhas (wd_clients (gw_world g)) (gw_nextClientID g + 1)"
  shows "srv_inv (gw_world (handleWebSocket pick g))"
proof -
  let ?i = "gw_nextClientID g + 1" and ?w = "gw_world g"
  obtain c :: "'v Client" and b where n: "NewClient ?i pick (gw_tuning g) (wd_bus ?w) = (c, b)" by force
  have wf: "bus_wf (wd_bus ?w)" by (rule srv_invD(1) [OF inv])
  have b: "b = Subscribe (clientTopic ?i) (sub_of c) (wd_bus ?w)" "sub_ID (sub_of c) = ?i"
    and t: "\<And>t. mhas (cl_topics c) t \<longleftrightarrow> t = clientTopic ?i" and a: "\<not> cl_authenticated c" and ok: "client_ok ?i c"
    using n by (auto simp: NewClient_def Let_def sub_of_def clientTopic_def client_ok_def queue_ok_def
        mempty_def withDefaults_sel tuning_consts)
  have w': "gw_world (handleWebSocket pick g) = ?w\<lparr>wd_bus := b, wd_clients := mput ?i c (wd_clients ?w)\<rparr>"
    using n by (simp add: handleWebSocket_def Let_def register_def)
  have none: "mget (wd_clients ?w) ?i = None" using new by (simp add: mhas_def)
  show ?thesis unfolding w' srv_inv_def
  proof (intro conjI allI impI)
    fix j t
    have "?i \<notin> bus_view (wd_bus ?w) t" using srv_invD(4) [OF inv] none by (simp add: topic_held_def)
    then show "j \<in> bus_view (wd_bus (?w\<lparr>wd_bus := b, wd_clients := mput ?i c (wd_clients ?w)\<rparr>)) t \<longleftrightarrow>
        topic_held (wd_clients (?w\<lparr>wd_bus := b, wd_clients := mput ?i c (wd_clients ?w)\<rparr>)) j t"
      using srv_invD(4) [OF inv, of j t] t [of t] b(2) by (auto simp: b(1) eb.view_subscribe [OF wf] topic_held_def)
  next
    fix j x assume "at_room (wd_mgr (?w\<lparr>wd_bus := b, wd_clients := mput ?i c (wd_clients ?w)\<rparr>)) j x"
    then have "logged_in ?w x" using srv_invD(5) [OF inv] by simp
    with none show "logged_in (?w\<lparr>wd_bus := b, wd_clients := mput ?i c (wd_clients ?w)\<rparr>) x"
      by (auto simp: logged_in_def)
  next
    fix j x assume "mget (wd_clients (?w\<lparr>wd_bus := b, wd_clients := mput ?i c (wd_clients ?w)\<rparr>)) j = Some x"
    then show "client_ok j x" using ok srv_invD(3) [OF inv, of j x] by (cases "j = ?i") simp_all
  qed (use srv_invD(2,6) [OF inv] wf b in simp_all)
qed

text \<open>Reading a frame: only a login may be queued before the login.\<close>

lemma enqueue_ok:
  "enqueue msg c = Continue c' \<Longrightarrow> client_ok i c \<Longrightarrow> cl_authenticated c \<or> cm_Type msg = MessageAuth \<Longrightarrow>
   client_ok i c' \<and> cl_topics c' = cl_topics c \<and> cl_authenticated c' = cl_authenticated c"
  by (auto simp: enqueue_def client_ok_def queue_ok_def split: if_splits)

lemma read_step_ok:
  assumes "read_step frame c = Continue c'" "client_ok i c"
  shows "client_ok i c' \<and> cl_topics c' = cl_topics c \<and> cl_authenticated c' = cl_authenticated c"
proof -
  have sent: "client_ok i c' \<and> cl_topics c' = cl_topics c \<and> cl_authenticated c' = cl_authenticated c"
    if "same_subs c c'" using client_ok_subs [OF assms(2) that] that by (simp add: same_subs_def)
  have cont: "continue x = Continue c' \<longleftrightarrow> x = Val c'" for x by (cases x) simp_all
  show ?thesis
  proof (cases frame)
    case (OtherMessage raw)
    with assms(1) have "SendError 0 ''binary messages only'' 400 c = Val c'" by (simp add: cont)
    from sent [OF sends_subs(3) [OF this]] show ?thesis .
  next
    case (BinaryMessage raw)
    show ?thesis
    proof (cases "ClientMessage_Unmarshal ClientMessage_zero raw")
      case (Inl e)
      with BinaryMessage assms(1) have "SendError 0 ''invalid message format'' 400 c = Val c'" by (simp add: cont)
      from sent [OF sends_subs(3) [OF this]] show ?thesis .
    next
      case (Inr p)
      obtain msg n where p: "p = (msg, n)" by force
      show ?thesis
      proof (cases "enqueue msg c = Continue c' \<and> (IsAuthenticated c \<or> cm_Type msg = MessageAuth)")
        case True
        then show ?thesis using enqueue_ok [of msg c c' i] assms(2) by (simp add: IsAuthenticated_def)
      next
        case False
        with BinaryMessage Inr p assms(1)
        have "SendServerMessage (ServerMessage_zero\<lparr>sm_Type := MessagePing, sm_ID := cm_ID msg\<rparr>) c = Val c' \<or>
            SendError (cm_ID msg) ''authentication required'' 401 c = Val c'"
          by (auto simp: cont split: if_splits)
        with sent SendServerMessage_subs sends_subs(3) show ?thesis by blast
      qed
    qed
  qed
qed

lemma handle_next_ok:
  "handle_next c = Some (msg, c') \<Longrightarrow> client_ok i c \<Longrightarrow>
   client_ok i c' \<and> cl_topics c' = cl_topics c \<and> cl_authenticated c' = cl_authenticated c \<and>
   (cl_authenticated c' \<or> cm_Type msg = MessageAuth)"
  by (auto simp: handle_next_def client_ok_def queue_ok_def split: list.splits if_splits)

lemma write_next_ok:
  "write_next c = Some (d, c') \<Longrightarrow> client_ok i c \<Longrightarrow>
   client_ok i c' \<and> cl_topics c' = cl_topics c \<and> cl_authenticated c' = cl_authenticated c"
  by (auto simp: write_next_def client_ok_def queue_ok_def split: list.splits)

lemma srv_inv_dispatch:
  assumes inv: "srv_inv w" and c: "mget (wd_clients w) i = Some c" and n: "handle_next c = Some (msg, c')"
    and d: "all_keep d" and h: "Dispatch d env c' msg (set_client i c' w) = (a, w')"
  shows "srv_inv w'"
proof -
  note ok = srv_invD(3) [OF inv c]
  note n' = handle_next_ok [OF n ok]
  have i: "cl_id c' = i" using n' by (simp add: client_ok_def)
  have "srv_inv (set_client i c' w)" using srv_inv_put [OF inv c] n' by blast
  then show ?thesis by (rule Dispatch_inv [OF _ _ _ d h]) (use n' in \<open>auto simp: i set_client_def\<close>)
qed

lemma srv_step_inv: "srv_step g g' \<Longrightarrow> all_keep (gw_dispatcher g) \<Longrightarrow> srv_inv (gw_world g) \<Longrightarrow> srv_inv (gw_world g')"
proof (induction rule: srv_step.induct)
  case (connect g pick)
  then show ?case using srv_inv_connect by blast
next
  case (read g i c frame c')
  from read_step_ok [OF read(3) srv_invD(3) [OF read(5,2)]] srv_inv_put [OF read(5,2)] show ?case by simp
next
  case (handle g i c msg c' env w)
  then show ?case using srv_inv_dispatch [OF handle(5,1,2,4,3)] by simp
next
  case (handle_panic g i c msg c' env e w)
  then show ?case using srv_inv_dispatch [OF handle_panic(5,1,2,4,3)] by (simp add: srv_inv_def logged_in_def)
next
  case (choose g i c p)
  have "client_ok i (c\<lparr>cl_pick := p\<rparr>)" using srv_invD(3) [OF choose(3,1)] by (simp add: client_ok_def queue_ok_def)
  then show ?case using srv_inv_put [OF choose(3,1)] by simp
next
  case (flush g i c data c')
  from write_next_ok [OF flush(2) srv_invD(3) [OF flush(4,1)]] srv_inv_put [OF flush(4,1)] show ?case by simp
next
  case (finish g i g')
  then show ?case using end_ReadLoop_inv by blast
next
  case (remove g "is" i js w)
  have "srv_inv ((gw_world g)\<lparr>wd_pending := is @ js\<rparr>)" using remove(4) by (simp add: srv_inv_def logged_in_def)
  from srv_inv_mgr(1) [OF this remove(2)] show ?case
    using Remove_adds Remove_live srv_invD(6) [OF remove(4)] by fastforce
next
  case (tick i dt g w)
  then show ?case using srv_inv_on_room [OF tick(3,1) room_own_steps(1)] by simp
next
  case (expire g i r w)
  have "srv_inv ((gw_world g)\<lparr>wd_fired := i # wd_fired (gw_world g)\<rparr>)" using expire(5) by (simp add: srv_inv_def logged_in_def)
  from srv_inv_on_room [OF this expire(3)] show ?case using room_own_steps(2) by fastforce
next
  case (check g "is" i js w)
  have "srv_inv ((gw_world g)\<lparr>wd_fired := is @ js\<rparr>)" using check(4) by (simp add: srv_inv_def logged_in_def)
  from srv_inv_on_room [OF this check(2) room_own_steps(3)] show ?case by simp
qed

lemma srv_step_dispatcher: "srv_step g g' \<Longrightarrow> gw_dispatcher g' = gw_dispatcher g"
  by (induction rule: srv_step.induct)
     (auto simp: handleWebSocket_def Let_def register_def end_ReadLoop_def unregister_def
      split: prod.splits option.splits outcome.splits)

lemma srv_inv_New: "srv_inv (gw_world (Gateway_New t d m)) \<longleftrightarrow> (\<forall>j i. \<not> at_room m j i) \<and> live m"
  by (auto simp: srv_inv_def Gateway_New_def logged_in_def topic_held_def mempty_def mget_def
      eb.wf_new eb.view_new)

lemma srv_reach_inv:
  assumes "srv_reach g0 g" "all_keep (gw_dispatcher g0)" "srv_inv (gw_world g0)"
  shows "srv_inv (gw_world g)"
proof -
  have "gw_dispatcher g = gw_dispatcher g0 \<and> srv_inv (gw_world g)"
    using assms by (induction rule: srv_reach.induct) (auto simp: srv_step_dispatcher dest: srv_step_inv)
  then show ?thesis by simp
qed

section \<open>The read loops\<close>

text \<open>A connection whose read loop runs is registered with the gateway, so that a shutdown closes it.\<close>

definition reading_ok :: "('s, 'v) Gateway \<Rightarrow> bool" where
  "reading_ok g \<longleftrightarrow> (\<forall>i. mhas (gw_reading g) i \<longrightarrow> mhas (gw_clients g) i \<and> mhas (wd_clients (gw_world g)) i)"

lemma reading_ok_world: "reading_ok g \<Longrightarrow> same_clients (gw_world g) w \<Longrightarrow> reading_ok (g\<lparr>gw_world := w\<rparr>)"
  by (simp add: reading_ok_def same_clients_def)

lemma reading_ok_mgr:
  "reading_ok g \<Longrightarrow> on_mgr f w0 = (a, w) \<Longrightarrow> wd_clients w0 = wd_clients (gw_world g) \<Longrightarrow> reading_ok (g\<lparr>gw_world := w\<rparr>)"
  by (auto intro!: reading_ok_world dest: same_clients_on_mgr simp: same_clients_def)

lemma leave_rooms_clients: "leave_rooms u c is w = (a, w') \<Longrightarrow> same_clients w w'"
  using leave_rooms_kept [OF _ kept_refl, of u c "is" w a w'] by (simp add: kept_def)

lemma Unsubs_clients: "same_clients w (fold (ctx_Unsub cx) ts w)"
  by (induction ts arbitrary: w) (auto intro: same_clients_trans same_clients_ctx)

lemma OnDisconnect_clients: "OnDisconnect c w = (a, w') \<Longrightarrow> same_clients w w'"
proof (cases "cl_session c")
  case (Some s)
  assume d: "OnDisconnect c w = (a, w')"
  obtain b w1 where l: "leave_rooms (se_UserID s) (cl_id c) (RoomIDs c) w = (b, w1)" by force
  have "w' = w1 \<or> wd_clients w' = wd_clients (fold (ctx_Unsub (client_ctx c)) (mkeys (cl_topics c)) w1)"
    using d Some l by (cases b) (auto simp: OnDisconnect_def Let_def)
  with leave_rooms_clients [OF l] Unsubs_clients [of w1 "client_ctx c" "mkeys (cl_topics c)"] show ?thesis
    by (auto simp: same_clients_def)
qed (auto simp: OnDisconnect_def Let_def Unsubs_clients)

lemma reading_ok_finish:
  assumes "reading_ok g" "srv_inv (gw_world g)" "end_ReadLoop i g = (a, g')"
  shows "reading_ok g'"
proof (cases "mget (wd_clients (gw_world g)) i")
  case (Some c)
  have i: "cl_id c = i" using srv_invD(3) [OF assms(2) Some] by (simp add: client_ok_def)
  obtain b w where d: "OnDisconnect (Client_Close c) (set_client i (Client_Close c) (gw_world g)) = (b, w)" by force
  have "same_clients (gw_world g) w"
    by (rule same_clients_trans [OF same_clients_put [OF Some] OnDisconnect_clients [OF d]])
  moreover have "g' = g\<lparr>gw_world := w\<rparr> \<or>
      g' = g\<lparr>gw_world := w, gw_reading := mdel i (gw_reading g), gw_clients := mdel i (gw_clients g)\<rparr>"
    using assms(3) Some d i
    by (cases b) (auto simp: end_ReadLoop_def set_client_def unregister_def Client_Close_def)
  ultimately show ?thesis using assms(1) by (auto simp: reading_ok_def same_clients_def)
qed (use assms in \<open>simp add: end_ReadLoop_def\<close>)

lemma reading_ok_step:
  "srv_step g g' \<Longrightarrow> all_keep (gw_dispatcher g) \<Longrightarrow> srv_inv (gw_world g) \<Longrightarrow> reading_ok g \<Longrightarrow> reading_ok g'"
proof (induction rule: srv_step.induct)
  case (connect g pick)
  then show ?case by (auto simp: reading_ok_def handleWebSocket_def register_def NewClient_def Let_def)
next
  case (handle g i c msg c' env w)
  then show ?case
    by (intro reading_ok_world) (auto intro: same_clients_trans [OF same_clients_put Dispatch_clients])
next
  case (handle_panic g i c msg c' env e w)
  have "same_clients (gw_world g) w"
    using handle_panic by (auto intro: same_clients_trans [OF same_clients_put Dispatch_clients])
  with handle_panic show ?case by (intro reading_ok_world) (auto simp: same_clients_def)
next
  case (finish g i g')
  then show ?case by (blast intro: reading_ok_finish)
qed (auto intro: reading_ok_world same_clients_put reading_ok_mgr)

lemma reading_ok_reach:
  assumes "srv_reach g0 g" "all_keep (gw_dispatcher g0)" "srv_inv (gw_world g0)" "reading_ok g0"
  shows "reading_ok g"
  using assms
proof (induction rule: srv_reach.induct)
  case (more g g')
  have "gw_dispatcher g = gw_dispatcher g0"
    using more(1) by (induction rule: srv_reach.induct) (simp_all add: srv_step_dispatcher)
  with more show ?case using reading_ok_step srv_reach_inv by metis
qed

section \<open>Servers of the application\<close>

lemma all_keep_Register:
  assumes "Registry_Register op h r = Val r'" "keeps_inv h" "all_keep \<lparr>dp_commands = r, dp_authenticator = a\<rparr>"
  shows "all_keep \<lparr>dp_commands = r', dp_authenticator = a\<rparr>"
  using assms(2,3) by (auto simp: all_keep_def Registry_Get_Register [OF assms(1)])

lemma App_New_keep: "App_New zero cfg = Val app \<Longrightarrow> all_keep (gw_dispatcher (ap_gateway app))"
proof -
  assume "App_New zero cfg = Val app"
  then obtain r a t where app: "ap_gateway app = Gateway_New t \<lparr>dp_commands = r, dp_authenticator = a\<rparr> NewManager"
    and r: "r = NewRegistry \<or> (\<exists>r1. RegisterRoomHandlers zero NewRegistry = Val r1 \<and> RegisterLobbyHandlers r1 = Val r)"
    by (auto simp: App_New_def bindO_Val Let_def split: if_splits)
  have new: "all_keep \<lparr>dp_commands = NewRegistry, dp_authenticator = a\<rparr>" by (simp add: all_keep_def)
  from r have "all_keep \<lparr>dp_commands = r, dp_authenticator = a\<rparr>"
  proof (elim disjE exE conjE)
    fix r1 assume "RegisterRoomHandlers zero NewRegistry = Val r1" "RegisterLobbyHandlers r1 = Val r"
    then show ?thesis
      by (auto simp: RegisterRoomHandlers_def RegisterLobbyHandlers_def bindO_Val
          intro!: createRoomHandler_keeps joinRoomHandler_keeps leaveRoomHandler_keeps lobbyListHandler_keeps new
          elim!: all_keep_Register)
  qed (simp add: new)
  then show ?thesis by (simp add: app Gateway_New_def)
qed

text \<open>
  A server as \<open>App_New\<close> sets it up, with any room types registered (those of the manager \<open>m\<close>, which has
  no rooms yet) and any authenticator, at any time of its run.
\<close>

lemma app_start_inv:
  assumes "App_New zero cfg = Val app" "mg_rooms m = mempty"
  shows "all_keep (gw_dispatcher (ap_gateway (set_rooms m app)))"
    and "srv_inv (gw_world (ap_gateway (set_rooms m app)))" and "reading_ok (ap_gateway (set_rooms m app))"
proof -
  show "all_keep (gw_dispatcher (ap_gateway (set_rooms m app)))"
    using App_New_keep [OF assms(1)] by (simp add: set_rooms_def)
  obtain t d where td: "ap_gateway app = Gateway_New t d NewManager"
    using assms(1) by (auto simp: App_New_def bindO_Val Let_def split: if_splits)
  then have "gw_world (ap_gateway (set_rooms m app)) = gw_world (Gateway_New t d m)"
    by (simp add: set_rooms_def Gateway_New_def)
  moreover have "\<not> at_room m j i" "live m" for j i using assms(2) by (simp_all add: at_room_def live_def)
  ultimately show "srv_inv (gw_world (ap_gateway (set_rooms m app)))" by (simp add: srv_inv_New)
  show "reading_ok (ap_gateway (set_rooms m app))" using td by (simp add: reading_ok_def set_rooms_def Gateway_New_def)
qed

lemma app_run_inv:
  assumes "App_New zero cfg = Val app" "mg_rooms m = mempty" "srv_reach (ap_gateway (set_rooms m app)) g"
  shows "srv_inv (gw_world g)" and "reading_ok g"
  by (rule srv_reach_inv [OF assms(3)] reading_ok_reach [OF assms(3)]; rule app_start_inv [OF assms(1,2)])+

end
