(* ===== verification/Disconnect.thy ===== *)
theory Disconnect
  imports Gateway_Runs
begin

text \<open>
  What the end of a connection does to the server, and the shutdown, which ends all of them.
\<close>

section \<open>Leaving the rooms\<close>

lemma LeaveRoom_at:
  assumes "Manager_LeaveRoom u c i m = (res, m', es)" "live m"
  shows "res = Val ()" and "at_room m' j x \<longleftrightarrow> at_room m j x \<and> (j, x) \<noteq> (i, c)"
proof -
  have "res = Val () \<and> (at_room m' j x \<longleftrightarrow> at_room m j x \<and> (j, x) \<noteq> (i, c))"
  proof (cases "mget (mg_rooms m) i")
    case None
    with assms show ?thesis by (auto simp: Manager_LeaveRoom_def at_room_def)
  next
    case (Some r)
    obtain b r' es' where l: "Room_Leave (an_module r) c (an_room r) = (b, r', es')" by (metis prod_cases3)
    from Some assms(2) have d: "\<not> rm_done (an_room r)" by (simp add: live_def)
    have mem: "members r' = members (an_room r) - {c}" using ar.leave_mem [OF l] d by simp
    have b: "b = Val ()" by (rule ar.leave_returns [OF l])
    obtain us where "m' = set_room i (r\<lparr>an_room := r'\<rparr>) (m\<lparr>mg_userSessions := us\<rparr>)" "res = b"
      using assms(1) Some l by (auto simp: Manager_LeaveRoom_def Let_def)
    with mem b Some show ?thesis by (auto simp: at_room_def set_room_def)
  qed
  then show "res = Val ()" "at_room m' j x \<longleftrightarrow> at_room m j x \<and> (j, x) \<noteq> (i, c)" by auto
qed

text \<open>Leaving on behalf of one user touches no record of another.\<close>

lemma LeaveRoom_records:
  "Manager_LeaveRoom u c i m = (res, m', es) \<Longrightarrow> fst k \<noteq> u \<Longrightarrow>
     record_of (mg_userSessions m') k = record_of (mg_userSessions m) k"
  by (auto simp: Manager_LeaveRoom_def Let_def drop_session_eq record_of_del split: option.splits prod.splits if_splits)

lemma leave_rooms_records:
  "leave_rooms u c is w = (a, w') \<Longrightarrow> fst k \<noteq> u \<Longrightarrow>
     record_of (mg_userSessions (wd_mgr w')) k = record_of (mg_userSessions (wd_mgr w)) k"
proof (induction "is" arbitrary: w)
  case (Cons i "is")
  obtain res m' es where l: "Manager_LeaveRoom u c i (wd_mgr w) = (res, m', es)" by (metis prod_cases3)
  with Cons LeaveRoom_records [OF l Cons.prems(2)] show ?case
    by (auto simp: on_mgr_def run_effs_frame split: outcome.splits)
qed simp

lemma leave_rooms_at:
  "live (wd_mgr w) \<Longrightarrow> \<exists>w'. leave_rooms u c is w = (Val (), w') \<and> live (wd_mgr w') \<and>
     (\<forall>j x. at_room (wd_mgr w') j x \<longleftrightarrow> at_room (wd_mgr w) j x \<and> \<not> (j \<in> set is \<and> x = c)) \<and>
     wd_bus w' = wd_bus w \<and> wd_sessions w' = wd_sessions w \<and> clients_rel (wd_clients w) (wd_clients w')"
proof (induction "is" arbitrary: w)
  case (Cons i "is")
  obtain res m' es where l: "Manager_LeaveRoom u c i (wd_mgr w) = (res, m', es)" by (metis prod_cases3)
  note at = LeaveRoom_at [OF l Cons.prems]
  let ?w = "run_effs es (w\<lparr>wd_mgr := m'\<rparr>)"
  have "live (wd_mgr ?w)" using LeaveRoom_live [OF l Cons.prems] by (simp add: run_effs_frame)
  from Cons.IH [OF this] obtain w' where w': "leave_rooms u c is ?w = (Val (), w')" "live (wd_mgr w')"
    "\<forall>j x. at_room (wd_mgr w') j x \<longleftrightarrow> at_room (wd_mgr ?w) j x \<and> \<not> (j \<in> set is \<and> x = c)"
    "wd_bus w' = wd_bus ?w" "wd_sessions w' = wd_sessions ?w" "clients_rel (wd_clients ?w) (wd_clients w')" by blast
  have "leave_rooms u c (i # is) w = (Val (), w')" using l at(1) w'(1) by (simp add: on_mgr_def)
  moreover have "clients_rel (wd_clients w) (wd_clients w')"
    using clients_rel_trans [OF _ w'(6)] run_effs_frame(4) [of "w\<lparr>wd_mgr := m'\<rparr>" es] by simp
  ultimately show ?case using w' at(2) by (auto simp: run_effs_frame)
qed simp

section \<open>Dropping the subscriptions\<close>

lemma Unsub_view:
  assumes "srv_inv w" "mget (wd_clients w) (cx_ClientID cx) = Some c"
  shows "j \<in> bus_view (wd_bus (ctx_Unsub cx topic w)) t \<longleftrightarrow> j \<in> bus_view (wd_bus w) t \<and> (j, t) \<noteq> (cx_ClientID cx, topic)"
    and "mget (wd_clients (ctx_Unsub cx topic w)) (cx_ClientID cx) \<noteq> None"
    and "wd_sessions (ctx_Unsub cx topic w) = wd_sessions w"
proof -
  have "cl_id c = cx_ClientID cx" using srv_invD(3) [OF assms] by (simp add: client_ok_def)
  then show "j \<in> bus_view (wd_bus (ctx_Unsub cx topic w)) t \<longleftrightarrow> j \<in> bus_view (wd_bus w) t \<and> (j, t) \<noteq> (cx_ClientID cx, topic)"
    using assms(2) srv_invD(1) [OF assms(1)]
    by (auto simp: ctx_Unsub_def Client_Unsubscribe_def Let_def sub_of_def eb.view_unsubscribe)
  show "mget (wd_clients (ctx_Unsub cx topic w)) (cx_ClientID cx) \<noteq> None"
    "wd_sessions (ctx_Unsub cx topic w) = wd_sessions w"
    using assms(2) by (auto simp: ctx_Unsub_def split: prod.splits)
qed

lemma Unsubs_view:
  assumes "srv_inv w" "mget (wd_clients w) (cx_ClientID cx) \<noteq> None"
  shows "j \<in> bus_view (wd_bus (fold (ctx_Unsub cx) ts w)) t \<longleftrightarrow>
      j \<in> bus_view (wd_bus w) t \<and> \<not> (j = cx_ClientID cx \<and> t \<in> set ts)"
    and "wd_sessions (fold (ctx_Unsub cx) ts w) = wd_sessions w" and "wd_mgr (fold (ctx_Unsub cx) ts w) = wd_mgr w"
    and "i \<noteq> cx_ClientID cx \<Longrightarrow> mget (wd_clients (fold (ctx_Unsub cx) ts w)) i = mget (wd_clients w) i"
proof -
  have "(j \<in> bus_view (wd_bus (fold (ctx_Unsub cx) ts w)) t \<longleftrightarrow>
      j \<in> bus_view (wd_bus w) t \<and> \<not> (j = cx_ClientID cx \<and> t \<in> set ts)) \<and>
    wd_sessions (fold (ctx_Unsub cx) ts w) = wd_sessions w \<and> wd_mgr (fold (ctx_Unsub cx) ts w) = wd_mgr w"
    using assms
  proof (induction ts arbitrary: w)
    case (Cons t0 ts)
    from Cons.prems(2) obtain c where c: "mget (wd_clients w) (cx_ClientID cx) = Some c" by blast
    note u = Unsub_view [OF Cons.prems(1) c]
    from Cons.IH [OF srv_inv_Unsub(1) [OF Cons.prems(1)] u(2)] u(1,3) srv_inv_Unsub(3) [OF Cons.prems(1)]
    show ?case by auto
  qed simp
  then show "j \<in> bus_view (wd_bus (fold (ctx_Unsub cx) ts w)) t \<longleftrightarrow>
      j \<in> bus_view (wd_bus w) t \<and> \<not> (j = cx_ClientID cx \<and> t \<in> set ts)"
    "wd_sessions (fold (ctx_Unsub cx) ts w) = wd_sessions w" "wd_mgr (fold (ctx_Unsub cx) ts w) = wd_mgr w" by blast+
  show "mget (wd_clients (fold (ctx_Unsub cx) ts w)) i = mget (wd_clients w) i" if "i \<noteq> cx_ClientID cx"
    using that by (induction ts arbitrary: w) (auto simp: ctx_Unsub_def split: option.split prod.split)
qed

section \<open>The whole disconnect\<close>

definition gone_sessions :: "'v Client \<Rightarrow> 'v Store \<Rightarrow> 'v Store" where
  "gone_sessions c st = (case cl_session c of None \<Rightarrow> st | Some s \<Rightarrow> Store_Delete (se_ID s) st)"

lemma OnDisconnect_spec:
  assumes inv: "srv_inv w" and c: "mget (wd_clients w) (cl_id c) = Some c"
  obtains w' where "OnDisconnect c w = (Val (), w')" "srv_inv w'" "wd_sessions w' = gone_sessions c (wd_sessions w)"
    "\<And>j t. j \<in> bus_view (wd_bus w') t \<longleftrightarrow> j \<in> bus_view (wd_bus w) t \<and> j \<noteq> cl_id c"
    "\<And>j x. at_room (wd_mgr w') j x \<longleftrightarrow> at_room (wd_mgr w) j x \<and> \<not> (mhas (cl_roomIDs c) j \<and> x = cl_id c)"
    "\<And>j. j \<noteq> cl_id c \<Longrightarrow> rel_option same_subs (mget (wd_clients w) j) (mget (wd_clients w') j)"
    "\<And>k. map_option se_UserID (cl_session c) \<noteq> Some (fst k) \<Longrightarrow>
       record_of (mg_userSessions (wd_mgr w')) k = record_of (mg_userSessions (wd_mgr w)) k"
proof -
  let ?cx = "client_ctx c" and ?ts = "mkeys (cl_topics c)"
  have cx: "cx_ClientID ?cx = cl_id c" by (simp add: client_ctx_def)
  have ok: "client_ok (cl_id c) c" by (rule srv_invD(3) [OF inv c])
  have none: "cl_roomIDs c = []" if "cl_session c = None" using ok that by (simp add: client_ok_def)
  obtain w1 where w1: "(case cl_session c of None \<Rightarrow> (Val (), w)
        | Some s \<Rightarrow> leave_rooms (se_UserID s) (cl_id c) (RoomIDs c) w) = (Val (), w1)"
    "\<And>j x. at_room (wd_mgr w1) j x \<longleftrightarrow> at_room (wd_mgr w) j x \<and> \<not> (mhas (cl_roomIDs c) j \<and> x = cl_id c)"
    "wd_bus w1 = wd_bus w" "wd_sessions w1 = wd_sessions w" "clients_rel (wd_clients w) (wd_clients w1)" "live (wd_mgr w1)"
  proof (cases "cl_session c")
    case None
    with that [of w] none srv_invD(6) [OF inv] show ?thesis by (simp add: mhas_def mget_def)
  next
    case (Some s)
    from leave_rooms_at [OF srv_invD(6) [OF inv], of "se_UserID s" "cl_id c" "RoomIDs c"] obtain w1 where
      "leave_rooms (se_UserID s) (cl_id c) (RoomIDs c) w = (Val (), w1)" "live (wd_mgr w1)"
      "\<forall>j x. at_room (wd_mgr w1) j x \<longleftrightarrow> at_room (wd_mgr w) j x \<and> \<not> (j \<in> set (RoomIDs c) \<and> x = cl_id c)"
      "wd_bus w1 = wd_bus w" "wd_sessions w1 = wd_sessions w" "clients_rel (wd_clients w) (wd_clients w1)" by blast
    with that [of w1] Some show ?thesis by (simp add: RoomIDs_def mhas_iff_keys)
  qed
  have rec: "record_of (mg_userSessions (wd_mgr w1)) k = record_of (mg_userSessions (wd_mgr w)) k"
    if "map_option se_UserID (cl_session c) \<noteq> Some (fst k)" for k
    using w1(1) that by (auto split: option.splits dest!: leave_rooms_records)
  have inv1: "srv_inv w1" by (rule srv_inv_change [OF inv w1(3,5) _ w1(6)]) (simp add: w1(2))
  have c1: "mget (wd_clients w1) (cx_ClientID ?cx) \<noteq> None" using clients_relD(3) [OF w1(5) c] by (auto simp: cx)
  note u = Unsubs_view [OF inv1 c1, where ts = ?ts]
  let ?w2 = "fold (ctx_Unsub ?cx) ?ts w1"
  let ?w' = "?w2\<lparr>wd_sessions := gone_sessions c (wd_sessions ?w2)\<rparr>"
  show thesis
  proof (rule that [of ?w'])
    show "OnDisconnect c w = (Val (), ?w')"
      using w1(1) by (auto simp: OnDisconnect_def gone_sessions_def Let_def split: option.split)
    show "srv_inv ?w'" using srv_inv_Unsubs [OF inv1, of ?cx ?ts] by (simp add: srv_inv_def logged_in_def)
    show "wd_sessions ?w' = gone_sessions c (wd_sessions w)" by (simp add: u(2) w1(4))
    show "at_room (wd_mgr ?w') j x \<longleftrightarrow> at_room (wd_mgr w) j x \<and> \<not> (mhas (cl_roomIDs c) j \<and> x = cl_id c)" for j x
      by (simp add: u(3) w1(2))
    show "j \<in> bus_view (wd_bus ?w') t \<longleftrightarrow> j \<in> bus_view (wd_bus w) t \<and> j \<noteq> cl_id c" for j t
      using srv_invD(4) [OF inv, of "cl_id c" t] c by (auto simp: u(1) cx w1(3) topic_held_def mhas_iff_keys)
    show "rel_option same_subs (mget (wd_clients w) j) (mget (wd_clients ?w') j)" if "j \<noteq> cl_id c" for j
      using u(4) [of j] w1(5) that by (simp add: cx clients_rel_def)
    show "record_of (mg_userSessions (wd_mgr ?w')) k = record_of (mg_userSessions (wd_mgr w)) k"
      if "map_option se_UserID (cl_session c) \<noteq> Some (fst k)" for k
      by (simp add: u(3) rec [OF that])
  qed
qed

section \<open>Shutdown\<close>

lemma close_client_inv:
  assumes "srv_inv w" shows "srv_inv (close_client i w)" and "wd_bus (close_client i w) = wd_bus w"
proof -
  have "srv_inv (close_client i w)" if "mget (wd_clients w) i = Some c" for c
    using srv_inv_put [OF assms that client_ok_subs [OF srv_invD(3) [OF assms that] Client_Close_subs]] that
    by (simp add: close_client_def set_client_def Client_Close_def)
  then show "srv_inv (close_client i w)" using assms by (cases "mget (wd_clients w) i") (simp_all add: close_client_def)
  show "wd_bus (close_client i w) = wd_bus w" by (simp add: close_client_def split: option.split)
qed

lemma close_client_rel: "clients_rel (wd_clients w) (wd_clients (close_client i w))"
  by (auto simp: close_client_def intro: clients_rel_put Client_Close_subs split: option.split)

lemma close_clients_inv:
  "srv_inv w \<Longrightarrow> srv_inv (fold close_client is w) \<and> wd_bus (fold close_client is w) = wd_bus w \<and>
     clients_rel (wd_clients w) (wd_clients (fold close_client is w))"
proof (induction "is" arbitrary: w)
  case (Cons i "is")
  from Cons.IH [OF close_client_inv(1) [OF Cons.prems], of i] close_client_inv(2) [OF Cons.prems, of i] show ?case
    by (auto intro: clients_rel_trans [OF close_client_rel])
qed simp

text \<open>A closed connection stays closed, whatever is sent to it.\<close>

definition closed :: "('s, 'v) World \<Rightarrow> uint64 \<Rightarrow> bool" where
  "closed w i \<longleftrightarrow> (\<exists>c. mget (wd_clients w) i = Some c \<and> cl_done c)"

lemma closed_rel:
  "rel_option same_subs (mget (wd_clients w) i) (mget (wd_clients w') i) \<Longrightarrow> closed w i \<Longrightarrow> closed w' i"
  by (auto simp: closed_def option_rel_Some1 same_subs_def grown_def)

lemma close_clients_closed:
  "i \<in> set is \<Longrightarrow> mhas (wd_clients w) i \<Longrightarrow> srv_inv w \<Longrightarrow> closed (fold close_client is w) i"
proof (induction "is" arbitrary: w)
  case (Cons j "is")
  note inv = close_client_inv(1) [OF Cons.prems(3), of j]
  show ?case
  proof (cases "i \<in> set is")
    case True
    have "mhas (wd_clients (close_client j w)) i"
      using Cons.prems(2) by (auto simp: close_client_def split: option.split)
    with Cons.IH [OF True _ inv] show ?thesis by simp
  next
    case False
    with Cons.prems have "closed (close_client j w) i"
      by (auto simp: closed_def close_client_def mhas_def Client_Close_def)
    then show ?thesis
      using close_clients_inv [OF inv, of "is"] closed_rel [of "close_client j w" i "fold close_client is (close_client j w)"]
      by (simp add: clients_rel_def)
  qed
qed simp

lemma end_ReadLoop_spec:
  assumes inv: "srv_inv (gw_world g)" and i: "closed (gw_world g) i"
  obtains g' where "end_ReadLoop i g = (Val (), g')" "srv_inv (gw_world g')"
    "\<And>j t. j \<in> bus_view (wd_bus (gw_world g')) t \<longleftrightarrow> j \<in> bus_view (wd_bus (gw_world g)) t \<and> j \<noteq> i"
    "gw_clients g' = mdel i (gw_clients g)" "gw_reading g' = mdel i (gw_reading g)"
    "\<And>j. j \<noteq> i \<Longrightarrow> closed (gw_world g) j \<Longrightarrow> closed (gw_world g') j"
proof -
  from i obtain c where c: "mget (wd_clients (gw_world g)) i = Some c" by (auto simp: closed_def)
  let ?c = "Client_Close c" and ?w = "close_client i (gw_world g)"
  have i: "cl_id ?c = i" using srv_invD(3) [OF inv c] by (simp add: client_ok_def Client_Close_def)
  have w: "srv_inv ?w" "wd_bus ?w = wd_bus (gw_world g)" by (rule close_client_inv [OF inv])+
  have "mget (wd_clients ?w) (cl_id ?c) = Some ?c" using c i by (simp add: close_client_def)
  from OnDisconnect_spec [OF w(1) this] obtain w' where w': "OnDisconnect ?c ?w = (Val (), w')" "srv_inv w'"
    "\<And>j t. j \<in> bus_view (wd_bus w') t \<longleftrightarrow> j \<in> bus_view (wd_bus ?w) t \<and> j \<noteq> cl_id ?c"
    "\<And>j. j \<noteq> cl_id ?c \<Longrightarrow> rel_option same_subs (mget (wd_clients ?w) j) (mget (wd_clients w') j)" by metis
  let ?g = "unregister ?c (g\<lparr>gw_world := w', gw_reading := mdel i (gw_reading g)\<rparr>)"
  have e: "end_ReadLoop i g = (Val (), ?g)" using c w'(1) by (simp add: end_ReadLoop_def close_client_def)
  show thesis
  proof (rule that [OF e])
    fix j assume "j \<noteq> i" "closed (gw_world g) j"
    moreover from this have "closed ?w j" by (simp add: closed_def close_client_def c)
    ultimately show "closed (gw_world ?g) j" using closed_rel [OF w'(4) [of j]] i by (simp add: unregister_def)
  qed (use w' w i in \<open>simp_all add: unregister_def\<close>)
qed

text \<open>The wait ends, in whatever order the read loops do, if all their connections are closed.\<close>

lemma wg_Wait_spec:
  assumes "srv_inv (gw_world g)" "distinct order" "\<And>i. i \<in> set order \<longleftrightarrow> mhas (gw_reading g) i"
    and "\<And>i. i \<in> set order \<Longrightarrow> closed (gw_world g) i"
  shows "\<exists>g'. wg_Wait order g = Some (Val (), g') \<and> gw_reading g' = mempty \<and>
    (gw_clients g = mempty \<longrightarrow> gw_clients g' = mempty) \<and>
    (\<forall>j t. j \<in> bus_view (wd_bus (gw_world g')) t \<longleftrightarrow> j \<in> bus_view (wd_bus (gw_world g)) t \<and> j \<notin> set order)"
  using assms
proof (induction order arbitrary: g)
  case Nil
  have "i \<notin> set (mkeys (gw_reading g))" for i using Nil(3) [of i] by (simp add: mhas_iff_keys)
  then have "set (mkeys (gw_reading g)) = {}" by (intro equals0I) simp
  then have "gw_reading g = mempty" by (simp add: map_defs)
  then show ?case by simp
next
  case (Cons i order)
  have i: "closed (gw_world g) i" by (simp add: Cons.prems(4))
  from end_ReadLoop_spec [OF Cons.prems(1) i] obtain g1 where
    g1: "end_ReadLoop i g = (Val (), g1)" "srv_inv (gw_world g1)"
    "\<And>j t. j \<in> bus_view (wd_bus (gw_world g1)) t \<longleftrightarrow> j \<in> bus_view (wd_bus (gw_world g)) t \<and> j \<noteq> i"
    "gw_clients g1 = mdel i (gw_clients g)" "gw_reading g1 = mdel i (gw_reading g)"
    "\<And>j. j \<noteq> i \<Longrightarrow> closed (gw_world g) j \<Longrightarrow> closed (gw_world g1) j" by metis
  have mem: "j \<in> set order \<longleftrightarrow> mhas (gw_reading g1) j" for j
    using Cons.prems(2) Cons.prems(3) [of j] g1(5) by auto
  have "wg_Wait (i # order) g = wg_Wait order g1"
    using i g1(1) Cons.prems(3) [of i] by (auto simp: closed_def)
  moreover have "mdel i mempty = (mempty :: (uint64, unit) gomap)" by (simp add: mdel_def mempty_def)
  moreover have "closed (gw_world g1) j" if "j \<in> set order" for j
    using that Cons.prems(2) Cons.prems(4) [of j] g1(6) [of j] by auto
  ultimately show ?case using Cons.IH [OF g1(2) _ mem] Cons.prems(2) g1(3,4) by auto
qed

lemma shutdown_spec:
  assumes inv: "srv_inv (gw_world g)" and rd: "reading_ok g"
    and order: "distinct order" "set order = {i. mhas (gw_reading g) i}"
  shows "\<exists>g'. shutdown order g = Some (Val (), g') \<and> gw_clients g' = mempty \<and> gw_reading g' = mempty \<and>
    mg_rooms (wd_mgr (gw_world g')) = mempty \<and> mg_userSessions (wd_mgr (gw_world g')) = mempty \<and>
    (\<forall>i t. i \<in> bus_view (wd_bus (gw_world g')) t \<longleftrightarrow> i \<in> bus_view (wd_bus (gw_world g)) t \<and> \<not> mhas (gw_reading g) i)"
proof -
  let ?g = "g\<lparr>gw_clients := mempty, gw_world := fold close_client (mkeys (gw_clients g)) (gw_world g)\<rparr>"
  note c = close_clients_inv [OF inv, of "mkeys (gw_clients g)"]
  have "closed (gw_world ?g) i" if "i \<in> set order" for i
    using that order(2) rd close_clients_closed [OF _ _ inv] by (simp add: reading_ok_def mhas_iff_keys)
  then obtain g1 where
    "wg_Wait order ?g = Some (Val (), g1)" "gw_clients g1 = mempty" "gw_reading g1 = mempty"
    "\<forall>j t. j \<in> bus_view (wd_bus (gw_world g1)) t \<longleftrightarrow>
       j \<in> bus_view (wd_bus (gw_world g)) t \<and> j \<notin> set order"
    using wg_Wait_spec [OF _ order(1), of ?g] c order(2) by auto
  then show ?thesis using order(2)
    by (auto simp: shutdown_def Let_def Manager_ShutdownAll_def run_effs_frame)
qed

end
