(* ===== verification/Handler_Props.thy ===== *)
theory Handler_Props
  imports Disconnect Manager_Demo
begin

text \<open>
  The built-in handlers on their unhappy paths: a join that fails, a room that cannot be announced.
\<close>

section \<open>A join that fails\<close>

lemma reserve_other:
  "reserve mode ty u c i us = (Inr (Some s), us') \<Longrightarrow> si_RoomID s \<noteq> i \<or> si_ClientID s \<noteq> c"
  by (auto simp: reserve_def Let_def split: if_splits option.splits)

text \<open>Whoever is in the room stays in it when they join it again.\<close>

lemma join_or_replace_keeps:
  assumes "join_or_replace now u c i r rep m = (res, m', es)" "mget (mg_rooms m) i = Some r" "at_room m i c"
    and rep: "\<And>s. rep = Some s \<Longrightarrow> si_RoomID s \<noteq> i \<or> si_ClientID s \<noteq> c"
  shows "at_room m' i c"
proof (cases "\<exists>s. rep = Some s \<and> si_RoomID s = i")
  case True
  then obtain s where s: "rep = Some s" "si_RoomID s = i" "si_ClientID s \<noteq> c" using rep by blast
  obtain a r' es' where j: "Room_JoinReplace (an_module r) now (si_ClientID s) c u (an_room r) = (a, r', es')"
    by (metis prod_cases3)
  have "m' = set_room i (r\<lparr>an_room := r'\<rparr>) m"
    using assms(1) s j by (auto simp: join_or_replace_def Let_def split: if_splits dest!: kick_fields)
  moreover have "c \<in> members r'" using ar.replace_mem [OF j] s(3) assms(2,3) by (auto simp: at_room_def)
  ultimately show ?thesis by (simp add: at_room_def set_room_def)
next
  case False
  obtain a r' es' where j: "Room_Join (an_module r) now c u (an_room r) = (a, r', es')" by (metis prod_cases3)
  have "c \<in> members r'" using ar.join_mem [OF j] assms(2,3) by (auto simp: at_room_def)
  moreover have "mget (mg_rooms m') i = Some (r\<lparr>an_room := r'\<rparr>)"
    using assms(1) False j
    by (auto simp: join_or_replace_def Let_def set_room_def Manager_Find_def
        split: option.splits if_splits prod.splits outcome.splits dest!: kick_fields)
  ultimately show ?thesis by (simp add: at_room_def)
qed

lemma JoinRoom_keeps:
  assumes "Manager_JoinRoom now u c i m = (res, m', es)" "at_room m i c"
  shows "at_room m' i c"
proof -
  from assms(2) obtain r where r: "mget (mg_rooms m) i = Some r" by (auto simp: at_room_def)
  let ?cf = "rm_config (an_room r)"
  obtain rr us where rv: "reserve (rc_SingletonMode ?cf) (rc_Type ?cf) u c i (mg_userSessions m) = (rr, us)" by force
  show ?thesis
  proof (cases rr)
    case (Inl e)
    with assms rv r show ?thesis by (auto simp: Manager_JoinRoom_def)
  next
    case (Inr rep)
    obtain a m1 es1 where j: "join_or_replace now u c i r rep (m\<lparr>mg_userSessions := us\<rparr>) = (a, m1, es1)"
      by (metis prod_cases3)
    have "at_room m1 i c"
      by (rule join_or_replace_keeps [OF j]) (use r assms(2) rv Inr reserve_other in auto)
    moreover have "at_room m' = at_room m1"
      using assms(1) rv r Inr j
      by (auto simp: Manager_JoinRoom_def split: outcome.splits option.splits sum.splits)
    ultimately show ?thesis by simp
  qed
qed

text \<open>A failed join, when the rooms are live, touches no other room.\<close>

lemma join_or_replace_error:
  "join_or_replace now u c i r rep m = (Val (Some e), m', es) \<Longrightarrow> \<exists>r'. m' = set_room i r' m"
  by (auto simp: join_or_replace_def Let_def split: option.splits prod.splits if_splits outcome.splits dest!: kick_fields)

lemma join_or_replace_stored:
  assumes "join_or_replace now u c i r rep m = (res, m', es)"
  shows "mget (mg_rooms m') i \<noteq> None"
  using assms by (auto simp: join_or_replace_def Let_def set_room_def split: option.splits prod.splits if_splits outcome.splits
      dest!: kick_fields)

lemma Room_Info_live: "\<not> rm_done r \<Longrightarrow> Room_Info r = Inr (roomInfo r)"
  by (simp add: Room_Info_def room_do_def)

lemma JoinRoom_error_rooms:
  assumes "Manager_JoinRoom now u c i m = (Val (Inl e), m', es)" "live m" "j \<noteq> i"
  shows "mget (mg_rooms m') j = mget (mg_rooms m) j"
proof (cases "mget (mg_rooms m) i")
  case None
  with assms show ?thesis by (simp add: Manager_JoinRoom_def)
next
  case (Some r)
  let ?cf = "rm_config (an_room r)"
  obtain rr us where rv: "reserve (rc_SingletonMode ?cf) (rc_Type ?cf) u c i (mg_userSessions m) = (rr, us)" by force
  show ?thesis
  proof (cases rr)
    case (Inl e)
    with assms rv Some show ?thesis by (auto simp: Manager_JoinRoom_def)
  next
    case (Inr rep)
    let ?m = "m\<lparr>mg_userSessions := us\<rparr>"
    obtain a m1 es1 where jr: "join_or_replace now u c i r rep ?m = (a, m1, es1)" by (metis prod_cases3)
    have "live m1" by (rule join_or_replace_live [OF jr]) (use assms(2) Some in simp_all)
    moreover obtain r1 where "mget (mg_rooms m1) i = Some r1" using join_or_replace_stored [OF jr] by blast
    ultimately have "mget (mg_rooms m1) i = Some r1" "Room_Info (an_room r1) = Inr (roomInfo (an_room r1))"
      by (simp_all add: live_def Room_Info_live)
    then obtain e' where a: "a = Val (Some e')" and m': "mg_rooms m' = mg_rooms m1"
      using assms(1) rv Some Inr jr by (auto simp: Manager_JoinRoom_def split: outcome.splits option.splits)
    with join_or_replace_error [of now u c i r rep ?m e' m1 es1] jr assms(3) show ?thesis
      by (auto simp: set_room_def)
  qed
qed

section \<open>Leaving other rooms\<close>

lemma LeaveRoom_other:
  assumes "Manager_LeaveRoom u c i m = (res, m', es)"
  shows "res = Val ()" and "j \<noteq> i \<Longrightarrow> mget (mg_rooms m') j = mget (mg_rooms m) j"
  using assms ar.leave_returns
  by (auto simp: Manager_LeaveRoom_def Let_def set_room_def split: option.splits prod.splits)

lemma leave_rooms_other:
  "\<exists>w'. leave_rooms u c is w = (Val (), w') \<and>
     (\<forall>j. j \<notin> set is \<longrightarrow> mget (mg_rooms (wd_mgr w')) j = mget (mg_rooms (wd_mgr w)) j)"
proof (induction "is" arbitrary: w)
  case (Cons i "is")
  obtain res m' es where l: "Manager_LeaveRoom u c i (wd_mgr w) = (res, m', es)" by (metis prod_cases3)
  from Cons.IH [of "run_effs es (w\<lparr>wd_mgr := m'\<rparr>)"] l LeaveRoom_other [OF l] show ?case
    by (auto simp: on_mgr_def run_effs_frame)
qed simp

lemma Unsub_mgr: "wd_mgr (ctx_Unsub cx t w) = wd_mgr w"
  by (auto simp: ctx_Unsub_def split: option.split prod.split)

lemma Subscribe_mgr: "wd_mgr (ctx_Subscribe cx t w) = wd_mgr w"
  by (auto simp: ctx_Subscribe_def split: option.split prod.split)

lemma Unsubs_mgr: "wd_mgr (fold (ctx_Unsub cx) ts w) = wd_mgr w"
  by (induction ts arbitrary: w) (simp_all add: Unsub_mgr)

lemma OnDisconnect_other:
  assumes "\<not> mhas (cl_roomIDs c) j"
  shows "\<exists>w'. OnDisconnect c w = (Val (), w') \<and> mget (mg_rooms (wd_mgr w')) j = mget (mg_rooms (wd_mgr w)) j"
proof (cases "cl_session c")
  case None
  then show ?thesis by (simp add: OnDisconnect_def Let_def Unsubs_mgr)
next
  case (Some s)
  from leave_rooms_other [of "se_UserID s" "cl_id c" "RoomIDs c" w] assms Some show ?thesis
    by (auto simp: OnDisconnect_def Let_def Unsubs_mgr RoomIDs_def mhas_iff_keys)
qed

section \<open>Rejoining without success\<close>

lemma Unsub_room:
  assumes "mget (wd_clients w) (cx_ClientID cx) \<noteq> None"
  shows "\<exists>c. mget (wd_clients (ctx_Unsub cx (''room:'' @ i) w)) (cx_ClientID cx) = Some c \<and> \<not> mhas (cl_roomIDs c) i"
  using assms by (auto simp: ctx_Unsub_def Client_Unsubscribe_def Let_def TrimPrefix_append [of "''room:''", simplified])

lemma on_mgr_clients:
  "on_mgr f w = (a, w') \<Longrightarrow> mget (wd_clients w') i = None \<longleftrightarrow> mget (wd_clients w) i = None"
proof -
  assume o: "on_mgr f w = (a, w')"
  then obtain m es where "w' = run_effs es (w\<lparr>wd_mgr := m\<rparr>)" by (auto simp: on_mgr_def split: prod.splits)
  with clients_relD(1) [OF run_effs_frame(4) [of "w\<lparr>wd_mgr := m\<rparr>" es], of i] show ?thesis by simp
qed

lemma on_mgr_result: "on_mgr f w = (a, w') \<Longrightarrow> \<exists>es. f (wd_mgr w) = (a, wd_mgr w', es)"
  by (auto simp: on_mgr_def run_effs_frame split: prod.splits)

lemma failed_rejoin:
  assumes h: "joinRoomHandler cx payload w = (Val (Inl err), w1)"
    and d: "Decode JoinRoomRequest_zero JoinRoomRequest_Unmarshal payload = Inr req" and ne: "jr_RoomID req \<noteq> []"
    and c: "mget (wd_clients w) (cx_ClientID cx) \<noteq> None" and at: "at_room (wd_mgr w) (jr_RoomID req) (cx_ClientID cx)"
  shows "at_room (wd_mgr w1) (jr_RoomID req) (cx_ClientID cx) \<and>
    (\<exists>c1. mget (wd_clients w1) (cx_ClientID cx) = Some c1 \<and> \<not> mhas (cl_roomIDs c1) (jr_RoomID req))"
proof -
  let ?i = "jr_RoomID req" and ?w = "ctx_Subscribe cx (''room:'' @ jr_RoomID req) w"
  from h d ne obtain u w2 where j: "on_mgr (Manager_JoinRoom (cx_now cx) u (cx_ClientID cx) ?i) ?w = (Val (Inl err), w2)"
    and w1: "w1 = ctx_Unsub cx (''room:'' @ ?i) w2"
    by (auto simp: joinRoomHandler_def Let_def split: option.splits prod.splits outcome.splits sum.splits)
  from on_mgr_result [OF j] JoinRoom_keeps at have "at_room (wd_mgr w2) ?i (cx_ClientID cx)"
    by (metis Subscribe_mgr)
  moreover have "mget (wd_clients w2) (cx_ClientID cx) \<noteq> None"
    using on_mgr_clients [OF j, of "cx_ClientID cx"] c by (auto simp: ctx_Subscribe_def split: prod.splits)
  ultimately show ?thesis using Unsub_room [of w2 cx ?i] w1 by (simp add: Unsub_mgr)
qed

section \<open>A room that cannot be announced\<close>

lemma room_name_length: "length (crr_Name req) \<le> length (rc_Name (new_config (request_config req) m))"
  by (auto simp: new_config_def room_config_def request_config_def ApplyDefaults_def Let_def split: option.split)

lemma Create_panics:
  assumes "65535 < length (rc_Name (new_config config m)) + 1 + length uuid"
  shows "\<exists>e. fst (Manager_Create zero uuid config m) = Panic e"
proof -
  obtain r es where n: "newRoom uuid (new_config config m) (new_module zero config m) = (r, es)" by force
  let ?r = "Room_setOnEmpty r"
  have r: "rm_id ?r = rc_Name (new_config config m) @ ''_'' @ uuid" "\<not> rm_done ?r"
    using newRoom_core [OF n] by (simp_all add: Room_setOnEmpty_def)
  have "\<not> RoomInfo_fits (roomInfo ?r)" using assms r(1) by (simp add: RoomInfo_fits_def fits16_def roomInfo_def)
  then obtain e where "RoomInfo_Marshal (roomInfo ?r) [] = Panic e"
    using roomInfo.marshal_unfit [of "roomInfo ?r" "[]"] by (cases "RoomInfo_Marshal (roomInfo ?r) []") auto
  then show ?thesis
    using n r by (auto simp: Manager_Create_def new_config_def new_module_def Let_def Room_Info_live NewEvent_def
        Encode_def split: option.splits)
qed

lemma createRoomHandler_panics:
  assumes "Decode CreateRoomRequest_zero CreateRoomRequest_Unmarshal payload = Inr req" "crr_Type req \<noteq> []"
    "65535 < length (crr_Name req) + 1 + length (cx_uuid cx)"
  shows "\<exists>e w'. createRoomHandler zero cx payload w = (Panic e, w')"
proof -
  have "65535 < length (rc_Name (new_config (request_config req) (wd_mgr w))) + 1 + length (cx_uuid cx)"
    using assms(3) room_name_length [of req "wd_mgr w"] by simp
  from Create_panics [OF this, of zero] obtain e where
    "fst (Manager_Create zero (cx_uuid cx) (request_config req) (wd_mgr w)) = Panic e" by blast
  then show ?thesis using assms(1,2)
    by (auto simp: createRoomHandler_def on_mgr_def split: prod.splits outcome.splits)
qed

section \<open>A new room that cannot be joined\<close>

lemma failed_create:
  assumes h: "createRoomHandler zero cx payload w = (Val (Inl err), w')" and l: "live (wd_mgr w)"
    and fresh: "\<And>name. \<not> mhas (mg_rooms (wd_mgr w)) (name @ ''_'' @ cx_uuid cx)"
  shows "mget (mg_rooms (wd_mgr w')) = mget (mg_rooms (wd_mgr w))"
proof (cases "w' = w")
  case False
  with h obtain req r w1 i u w2 where
    c: "on_mgr (Manager_Create zero (cx_uuid cx) (request_config req)) w = (Val r, w1)" and i: "i = rm_id (an_room r)"
    and j: "on_mgr (Manager_JoinRoom (cx_now cx) u (cx_ClientID cx) i) (ctx_Subscribe cx (''room:'' @ i) w1) = (Val (Inl err), w2)"
    and r: "on_mgr (Manager_Remove i) (ctx_Unsub cx (''room:'' @ i) w2) = (Val (), w')"
    by (auto simp: createRoomHandler_def Let_def split: sum.splits if_splits prod.splits outcome.splits option.splits)
  from on_mgr_result [OF c] obtain es1 where
    c': "Manager_Create zero (cx_uuid cx) (request_config req) (wd_mgr w) = (Val r, wd_mgr w1, es1)" by blast
  from on_mgr_result [OF j] obtain es2 where
    j': "Manager_JoinRoom (cx_now cx) u (cx_ClientID cx) i (wd_mgr w1) = (Val (Inl err), wd_mgr w2, es2)"
    by (auto simp: Subscribe_mgr)
  from on_mgr_result [OF r] obtain es3 where r': "Manager_Remove i (wd_mgr w2) = (Val (), wd_mgr w', es3)"
    by (auto simp: Unsub_mgr)
  have id: "i = rc_Name (new_config (request_config req) (wd_mgr w)) @ ''_'' @ cx_uuid cx"
    and m1: "wd_mgr w1 = set_room i r (wd_mgr w)"
    using c' i by (auto simp: Manager_Create_def new_config_def Let_def Room_setOnEmpty_def newRoom_core
        split: option.splits prod.splits sum.splits outcome.splits)
  have l1: "live (wd_mgr w1)" by (rule Create_live [OF c' l])
  have w': "mget (mg_rooms (wd_mgr w')) k = (if k = i then None else mget (mg_rooms (wd_mgr w2)) k)" for k
    using r' Remove_rooms [OF r'] by (cases "mget (mg_rooms (wd_mgr w2)) i") (auto simp: Manager_Remove_def)
  have "mget (mg_rooms (wd_mgr w')) k = mget (mg_rooms (wd_mgr w)) k" if "k \<noteq> i" for k
    using JoinRoom_error_rooms [OF j' l1 that] that m1 w' by (simp add: set_room_def)
  moreover have "mget (mg_rooms (wd_mgr w')) i = None" by (simp add: w')
  moreover have "mget (mg_rooms (wd_mgr w)) i = None" using fresh id by (simp add: mhas_def)
  ultimately show ?thesis by (metis ext)
qed simp

end
