(* ===== verification/Gateway_Demo.thy ===== *)
theory Gateway_Demo
  imports Handler_Props
begin

text \<open>
  Concrete servers: an application with one connection, and a run in which that connection logs in and
  creates a room, frame by frame as they come from the wire.
\<close>

section \<open>Concrete servers\<close>

text \<open>An application with the default handlers and authentication, before and after its first connection.\<close>

definition demo_cfg :: "(unit, unit) Config" where
  "demo_cfg = \<lparr>cf_Authenticator = None, cf_DisableDefaultHandlers = False,
     cf_tuning = \<lparr>gc_MaxMessageSize = 0, gc_AuthTimeout = 0, gc_PongWait = 0, gc_WriteWait = 0, gc_PingPeriod = 0,
       gc_SendBufferSize = 0, gc_ShutdownTimeout = 0\<rparr>, cf_Engine = True\<rparr>"

definition demo_commands :: "(unit, unit) Handler Registry" where
  "demo_commands = \<lparr>rg_handlers = [(MethodRoomCreate, createRoomHandler ()), (MethodRoomJoin, joinRoomHandler),
     (MethodRoomLeave, leaveRoomHandler), (MethodLobbyList, lobbyListHandler)]\<rparr>"

definition demo_app :: "(unit, unit) App" where
  "demo_app = \<lparr>ap_gateway = Gateway_New (newTuning (cf_tuning demo_cfg))
     \<lparr>dp_commands = demo_commands, dp_authenticator = DevAuth\<rparr> NewManager\<rparr>"

lemma demo_New: "App_New () demo_cfg = Val demo_app"
  by (simp add: App_New_def demo_cfg_def demo_app_def demo_commands_def RegisterRoomHandlers_def
      RegisterLobbyHandlers_def Registry_Register_def NewRegistry_def Let_def map_defs mhas_def
      MethodRoomCreate_def MethodRoomJoin_def MethodRoomLeave_def MethodLobbyList_def)

lemma demo_rooms: "ap_gateway (set_rooms NewManager demo_app) = ap_gateway demo_app"
  by (simp add: set_rooms_def demo_app_def Gateway_New_def)

definition demo_client :: "unit Client" where
  "demo_client = fst (NewClient 1 True (newTuning (cf_tuning demo_cfg)) EventBus_New)"

definition demo_connected :: "(unit, unit) Gateway" where
  "demo_connected = handleWebSocket True (ap_gateway demo_app)"

lemma demo_reach: "srv_reach (ap_gateway (set_rooms NewManager demo_app)) demo_connected"
  unfolding demo_rooms demo_connected_def
  by (rule srv_reach.more [OF srv_reach.start _ srv_step.connect])
     (simp_all add: demo_app_def Gateway_New_def mempty_def mhas_def mget_def)

lemma demo_client_get: "mget (wd_clients (gw_world demo_connected)) 1 = Some demo_client"
  by (simp add: demo_connected_def handleWebSocket_def register_def demo_client_def demo_app_def Gateway_New_def
      NewClient_def Let_def mempty_def mput_def mget_def)

lemma demo_client_sel:
  "\<not> cl_authenticated demo_client" "mhas (cl_topics demo_client) t \<longleftrightarrow> t = clientTopic 1"
  by (auto simp: demo_client_def NewClient_def Let_def clientTopic_def)

section \<open>A run\<close>

text \<open>A message that a connection sends when nothing waits is read and then dispatched.\<close>

lemma gateway_sel: "gw_dispatcher (g\<lparr>gw_world := w\<rparr>) = gw_dispatcher g"
  by simp

lemma deliver:
  assumes run: "srv_reach g0 g" "\<not> wd_crashed (gw_world g)" "mhas (gw_reading g) i"
    and c: "wd_clients (gw_world g) = [(i, c)]" "cl_handles c = []" "\<not> cl_done c"
    and msg: "ClientMessage_fits msg" "cm_Type msg \<noteq> MessagePing" "IsAuthenticated c \<or> cm_Type msg = MessageAuth"
    and d: "Dispatch (gw_dispatcher g) env c msg (gw_world g) = (Val (), w)"
  shows "srv_reach g0 (g\<lparr>gw_world := w\<rparr>)"
proof -
  let ?c = "c\<lparr>cl_handles := [msg]\<rparr>"
  let ?g = "g\<lparr>gw_world := set_client i ?c (gw_world g)\<rparr>"
  have u: "ClientMessage_Unmarshal ClientMessage_zero (ClientMessage_enc msg) = Inr (msg, length (ClientMessage_enc msg))"
    using clientMessage.unmarshal_enc [OF msg(1), of ClientMessage_zero "[]"] by simp
  have "read_step (BinaryMessage (ClientMessage_enc msg)) c = Continue ?c"
    using u msg(2,3) c(2,3) by (auto simp: enqueue_def handleBufferSize_def)
  from srv_step.read [OF run(3) _ this] c(1) have "srv_step g ?g" by (simp add: mget_def)
  with run(1,2) have r: "srv_reach g0 ?g" by (rule srv_reach.more)
  have n: "handle_next ?c = Some (msg, c)" using c(2,3) by (simp add: handle_next_def)
  have w: "set_client i c (gw_world ?g) = gw_world g" using c(1) by (simp add: set_client_def mput_def)
  have "srv_step ?g (?g\<lparr>gw_world := w\<rparr>)"
    by (rule srv_step.handle [where env = env, OF _ n])
       (use c(1) in \<open>simp add: set_client_def mget_def mput_def\<close>, use d in \<open>simp only: w gateway_sel\<close>)
  from srv_reach.more [OF r _ this] run(2) show ?thesis by (simp add: set_client_def)
qed

text \<open>A create request that succeeds puts its sender into the new room and makes its connection track it.\<close>

lemma createRoomHandler_joins:
  assumes "Decode CreateRoomRequest_zero CreateRoomRequest_Unmarshal payload = Inr req" "crr_Type req \<noteq> []"
    and c: "Manager_Create zero (cx_uuid cx) (request_config req) (wd_mgr w) = (Val r, m1, es1)"
    and j: "Manager_JoinRoom (cx_now cx) (se_UserID s) (cx_ClientID cx) (rm_id (an_room r)) m1 = (Val (Inr info), m2, es2)"
    and s: "cx_Session cx = Some s" and cl: "mget (wd_clients w) (cx_ClientID cx) = Some cl"
    and t: "\<not> mhas (cl_topics cl) (''room:'' @ rm_id (an_room r))"
  shows "\<exists>w' cl'. createRoomHandler zero cx payload w = (Val (Inr (Some (RoomInfo_Marshal info))), w') \<and>
    wd_mgr w' = m2 \<and> wd_sessions w' = wd_sessions w \<and> mget (wd_clients w') (cx_ClientID cx) = Some cl' \<and>
    cl_id cl' = cl_id cl \<and> cl_session cl' = cl_session cl \<and> rm_id (an_room r) \<in> set (RoomIDs cl')"
proof -
  let ?i = "rm_id (an_room r)" and ?ci = "cx_ClientID cx"
  let ?w1 = "run_effs es1 (w\<lparr>wd_mgr := m1\<rparr>)"
  let ?w2 = "ctx_Subscribe cx (''room:'' @ ?i) ?w1"
  let ?w3 = "run_effs es2 (?w2\<lparr>wd_mgr := m2\<rparr>)"
  note f1 = run_effs_frame [where w = "w\<lparr>wd_mgr := m1\<rparr>" and es = es1] and f3 = run_effs_frame [where w = "?w2\<lparr>wd_mgr := m2\<rparr>" and es = es2]
  from clients_relD(3) [OF f1(4)] cl obtain c1 where c1: "mget (wd_clients ?w1) ?ci = Some c1" "same_subs cl c1" by fastforce
  obtain c2 b where s2: "Client_Subscribe (''room:'' @ ?i) c1 (wd_bus ?w1) = (c2, b)" by force
  have c2: "cl_id c2 = cl_id c1" "cl_session c2 = cl_session c1" "mhas (cl_roomIDs c2) ?i"
    using s2 t c1(2) HasPrefix_append [of "''room:''" ?i] TrimPrefix_append [of "''room:''" ?i]
    by (auto simp: Client_Subscribe_def Let_def same_subs_def)
  have "mget (wd_clients ?w2) ?ci = Some c2" using c1(1) s2 by (simp add: ctx_Subscribe_def)
  with clients_relD(3) [OF f3(4), of ?ci c2] obtain c3 where c3: "mget (wd_clients ?w3) ?ci = Some c3" "same_subs c2 c3" by auto
  have "createRoomHandler zero cx payload w = (Val (Inr (Some (RoomInfo_Marshal info))), ?w3)"
    using assms(1,2) c j s f1(3) by (simp add: createRoomHandler_def on_mgr_def Let_def Subscribe_mgr)
  moreover have "wd_sessions ?w2 = wd_sessions ?w1" by (auto simp: ctx_Subscribe_def split: option.split prod.split)
  ultimately show ?thesis using f1(2) f3(2,3) c1 c2 c3
    by (intro exI [of _ ?w3] exI [of _ c3]) (simp add: same_subs_def RoomIDs_def mhas_iff_keys)
qed

definition login :: ClientMessage where
  "login = \<lparr>cm_Type = MessageAuth, cm_ID = 1, cm_Op = 0, cm_Token = ''u'', cm_Channel = [], cm_Payload = []\<rparr>"

definition small_request :: CreateRoomRequest where
  "small_request = \<lparr>crr_Name = ''n'', crr_Type = ''g'', crr_MaxPlayers = 0, crr_SingletonMode = 0, crr_Options = []\<rparr>"

definition create_n :: ClientMessage where
  "create_n = \<lparr>cm_Type = MessageRequest, cm_ID = 2, cm_Op = MethodRoomCreate, cm_Token = [], cm_Channel = [],
     cm_Payload = CreateRoomRequest_enc small_request\<rparr>"

definition in_client :: "unit Client" where
  "in_client = (SetSession (Session_New ''s'' ''u'') demo_client)\<lparr>cl_send :=
     [ServerMessage_enc (ServerMessage_zero\<lparr>sm_Type := MessageResponse, sm_ID := 1,
        sm_Payload := AuthResult_enc \<lparr>ar_SessionID = ''s'', ar_UserID = ''u''\<rparr>\<rparr>)]\<rparr>"

definition logged :: "(unit, unit) Gateway" where
  "logged = demo_connected\<lparr>gw_world := (gw_world demo_connected)\<lparr>
     wd_clients := [(1, in_client)], wd_sessions := Store_Set (Session_New ''s'' ''u'') NewStore\<rparr>\<rparr>"

lemma demo_connected_sel:
  "wd_clients (gw_world demo_connected) = [(1, demo_client)]" "wd_sessions (gw_world demo_connected) = NewStore"
  "wd_mgr (gw_world demo_connected) = NewManager" "\<not> wd_crashed (gw_world demo_connected)"
  "mhas (gw_reading demo_connected) 1"
  "gw_dispatcher demo_connected = \<lparr>dp_commands = demo_commands, dp_authenticator = DevAuth\<rparr>"
  by (simp_all add: demo_connected_def handleWebSocket_def register_def demo_client_def demo_app_def Gateway_New_def
      NewClient_def Let_def map_defs mhas_def)

lemma login_reach: "srv_reach (ap_gateway (set_rooms NewManager demo_app)) logged"
proof -
  let ?ar = "\<lparr>ar_SessionID = ''s'', ar_UserID = ''u''\<rparr>"
  have e: "Encode (Some (AuthResult_Marshal ?ar)) = Val (AuthResult_enc ?ar)"
    by (simp add: authResult.Encode_eq AuthResult_fits_def fits16_def)
  have s: "sendable (ServerMessage_zero\<lparr>sm_Type := MessageResponse, sm_ID := 1, sm_Payload := AuthResult_enc ?ar\<rparr>)"
    by (simp add: sendable_def ServerMessage_zero_def fits16_def AuthResult_enc_def enc_string_def le16_def bytes_of_string_def)
  have c: "has_room (SetSession x demo_client)" "\<not> cl_done demo_client" "cl_send demo_client = []" "cl_id demo_client = 1" for x
    by (simp_all add: has_room_def SetSession_def demo_client_def NewClient_def newTuning_def withDefaults_sel demo_cfg_def
        tuning_consts Let_def)
  have "SendResponse 1 (Some (AuthResult_Marshal ?ar)) (SetSession (Session_New ''s'' ''u'') demo_client) = Val in_client"
    using e s c by (simp add: SendResponse_def SendServerMessage_Val in_client_def SetSession_def)
  then have "Dispatch (gw_dispatcher demo_connected) \<lparr>en_now = 5, en_uuid = ''s''\<rparr> demo_client login (gw_world demo_connected) =
      (Val (), gw_world logged)"
    using demo_client_sel(1) c
    by (simp add: Dispatch_def login_def handleAuth_def IsAuthenticated_def demo_connected_sel DevAuth_def Let_def
        on_client_def logged_def mget_def mput_def Session_New_def)
  from deliver [OF demo_reach _ _ _ _ _ _ _ _ this, of 1] show ?thesis
    by (simp add: demo_connected_sel c login_def ClientMessage_fits_def fits16_def logged_def
        MessageAuth_def MessagePing_def) (simp add: demo_client_def NewClient_def Let_def)
qed

text \<open>The room that the request creates, and its creator in it.\<close>

definition n_room :: "(uint64, Player) gomap \<Rightarrow> unit AnyRoom" where
  "n_room ps = \<lparr>an_module = plainModule (), an_room =
     \<lparr>rm_id = ''n_1'', rm_config = ApplyDefaults (request_config small_request), rm_State = (), rm_players = ps,
      rm_isOpen = True, rm_emptyTimer = None, rm_keepOnEmpty = False, rm_onEmpty = True, rm_done = False\<rparr>\<rparr>"

lemmas n_simps = n_room_def ApplyDefaults_def request_config_def small_request_def optionsMap_def plainModule_def
  NewModule_def RoomConfig_zero_def map_defs mhas_def set_room_def NewManager_def Let_def

lemma n_info_fits: "RoomInfo_fits (roomInfo (an_room (n_room ps)))"
  by (simp add: RoomInfo_fits_def roomInfo_def fits16_def n_simps)

lemma create_n_room:
  "\<exists>es. Manager_Create () ''1'' (request_config small_request) NewManager =
     (Val (n_room []), set_room ''n_1'' (n_room []) NewManager, es)"
proof -
  have e: "NewEvent EventRoomCreated (Some (RoomInfo_Marshal (roomInfo (an_room (n_room []))))) =
      Val \<lparr>ev_Op = EventRoomCreated, ev_Payload = RoomInfo_enc (roomInfo (an_room (n_room [])))\<rparr>"
    using n_info_fits [of "[]"] by (simp add: NewEvent_def Encode_def RoomInfo_marshal_fits)
  have n: "newRoom ''1'' (ApplyDefaults (request_config small_request)) (plainModule ()) =
      ((an_room (n_room []))\<lparr>rm_onEmpty := False\<rparr>, [])"
    by (simp add: newRoom_def n_simps)
  have "Room_setOnEmpty ((an_room (n_room []))\<lparr>rm_onEmpty := False\<rparr>) = an_room (n_room [])" "\<not> rm_done (an_room (n_room []))"
    "rm_id (an_room (n_room [])) = ''n_1''" "\<lparr>an_module = plainModule (), an_room = an_room (n_room [])\<rparr> = n_room []"
    by (simp_all add: Room_setOnEmpty_def n_room_def)
  moreover have "mget (mg_modules (NewManager :: unit Manager)) t = None" for t by (simp add: NewManager_def mempty_def mget_def)
  ultimately show ?thesis using n e by (simp add: Manager_Create_def Room_Info_live Let_def)
qed

lemma join_n_room:
  "\<exists>es. Manager_JoinRoom 5 ''u'' 1 ''n_1'' (set_room ''n_1'' (n_room []) NewManager) =
     (Val (Inr (roomInfo (an_room (n_room (seat 1 ''u''))))), set_room ''n_1'' (n_room (seat 1 ''u'')) NewManager, es)"
  by (simp add: Manager_JoinRoom_def reserve_def rollback_def join_or_replace_def Room_Join_def
      room_do_def join_step_cases at_capacity_def hasPlayer_def player_hook_def new_player_def
      playerJoined_event_eq Room_topic_def Room_Info_def fits16_def seat_def n_simps)

text \<open>The connection 1 is logged in as \<open>u\<close> with the session \<open>s\<close> and is in the room \<open>n_1\<close>.\<close>

lemma settled_run:
  "\<exists>g c. srv_reach (ap_gateway (set_rooms NewManager demo_app)) g \<and> mget (wd_clients (gw_world g)) 1 = Some c \<and>
     cl_session c = Some (Session_New ''s'' ''u'') \<and> ''n_1'' \<in> set (RoomIDs c) \<and>
     at_room (wd_mgr (gw_world g)) ''n_1'' 1 \<and> Store_Get (wd_sessions (gw_world g)) ''s'' \<noteq> None"
proof -
  let ?cx = "\<lparr>cx_Session = cl_session in_client, cx_ClientID = cl_id in_client, cx_cancelled = cl_done in_client,
    cx_now = 5, cx_uuid = ''1''\<rparr>"
  let ?s = "Session_New ''s'' ''u'' :: unit Session" and ?info = "roomInfo (an_room (n_room (seat 1 ''u'')))"
  have c: "cl_session in_client = Some ?s" "cl_id in_client = 1" "\<not> cl_done in_client" "cl_handles in_client = []"
    "cl_authenticated in_client" "cl_topics in_client = cl_topics demo_client"
    by (simp_all add: in_client_def SetSession_def demo_client_def NewClient_def Let_def)
  have g: "wd_clients (gw_world logged) = [(1, in_client)]" "wd_mgr (gw_world logged) = NewManager"
    "\<not> wd_crashed (gw_world logged)" "mhas (gw_reading logged) 1"
    "gw_dispatcher logged = \<lparr>dp_commands = demo_commands, dp_authenticator = DevAuth\<rparr>"
    "Store_Get (wd_sessions (gw_world logged)) ''s'' = Some ?s"
    by (simp_all add: logged_def demo_connected_sel Store_Get_Set) (simp add: Session_New_def)
  have dec: "Decode CreateRoomRequest_zero CreateRoomRequest_Unmarshal (CreateRoomRequest_enc small_request) = Inr small_request"
    by (rule createRoomRequest.Decode_Encode)
       (simp add: createRoomRequest.Encode_eq CreateRoomRequest_fits_def small_request_def fits16_def)
  obtain es1 es2 where
    mk: "Manager_Create () (cx_uuid ?cx) (request_config small_request) (wd_mgr (gw_world logged)) =
      (Val (n_room []), set_room ''n_1'' (n_room []) NewManager, es1)"
    and jn: "Manager_JoinRoom (cx_now ?cx) (se_UserID ?s) (cx_ClientID ?cx) (rm_id (an_room (n_room [])))
        (set_room ''n_1'' (n_room []) NewManager) =
      (Val (Inr ?info), set_room ''n_1'' (n_room (seat 1 ''u'')) NewManager, es2)"
    using create_n_room join_n_room g(2) c(2) by (auto simp: Session_New_def n_room_def)
  have "\<exists>w' cl'. createRoomHandler () ?cx (CreateRoomRequest_enc small_request) (gw_world logged) =
      (Val (Inr (Some (RoomInfo_Marshal ?info))), w') \<and> wd_mgr w' = set_room ''n_1'' (n_room (seat 1 ''u'')) NewManager \<and>
      wd_sessions w' = wd_sessions (gw_world logged) \<and> mget (wd_clients w') (cx_ClientID ?cx) = Some cl' \<and>
      cl_id cl' = cl_id in_client \<and> cl_session cl' = cl_session in_client \<and> rm_id (an_room (n_room [])) \<in> set (RoomIDs cl')"
    by (rule createRoomHandler_joins [OF dec _ mk jn])
       (use c g demo_client_sel(2) in \<open>simp_all add: small_request_def mget_def n_room_def clientTopic_def\<close>)
  then obtain w cl where h: "createRoomHandler () ?cx (CreateRoomRequest_enc small_request) (gw_world logged) =
      (Val (Inr (Some (RoomInfo_Marshal ?info))), w)" "wd_mgr w = set_room ''n_1'' (n_room (seat 1 ''u'')) NewManager"
    "wd_sessions w = wd_sessions (gw_world logged)" "mget (wd_clients w) 1 = Some cl" "cl_id cl = 1"
    "cl_session cl = Some ?s" "''n_1'' \<in> set (RoomIDs cl)"
    using c by (auto simp: n_room_def)
  have "sendable (ServerMessage_zero\<lparr>sm_Type := MessageResponse, sm_ID := 2, sm_Payload := RoomInfo_enc ?info\<rparr>)"
    by (simp add: sendable_def ServerMessage_zero_def fits16_def RoomInfo_enc_def enc_string_def le16_def
        bytes_of_string_def roomInfo_def n_simps)
  from SendServerMessage_returns [OF this, of cl]
  obtain cl' where r: "SendResponse 2 (Some (RoomInfo_Marshal ?info)) cl = Val cl'"
    by (auto simp: SendResponse_def Encode_def RoomInfo_marshal_fits n_info_fits)
  let ?w = "set_client 1 cl' w"
  have "Registry_Get demo_commands MethodRoomCreate = Some (createRoomHandler ())"
    by (simp add: demo_commands_def Registry_Get_def mget_def)
  then have "Dispatch (gw_dispatcher logged) \<lparr>en_now = 5, en_uuid = ''1''\<rparr> in_client create_n (gw_world logged) = (Val (), ?w)"
    using h(1,4) r c(2) by (simp add: Dispatch_def create_n_def handleRequest_def g respond_def on_client_def set_client_def)
  from deliver [OF login_reach g(3,4,1) c(4,3) _ _ _ this]
  have "srv_reach (ap_gateway (set_rooms NewManager demo_app)) (logged\<lparr>gw_world := ?w\<rparr>)"
    by (simp add: ClientMessage_fits_def create_n_def fits16_def IsAuthenticated_def c(5) CreateRoomRequest_enc_def
        enc_string_def le16_def bytes_of_string_def small_request_def)
  moreover have "cl_session cl' = Some ?s" "''n_1'' \<in> set (RoomIDs cl')"
    using sends_subs(2) [OF r] h(6,7) by (simp_all add: same_subs_def RoomIDs_def)
  moreover have "at_room (wd_mgr ?w) ''n_1'' 1"
    using h(2) by (simp add: set_client_def at_room_def set_room_def n_room_def members_def seat_def mget_def domIff)
  ultimately show ?thesis using h(3) g(6)
    by (intro exI [of _ "logged\<lparr>gw_world := ?w\<rparr>"] exI [of _ cl']) (simp add: set_client_def)
qed

end
