(* ===== verification/Gateway_Theorems.thy ===== *)
theory Gateway_Theorems
  imports Gateway_Demo
begin

text \<open>
  The properties of the running server: connections, dispatcher, built-in handlers and the facade.
\<close>

section \<open>Subscriptions and logins\<close>

text \<open>C6: the connections and the bus agree. Take any run of an application with the built-in handlers, in
  which each connect, each frame read, each dispatched message, each disconnect and each action of a
  room is one step (so the bus calls of different handlers do not overlap; what happens when they do is
  the subject of \<^verbatim>\<open>Bus_Theorems\<close>), and nobody but the connections subscribes. At any time of it, whatever
  the peers send and in whatever order the steps of the connections come, a connection is subscribed
  on the bus to exactly the topics it tracks, so that it can be unsubscribed from all of them when it
  ends, and every ID subscribed on the bus is the ID of a connection.\<close>

theorem subscriptions_match_the_bus:
  assumes "App_New zero cfg = Val app" "mg_rooms m = mempty" "srv_reach (ap_gateway (set_rooms m app)) g"
  shows "i \<in> bus_view (wd_bus (gw_world g)) topic \<longleftrightarrow>
    (\<exists>c. mget (wd_clients (gw_world g)) i = Some c \<and> cl_id c = i \<and> mhas (cl_topics c) topic)"
proof -
  have inv: "srv_inv (gw_world g)" by (rule app_run_inv(1) [OF assms])
  have "cl_id c = i" if "mget (wd_clients (gw_world g)) i = Some c" for c
    using srv_invD(3) [OF inv that] by (simp add: client_ok_def)
  then show ?thesis using srv_invD(4) [OF inv] by (auto simp: topic_held_def)
qed

theorem subscriptions_match_the_bus_witness:
  "1 \<in> bus_view (wd_bus (gw_world demo_connected)) (clientTopic 1) \<and>
   1 \<notin> bus_view (wd_bus (gw_world demo_connected)) ''lobby''"
proof -
  have "clientTopic 1 \<noteq> ''lobby''" by (simp add: clientTopic_def)
  then show ?thesis
    using subscriptions_match_the_bus [OF demo_New _ demo_reach] demo_client_get demo_client_sel(2)
    by (auto simp: NewManager_def demo_client_def NewClient_def Let_def)
qed

text \<open>C7: nothing before login. A connection that has not logged in is subscribed to its personal topic
  only, tracks no room, is a player of no room of the server, has no session, and only login messages
  of it wait for the handler.\<close>

theorem nothing_before_login:
  assumes "App_New zero cfg = Val app" "mg_rooms m = mempty" "srv_reach (ap_gateway (set_rooms m app)) g"
    and "mget (wd_clients (gw_world g)) i = Some c" "\<not> IsAuthenticated c"
  shows "cl_session c = None \<and> RoomIDs c = [] \<and> (\<forall>t. mhas (cl_topics c) t \<longrightarrow> t = clientTopic i) \<and>
    (\<forall>rid r. Manager_Find rid (wd_mgr (gw_world g)) = Some r \<longrightarrow> i \<notin> members (an_room r)) \<and>
    (\<forall>msg\<in>set (cl_handles c). cm_Type msg = MessageAuth)"
proof -
  have inv: "srv_inv (gw_world g)" by (rule app_run_inv(1) [OF assms(1-3)])
  have ok: "client_ok i c" by (rule srv_invD(3) [OF inv assms(4)])
  have "\<not> at_room (wd_mgr (gw_world g)) rid i" for rid
    using srv_invD(5) [OF inv, of rid i] assms(4,5) by (auto simp: logged_in_def IsAuthenticated_def)
  then show ?thesis using ok assms(5)
    by (auto simp: client_ok_def IsAuthenticated_def RoomIDs_def mkeys_def at_room_def Manager_Find_def)
qed

theorem nothing_before_login_witness:
  "cl_session demo_client = None \<and> RoomIDs demo_client = []"
  using nothing_before_login [OF demo_New _ demo_reach demo_client_get]
  by (simp add: NewManager_def IsAuthenticated_def demo_client_sel)

text \<open>C15: the queues of a connection hold bounded, well-formed data: never more frames than its send
  buffer takes nor more than 64 requests, and every frame waiting to be written decodes, to its last
  byte, as a server message.\<close>

theorem queues_hold_wellformed_frames:
  assumes "App_New zero cfg = Val app" "mg_rooms m = mempty" "srv_reach (ap_gateway (set_rooms m app)) g"
    and "mget (wd_clients (gw_world g)) i = Some c"
  shows "int (length (cl_send c)) \<le> tn_sendBufferSize (cl_tuning c) \<and> length (cl_handles c) \<le> 64 \<and>
    (\<forall>d\<in>set (cl_send c). \<exists>msg. ServerMessage_Unmarshal ServerMessage_zero d = Inr (msg, length d))"
proof -
  have "queue_ok c" using srv_invD(3) [OF app_run_inv(1) [OF assms(1-3)] assms(4)] by (simp add: client_ok_def)
  moreover have "ServerMessage_Unmarshal ServerMessage_zero (ServerMessage_enc msg) = Inr (msg, length (ServerMessage_enc msg))"
    if "sendable msg" for msg
    using serverMessage.unmarshal_enc [of msg ServerMessage_zero "[]"] that
    by (simp add: sendable_def ServerMessage_fits_def)
  ultimately show ?thesis unfolding queue_ok_def handleBufferSize_def by fast
qed

theorem queues_hold_wellformed_frames_witness:
  "int (length (cl_send demo_client)) \<le> 256"
  using queues_hold_wellformed_frames [OF demo_New _ demo_reach demo_client_get]
  by (simp add: NewManager_def demo_client_def NewClient_def newTuning_def withDefaults_sel demo_cfg_def
      defaultSendBufferSize_def Let_def)

section \<open>Tuning\<close>

text \<open>C37: whatever the configuration, every limit of a connection is positive, a positive configured
  value is used as it is, a positive ping period exactly if it is below the pong wait in use, and applying the defaults
  again, as \<open>NewClient\<close> does, changes nothing. The ping period is below the pong wait unless the
  configured wait is at most 30 seconds and the configured ping period is no good: then the default
  replaces the ping period by one that is too long.\<close>

theorem tuning_is_positive_and_stable:
  "let t = newTuning c; pong = (if gc_PongWait c > 0 then gc_PongWait c else 60 * Second) in
   tn_writeWait t = (if gc_WriteWait c > 0 then gc_WriteWait c else 10 * Second) \<and> tn_pongWait t = pong \<and>
   tn_authTimeout t = (if gc_AuthTimeout c > 0 then gc_AuthTimeout c else 10 * Second) \<and>
   tn_maxMessageSize t = (if gc_MaxMessageSize c > 0 then gc_MaxMessageSize c else 65536) \<and>
   tn_sendBufferSize t = (if gc_SendBufferSize c > 0 then gc_SendBufferSize c else 256) \<and>
   tn_shutdownTimeout t = (if gc_ShutdownTimeout c > 0 then gc_ShutdownTimeout c else 5 * Second) \<and>
   tn_pingPeriod t = (if 0 < gc_PingPeriod c \<and> gc_PingPeriod c < pong then gc_PingPeriod c else 30 * Second) \<and>
   0 < tn_pingPeriod t \<and> withDefaults t = t \<and>
   (tn_pingPeriod t < tn_pongWait t \<longleftrightarrow> 0 < gc_PingPeriod c \<and> gc_PingPeriod c < pong \<or> 30 * Second < pong)"
  unfolding newTuning_def Let_def
  by (intro conjI) (auto simp: withDefaults_sel withDefaults_idem tuning_consts)

section \<open>Errors\<close>

lemma as_Error_wrap: "as_Error (foldr WrapError ps e) = as_Error e"
  by (induction ps) simp_all

lemma err_is_wrap: "(\<And>p e. t \<noteq> WrapError p e) \<Longrightarrow> err_is (foldr WrapError ps e) t \<longleftrightarrow> err_is e t"
  by (induction ps) auto

text \<open>The code of an error on the wire is the code of its cause: however often a handler wraps an
  error of the rooms or an RPC error, the client gets the code of that error, and 500 for an error
  of any other kind.\<close>

lemma error_codes_survive_wrapping:
  "errorCode (foldr WrapError ps ErrRoomNotFound) = 404 \<and> errorCode (foldr WrapError ps ErrRoomFull) = 409 \<and>
   errorCode (foldr WrapError ps ErrAlreadyInRoomOfType) = 409 \<and> errorCode (foldr WrapError ps ErrRoomClosed) = 410 \<and>
   errorCode (foldr WrapError ps ErrNotInRoom) = 400 \<and> errorCode (foldr WrapError ps ErrAmbiguousRoom) = 400 \<and>
   errorCode (foldr WrapError ps (NewError code message)) = code \<and> errorCode (foldr WrapError ps (OtherError text)) = 500"
  by (simp add: errorCode_def as_Error_wrap err_is_wrap NewError_def)

section \<open>The end of a connection\<close>

text \<open>C13: \<open>OnDisconnect\<close>, run in any state of the server, always runs to its end and undoes what the
  connection did: afterwards it is subscribed to nothing and is in none of the rooms it tracked, and
  its session is gone from the store. All other subscriptions, places and sessions are as before, and
  so are the singleton records of all other users. The only thing that happens to another connection
  is that frames (the \<open>PlayerLeft\<close> events and what \<open>OnLeave\<close> sends) join its send queue, or that it is
  closed because the queue is full.\<close>

theorem disconnect_cleans_up:
  assumes "App_New zero cfg = Val app" "mg_rooms m = mempty" "srv_reach (ap_gateway (set_rooms m app)) g"
    and "mget (wd_clients (gw_world g)) i = Some c"
  shows "\<exists>w'. OnDisconnect c (gw_world g) = (Val (), w') \<and>
    (\<forall>j topic. j \<in> bus_view (wd_bus w') topic \<longleftrightarrow> j \<noteq> i \<and> j \<in> bus_view (wd_bus (gw_world g)) topic) \<and>
    (\<forall>rid x. at_room (wd_mgr w') rid x \<longleftrightarrow>
       at_room (wd_mgr (gw_world g)) rid x \<and> (x = i \<longrightarrow> rid \<notin> set (RoomIDs c))) \<and>
    (\<forall>sid. Store_Get (wd_sessions w') sid =
       (if map_option se_ID (cl_session c) = Some sid then None else Store_Get (wd_sessions (gw_world g)) sid)) \<and>
    (\<forall>u t. map_option se_UserID (cl_session c) \<noteq> Some u \<longrightarrow>
       record_of (mg_userSessions (wd_mgr w')) (u, t) = record_of (mg_userSessions (wd_mgr (gw_world g))) (u, t)) \<and>
    (\<forall>j d. j \<noteq> i \<longrightarrow> mget (wd_clients (gw_world g)) j = Some d \<longrightarrow>
       (\<exists>frames closed. mget (wd_clients w') j =
          Some (d\<lparr>cl_send := cl_send d @ frames, cl_done := cl_done d \<or> closed\<rparr>)))"
proof -
  have inv: "srv_inv (gw_world g)" by (rule app_run_inv(1) [OF assms(1-3)])
  have i: "cl_id c = i" using srv_invD(3) [OF inv assms(4)] by (simp add: client_ok_def)
  from OnDisconnect_spec [OF inv] assms(4) i obtain w' where w': "OnDisconnect c (gw_world g) = (Val (), w')"
    "wd_sessions w' = gone_sessions c (wd_sessions (gw_world g))"
    "\<And>j t. j \<in> bus_view (wd_bus w') t \<longleftrightarrow> j \<in> bus_view (wd_bus (gw_world g)) t \<and> j \<noteq> i"
    "\<And>j x. at_room (wd_mgr w') j x \<longleftrightarrow> at_room (wd_mgr (gw_world g)) j x \<and> \<not> (mhas (cl_roomIDs c) j \<and> x = i)"
    "\<And>j. j \<noteq> i \<Longrightarrow> rel_option same_subs (mget (wd_clients (gw_world g)) j) (mget (wd_clients w') j)"
    "\<And>k. map_option se_UserID (cl_session c) \<noteq> Some (fst k) \<Longrightarrow>
       record_of (mg_userSessions (wd_mgr w')) k = record_of (mg_userSessions (wd_mgr (gw_world g))) k"
    by metis
  have sess: "Store_Get (wd_sessions w') sid =
      (if map_option se_ID (cl_session c) = Some sid then None else Store_Get (wd_sessions (gw_world g)) sid)" for sid
    using w'(2) by (simp add: gone_sessions_def Store_Get_Delete split: option.split)
  have other: "\<exists>frames closed. mget (wd_clients w') j =
      Some (d\<lparr>cl_send := cl_send d @ frames, cl_done := cl_done d \<or> closed\<rparr>)"
    if "j \<noteq> i" "mget (wd_clients (gw_world g)) j = Some d" for j d
    using w'(5) [OF that(1)] that(2) by (auto simp: option_rel_Some1 same_subs_def grown_def)
  show ?thesis
    by (rule exI [of _ w'], intro conjI)
       (use w' sess other in \<open>auto simp: RoomIDs_def mhas_iff_keys\<close>)
qed

theorem disconnect_cleans_up_witness:
  "\<exists>g c w'. srv_reach (ap_gateway (set_rooms NewManager demo_app)) g \<and> mget (wd_clients (gw_world g)) 1 = Some c \<and>
     at_room (wd_mgr (gw_world g)) ''n_1'' 1 \<and> Store_Get (wd_sessions (gw_world g)) ''s'' \<noteq> None \<and>
     OnDisconnect c (gw_world g) = (Val (), w') \<and> \<not> at_room (wd_mgr w') ''n_1'' 1 \<and> Store_Get (wd_sessions w') ''s'' = None"
proof -
  from settled_run obtain g c where g: "srv_reach (ap_gateway (set_rooms NewManager demo_app)) g"
    "mget (wd_clients (gw_world g)) 1 = Some c" "cl_session c = Some (Session_New ''s'' ''u'')" "''n_1'' \<in> set (RoomIDs c)"
    "at_room (wd_mgr (gw_world g)) ''n_1'' 1" "Store_Get (wd_sessions (gw_world g)) ''s'' \<noteq> None" by blast
  from disconnect_cleans_up [OF demo_New _ g(1,2)] obtain w' where "OnDisconnect c (gw_world g) = (Val (), w')"
    "\<forall>rid x. at_room (wd_mgr w') rid x \<longleftrightarrow> at_room (wd_mgr (gw_world g)) rid x \<and> (x = 1 \<longrightarrow> rid \<notin> set (RoomIDs c))"
    "\<forall>sid. Store_Get (wd_sessions w') sid =
       (if map_option se_ID (cl_session c) = Some sid then None else Store_Get (wd_sessions (gw_world g)) sid)"
    by (auto simp: NewManager_def)
  with g show ?thesis by (intro exI [of _ g] exI [of _ c] exI [of _ w']) (simp add: Session_New_def)
qed



section \<open>The built-in handlers\<close>

text \<open>The server of the room type \<open>g\<close> with one seat, taken by the user \<open>u\<close> on connection 1.\<close>

definition seated :: "unit Manager" where
  "seated = game_mgr 1 (seat 1 ''u'') [] (place ''u'' ''g_1'' 1)"

definition seated_world :: "(unit, unit) World" where
  "seated_world = \<lparr>wd_bus = EventBus_New, wd_clients = [(1, SetSession (Session_New ''s'' ''u'') demo_client)],
     wd_sessions = NewStore, wd_mgr = seated, wd_pending = [], wd_fired = [], wd_crashed = False\<rparr>"

definition demo_ctx :: "uint64 \<Rightarrow> string \<Rightarrow> unit CmdContext" where
  "demo_ctx i uuid = \<lparr>cx_Session = Some (Session_New ''s'' ''u''), cx_ClientID = i, cx_cancelled = False, cx_now = 5, cx_uuid = uuid\<rparr>"

text \<open>C29: a failed rejoin makes a ghost. A player whose join of the room it is in fails, as it does when
  the room is full, is unsubscribed from the room although it stays a player: the connection no
  longer tracks the room, and its disconnect leaves the player behind.\<close>

theorem failed_rejoin_leaves_a_ghost:
  assumes "joinRoomHandler cx payload w = (Val (Inl err), w1)"
    and "Decode JoinRoomRequest_zero JoinRoomRequest_Unmarshal payload = Inr req" "jr_RoomID req \<noteq> []"
    and "mget (wd_clients w) (cx_ClientID cx) = Some c" "at_room (wd_mgr w) (jr_RoomID req) (cx_ClientID cx)"
  shows "\<exists>c1 w2. mget (wd_clients w1) (cx_ClientID cx) = Some c1 \<and> jr_RoomID req \<notin> set (RoomIDs c1) \<and>
    OnDisconnect c1 w1 = (Val (), w2) \<and> at_room (wd_mgr w2) (jr_RoomID req) (cx_ClientID cx)"
proof -
  from failed_rejoin [OF assms(1-3)] assms(4,5) obtain c1 where c1: "mget (wd_clients w1) (cx_ClientID cx) = Some c1"
    "\<not> mhas (cl_roomIDs c1) (jr_RoomID req)" and at: "at_room (wd_mgr w1) (jr_RoomID req) (cx_ClientID cx)" by auto
  from OnDisconnect_other [OF c1(2), of w1] at c1 show ?thesis by (auto simp: at_room_def RoomIDs_def mhas_iff_keys)
qed

lemma join_g_1: "Decode JoinRoomRequest_zero JoinRoomRequest_Unmarshal [3, 0, 103, 95, 49] = Inr \<lparr>jr_RoomID = ''g_1''\<rparr>"
  by code_simp

lemma seated_rejoin: "\<exists>w1. joinRoomHandler (demo_ctx 1 []) [3, 0, 103, 95, 49] seated_world = (Val (Inl ErrRoomFull), w1)"
  by (simp add: joinRoomHandler_def join_g_1 demo_ctx_def on_mgr_def Subscribe_mgr seated_world_def seated_def
      Session_New_def game_rejoin run_effs_def Let_def)

theorem failed_rejoin_leaves_a_ghost_witness:
  "\<exists>w1 c1 w2. joinRoomHandler (demo_ctx 1 []) [3, 0, 103, 95, 49] seated_world = (Val (Inl ErrRoomFull), w1) \<and>
     mget (wd_clients w1) 1 = Some c1 \<and> OnDisconnect c1 w1 = (Val (), w2) \<and> at_room (wd_mgr w2) ''g_1'' 1"
proof -
  obtain w1 where j: "joinRoomHandler (demo_ctx 1 []) [3, 0, 103, 95, 49] seated_world = (Val (Inl ErrRoomFull), w1)"
    using seated_rejoin by blast
  have "at_room (wd_mgr seated_world) ''g_1'' 1"
    using game_find(1) [of 1 "seat 1 ''u''" "[]" "place ''u'' ''g_1'' 1"]
    by (simp add: seated_world_def seated_def at_room_def Manager_Find_def game_room_sel)
  moreover have "mget (wd_clients seated_world) 1 = Some (SetSession (Session_New ''s'' ''u'') demo_client)"
    by (simp add: seated_world_def mget_def)
  moreover have "cx_ClientID (demo_ctx 1 []) = 1" by (simp add: demo_ctx_def)
  ultimately obtain c1 w2 where "mget (wd_clients w1) 1 = Some c1" "OnDisconnect c1 w1 = (Val (), w2)"
    "at_room (wd_mgr w2) ''g_1'' 1"
    using failed_rejoin_leaves_a_ghost [OF j join_g_1] by auto
  with j show ?thesis by blast
qed

text \<open>Creating a room that its creator may not join leaves no room behind: when the handler answers
  with an error, the manager has exactly the rooms it had, provided the new room's ID was free.\<close>

lemma failed_create_leaves_no_room:
  assumes "createRoomHandler zero cx payload w = (Val (Inl err), w')"
    and "\<forall>i r. Manager_Find i (wd_mgr w) = Some r \<longrightarrow> \<not> rm_done (an_room r)"
    and "\<forall>name. Manager_Find (name @ ''_'' @ cx_uuid cx) (wd_mgr w) = None"
  shows "Manager_Find i (wd_mgr w') = Manager_Find i (wd_mgr w)"
  using failed_create [OF assms(1)] assms(2,3) by (simp add: live_def mhas_def Manager_Find_def)

text \<open>C32: one request can stop the server. A logged-in peer whose request to create a room has a name so
  long that the room's ID, the name with an underscore and a UUID, exceeds 65535 bytes, makes the
  handler panic when the new room is announced, and no loop of the connection recovers that.\<close>

theorem long_room_name_stops_the_server:
  assumes "mget (wd_clients (gw_world g)) i = Some c" "handle_next c = Some (msg, c')" "cm_Type msg = MessageRequest"
    and "Registry_Get (dp_commands (gw_dispatcher g)) (cm_Op msg) = Some (createRoomHandler zero)"
    and "Decode CreateRoomRequest_zero CreateRoomRequest_Unmarshal (cm_Payload msg) = Inr req" "crr_Type req \<noteq> []"
    and "65535 < length (crr_Name req) + 1 + length uuid"
  shows "\<exists>g' e w. Dispatch (gw_dispatcher g) \<lparr>en_now = now, en_uuid = uuid\<rparr> c' msg (set_client i c' (gw_world g)) =
      (Panic e, w) \<and> srv_step g g' \<and> wd_crashed (gw_world g')"
proof -
  let ?cx = "\<lparr>cx_Session = cl_session c', cx_ClientID = cl_id c', cx_cancelled = cl_done c', cx_now = now, cx_uuid = uuid\<rparr>"
  from createRoomHandler_panics [OF assms(5,6), of ?cx zero "set_client i c' (gw_world g)"] assms(7)
  obtain e w where "createRoomHandler zero ?cx (cm_Payload msg) (set_client i c' (gw_world g)) = (Panic e, w)" by auto
  then have d: "Dispatch (gw_dispatcher g) \<lparr>en_now = now, en_uuid = uuid\<rparr> c' msg (set_client i c' (gw_world g)) = (Panic e, w)"
    using assms(3,4) by (simp add: Dispatch_def handleRequest_def)
  with srv_step.handle_panic [OF assms(1,2) d] show ?thesis by (intro exI conjI) auto
qed

definition long_name :: string where
  "long_name = replicate 65500 (CHR ''a'')"

definition create_g :: CreateRoomRequest where
  "create_g = \<lparr>crr_Name = ''n'', crr_Type = ''g'', crr_MaxPlayers = 0, crr_SingletonMode = 0, crr_Options = []\<rparr>"

definition long_request :: CreateRoomRequest where
  "long_request = create_g\<lparr>crr_Name := long_name\<rparr>"

text \<open>The first connection is logged in and its request waits for the handler.\<close>

definition doomed_client :: "unit Client" where
  "doomed_client = (SetSession (Session_New ''s'' ''u'') demo_client)\<lparr>cl_handles :=
     [\<lparr>cm_Type = MessageRequest, cm_ID = 0, cm_Op = MethodRoomCreate, cm_Token = [], cm_Channel = [],
       cm_Payload = CreateRoomRequest_enc long_request\<rparr>]\<rparr>"

definition doomed :: "(unit, unit) Gateway" where
  "doomed = demo_connected\<lparr>gw_world := set_client 1 doomed_client (gw_world demo_connected)\<rparr>"

lemma long_request_decoded:
  "Decode CreateRoomRequest_zero CreateRoomRequest_Unmarshal (CreateRoomRequest_enc long_request) = Inr long_request"
  by (rule createRoomRequest.Decode_Encode)
     (simp add: createRoomRequest.Encode_eq CreateRoomRequest_fits_def long_request_def create_g_def fits16_def long_name_def)

theorem long_room_name_stops_the_server_witness:
  "\<exists>g'. srv_step doomed g' \<and> wd_crashed (gw_world g')"
proof -
  let ?msg = "\<lparr>cm_Type = MessageRequest, cm_ID = 0, cm_Op = MethodRoomCreate, cm_Token = [], cm_Channel = [],
       cm_Payload = CreateRoomRequest_enc long_request\<rparr>"
  have c: "mget (wd_clients (gw_world doomed)) 1 = Some doomed_client"
    by (simp add: doomed_def set_client_def)
  have n: "handle_next doomed_client = Some (?msg, doomed_client\<lparr>cl_handles := []\<rparr>)"
    by (simp add: handle_next_def doomed_client_def SetSession_def demo_client_def NewClient_def Let_def)
  have h: "Registry_Get (dp_commands (gw_dispatcher doomed)) (cm_Op ?msg) = Some (createRoomHandler ())"
    by (simp add: doomed_def demo_connected_def handleWebSocket_def register_def Let_def demo_app_def Gateway_New_def
        demo_commands_def Registry_Get_def mget_def split: prod.split)
  have l: "length (replicate 36 (CHR ''b'')) = 36" "length long_name = 65500" by (simp_all only: long_name_def length_replicate)
  from long_room_name_stops_the_server [OF c n _ h, of long_request "replicate 36 (CHR ''b'')" 0] l
  show ?thesis by (auto simp: long_request_decoded) (simp add: long_request_def create_g_def)
qed

end
