(* ===== verification/App_Theorems.thy ===== *)
theory App_Theorems
  imports Gateway_Theorems
begin

text \<open>
  The properties of the facade: who owns an opcode, and what the fluent builder builds.
\<close>

section \<open>Opcodes\<close>

text \<open>What an application registers through the methods of the facade, in any order; a panic leaves what was
  registered before it. (\<open>Handle\<close> is \<open>HandleRaw\<close> of an adapted function.) The registries themselves, which
  \<open>Commands()\<close> and \<open>Rooms()\<close> hand out, are not protected this way; see below.\<close>

datatype ('s, 'v) app_call = AHandleRaw uint16 "('s, 'v) Handler" | ARoomType "'s Module"

fun app_do :: "('s, 'v) app_call \<Rightarrow> ('s, 'v) App \<Rightarrow> ('s, 'v) App" where
  "app_do (AHandleRaw op h) app = (case HandleRaw op h app of Val app' \<Rightarrow> app' | Panic e \<Rightarrow> app)"
| "app_do (ARoomType m) app = snd (RegisterRoomType m app)"

definition one_owner :: "('s, 'v) App \<Rightarrow> bool" where
  "one_owner a \<longleftrightarrow> (\<forall>op. \<not> (Registry_Has (App_Commands a) op \<and> OpType op (App_Rooms a) \<noteq> None))"

lemma claim_ops_keys: "mget (snd (claim_ops t ops ot)) op \<noteq> None \<Longrightarrow> op \<in> set ops \<or> mget ot op \<noteq> None"
  by (induction t ops ot rule: claim_ops.induct) (auto split: option.splits if_splits)

lemma RegisterModule_ops: "OpType op (snd (RegisterModule m mgr)) \<noteq> None \<Longrightarrow> op \<in> set (Module_Ops m) \<or> OpType op mgr \<noteq> None"
  using claim_ops_keys [of "Module_RoomType m" "Module_Ops m" "mg_opTypes mgr" op]
  by (auto simp: RegisterModule_def OpType_def Let_def split: prod.splits option.splits if_splits)

lemma first_global_None: "first_global ops r = None \<longleftrightarrow> (\<forall>op\<in>set ops. \<not> Registry_Has r op)"
  by (induction ops) auto

lemma app_parts [simp]:
  "App_Rooms (set_rooms m a) = m" "App_Commands (set_rooms m a) = App_Commands a"
  "App_Rooms (set_commands r a) = App_Rooms a" "App_Commands (set_commands r a) = r"
  by (simp_all add: App_Rooms_def App_Commands_def set_rooms_def set_commands_def)

lemma HandleRaw_owner: "HandleRaw op h a = Val a' \<Longrightarrow> one_owner a \<Longrightarrow> one_owner a'"
  by (fastforce simp: HandleRaw_def one_owner_def bindO_Val Registry_Has_def Registry_Get_Register split: if_splits)

lemma RegisterRoomType_owner: "one_owner a \<Longrightarrow> one_owner (snd (RegisterRoomType m a))"
proof (cases "first_global (Module_Ops m) (App_Commands a)")
  case None
  assume a: "one_owner a"
  obtain res mgr where r: "RegisterModule m (App_Rooms a) = (res, mgr)" by force
  have "OpType op mgr = None" if "Registry_Has (App_Commands a) op" for op
    using RegisterModule_ops [of op m "App_Rooms a"] that None a r
    by (cases "OpType op mgr") (auto simp: one_owner_def first_global_None)
  with None r show ?thesis by (auto simp: RegisterRoomType_def one_owner_def)
qed (simp add: RegisterRoomType_def)

lemma app_do_owner: "one_owner a \<Longrightarrow> one_owner (app_do x a)"
  by (cases x) (auto simp: RegisterRoomType_owner HandleRaw_owner split: outcome.split)

lemma app_calls_owner: "one_owner a \<Longrightarrow> one_owner (fold app_do xs a)"
  by (induction xs arbitrary: a) (simp_all add: app_do_owner)

lemma App_New_owner: "App_New zero cfg = Val app \<Longrightarrow> one_owner app"
  by (auto simp: App_New_def bindO_Val Let_def one_owner_def OpType_def App_Rooms_def Gateway_New_def NewManager_def
      split: if_splits)

text \<open>C27: the facade never gives an opcode two owners. Whatever global handlers an application registers
  with \<open>Handle\<close> and \<open>HandleRaw\<close> and whatever room types with \<open>RegisterRoomType\<close> (or the builder, which calls
  it), in whatever order and even after registrations that panicked half-way, no opcode is
  both a global method and claimed by a room type, so that \<open>handleRequest\<close>, which looks at the global
  handlers first, hides no message from a room.\<close>

theorem opcodes_have_one_owner:
  assumes "App_New zero cfg = Val app"
  shows "let a = fold app_do calls app in
    Registry_Get (App_Commands a) op = None \<or> OpType op (App_Rooms a) = None"
  using app_calls_owner [OF App_New_owner [OF assms]] unfolding one_owner_def Let_def Registry_Has_def by blast

theorem opcodes_have_one_owner_witness:
  "OpType MethodRoomCreate (App_Rooms (fold app_do [ARoomType ((game 0)\<lparr>md_handlers := [(MethodRoomCreate, \<lambda>ctx r p payload. ([], Inr None))]\<rparr>)] demo_app)) = None"
proof -
  let ?m = "(game 0)\<lparr>md_handlers := [(MethodRoomCreate, \<lambda>ctx r p payload. ([], Inr None))]\<rparr>"
  have "App_Commands (snd (RegisterRoomType ?m demo_app)) = App_Commands demo_app"
    by (auto simp: RegisterRoomType_def split: option.split prod.split)
  then have "Registry_Get (App_Commands (fold app_do [ARoomType ?m] demo_app)) MethodRoomCreate \<noteq> None"
    by (simp add: demo_app_def App_Commands_def Gateway_New_def demo_commands_def Registry_Get_def mget_def)
  then show ?thesis using opcodes_have_one_owner [OF demo_New, of "[ARoomType ?m]" MethodRoomCreate]
    by (auto simp: Let_def)
qed

text \<open>C38: but \<open>Commands()\<close> goes around that check. After any such registrations, a handler for an opcode
  that a room type claims can be put into the registry that \<open>Commands()\<close> returns; the registration does
  not panic, the opcode then has two owners, and every request with it is answered by that handler,
  so that no message reaches the room type under it any more.\<close>

theorem direct_registration_hides_a_room_type:
  assumes "App_New zero cfg = Val app" "a = fold app_do calls app" "OpType op (App_Rooms a) = Some t"
  shows "\<exists>r. Registry_Register op h (App_Commands a) = Val r \<and> OpType op (App_Rooms (set_commands r a)) = Some t \<and>
    (\<forall>env c msg w. cm_Op msg = op \<longrightarrow>
      handleRequest (gw_dispatcher (ap_gateway (set_commands r a))) env c msg w =
        (case h \<lparr>cx_Session = cl_session c, cx_ClientID = cl_id c, cx_cancelled = cl_done c,
                 cx_now = en_now env, cx_uuid = en_uuid env\<rparr> (cm_Payload msg) w of
           (Panic e, w) \<Rightarrow> (Panic e, w) | (Val res, w) \<Rightarrow> respond (cl_id c) (cm_ID msg) res w))"
proof -
  have "\<not> Registry_Has (App_Commands a) op"
    using app_calls_owner [OF App_New_owner [OF assms(1)], of calls] assms(2,3) by (auto simp: one_owner_def)
  then obtain r where r: "Registry_Register op h (App_Commands a) = Val r" by (simp add: Registry_Register_Val)
  have "dp_commands (gw_dispatcher (ap_gateway (set_commands r a))) = r" by (simp add: set_commands_def)
  with Registry_Get_Register [OF r, of op] assms(3) r show ?thesis
    by (intro exI [of _ r]) (simp add: handleRequest_def)
qed

theorem direct_registration_hides_a_room_type_witness:
  "\<exists>a r. OpType 100 (App_Rooms a) = Some ''g'' \<and> Registry_Register 100 lobbyListHandler (App_Commands a) = Val r \<and>
     OpType 100 (App_Rooms (set_commands r a :: (unit, unit) App)) = Some ''g''"
proof -
  let ?m = "(game 0)\<lparr>md_handlers := [(100, \<lambda>ctx r p payload. ([], Inr None))]\<rparr>"
  let ?a = "fold app_do [ARoomType ?m] demo_app"
  have "OpType 100 (App_Rooms ?a) = Some ''g''"
    by (simp add: RegisterRoomType_def RegisterModule_def Module_RoomType_def Module_Ops_def demo_app_def App_Rooms_def
        App_Commands_def set_rooms_def Gateway_New_def NewManager_def demo_commands_def Registry_Has_def Registry_Get_def
        OpType_def Let_def game_simps)
  with direct_registration_hides_a_room_type [OF demo_New refl this, of lobbyListHandler] show ?thesis by blast
qed

section \<open>The builder\<close>

text \<open>The methods of the builder and of the module, and chains of them.\<close>

datatype 's option_call =
    OState "'s option option"
  | OMaxPlayers uint16
  | OSingleton uint8
  | OEmptyGrace duration
  | OOnInit "'s hook option"
  | OOnJoin "'s player_hook option"
  | OOnLeave "'s player_hook option"
  | OOnClose "'s hook option"
  | OTick duration "('s Room \<Rightarrow> duration \<Rightarrow> 's act list) option"
  | OHandleRaw uint16 "'s MessageHandler"

fun build :: "'s option_call \<Rightarrow> 's RoomBuilder \<Rightarrow> 's RoomBuilder outcome" where
  "build (OState fn) b = Val (RoomBuilder_State fn b)"
| "build (OMaxPlayers n) b = Val (RoomBuilder_MaxPlayers n b)"
| "build (OSingleton mode) b = Val (RoomBuilder_Singleton mode b)"
| "build (OEmptyGrace d) b = Val (RoomBuilder_EmptyGrace d b)"
| "build (OOnInit fn) b = Val (RoomBuilder_OnInit fn b)"
| "build (OOnJoin fn) b = Val (RoomBuilder_OnJoin fn b)"
| "build (OOnLeave fn) b = Val (RoomBuilder_OnLeave fn b)"
| "build (OOnClose fn) b = Val (RoomBuilder_OnClose fn b)"
| "build (OTick rate fn) b = Val (RoomBuilder_Tick rate fn b)"
| "build (OHandleRaw op h) b = RoomBuilder_HandleRaw op h b"

fun configure :: "'s option_call \<Rightarrow> 's Module \<Rightarrow> 's Module outcome" where
  "configure (OState fn) m = Val (Module_State fn m)"
| "configure (OMaxPlayers n) m = Val (Module_MaxPlayers n m)"
| "configure (OSingleton mode) m = Val (Module_Singleton mode m)"
| "configure (OEmptyGrace d) m = Val (Module_EmptyGrace d m)"
| "configure (OOnInit fn) m = Val (Module_OnInit fn m)"
| "configure (OOnJoin fn) m = Val (Module_OnJoin fn m)"
| "configure (OOnLeave fn) m = Val (Module_OnLeave fn m)"
| "configure (OOnClose fn) m = Val (Module_OnClose fn m)"
| "configure (OTick rate fn) m = Val (Module_Tick rate fn m)"
| "configure (OHandleRaw op h) m = Module_HandleRaw op h m"

fun chain :: "('c \<Rightarrow> 'b \<Rightarrow> 'b outcome) \<Rightarrow> 'c list \<Rightarrow> 'b \<Rightarrow> 'b outcome" where
  "chain f [] b = Val b"
| "chain f (c # cs) b = bindO (f c b) (chain f cs)"

lemma build_module: "build c b = bindO (configure c (rb_module b)) (\<lambda>m. Val (b\<lparr>rb_module := m\<rparr>))"
  by (cases c) (simp_all add: RoomBuilder_State_def RoomBuilder_MaxPlayers_def RoomBuilder_Singleton_def
      RoomBuilder_EmptyGrace_def RoomBuilder_OnInit_def RoomBuilder_OnJoin_def RoomBuilder_OnLeave_def
      RoomBuilder_OnClose_def RoomBuilder_Tick_def RoomBuilder_HandleRaw_def)

lemma chain_module: "chain build cs b = bindO (chain configure cs (rb_module b)) (\<lambda>m. Val (b\<lparr>rb_module := m\<rparr>))"
proof (induction cs arbitrary: b)
  case (Cons c cs)
  then show ?case by (cases "configure c (rb_module b)") (simp_all add: build_module)
qed simp

text \<open>The fluent builder is the module interface: a chain of these builder calls panics exactly when the
  same chain on a module does, with the same message, and otherwise registers exactly the room type
  that registering that module does. (The typed \<open>Handle\<close>, whose type parameters differ from call to call,
  is \<open>OHandleRaw\<close> with the adapted handler of \<open>Module_Handle\<close>.)\<close>

lemma builder_builds_the_module:
  "bindO (chain build calls (Room_builder zero typ)) (\<lambda>b. Val (RoomBuilder_Register app b)) =
   bindO (chain configure calls (NewModule zero typ)) (\<lambda>m. Val (RegisterRoomType m app))"
  by (cases "chain configure calls (NewModule zero typ)")
     (simp_all add: chain_module Room_builder_def RoomBuilder_Register_def)

end
