(* ===== verification/Spec2Isabelle.thy ===== *)
theory Spec2Isabelle
  imports Protocol_Theorems Bus_Theorems Connection_Theorems Room_Theorems Actor_Theorems Manager_Theorems Manager_Race_Theorems App_Theorems
begin

text \<open>
  \<^bold>\<open>go-partyx\<close>: a framework for real-time multiplayer servers in Go, verified as a shallow embedding.

  \<^bold>\<open>The program.\<close> Peers talk to the server over WebSockets in binary envelopes
  (\<^verbatim>\<open>protocol\<close>). A connection (\<^verbatim>\<open>gateway/client.go\<close>) reads frames, queues requests for its handler
  goroutine and queues frames for its writer. The dispatcher (\<^verbatim>\<open>gateway/dispatcher.go\<close>) logs a
  connection in, subscribes it to topics of the event bus (\<^verbatim>\<open>eventbus\<close>), and routes requests to global
  handlers (\<^verbatim>\<open>command\<close>, \<^verbatim>\<open>internal/handlers\<close>) or, by opcode, to rooms. The manager (\<^verbatim>\<open>room/manager.go\<close>) owns
  the rooms, the room types and a record of who holds the single place a user may have per type. A
  room (\<^verbatim>\<open>room/room.go\<close>) is an actor that runs joins, leaves, messages, ticks and timers one at a time
  and calls the hooks of its module (\<^verbatim>\<open>room/module.go\<close>). The facade (\<^verbatim>\<open>app.go\<close>, \<^verbatim>\<open>handle.go\<close>, \<^verbatim>\<open>room.go\<close>)
  wires the parts together.

  \<^bold>\<open>How it is modelled.\<close> Pure code is functions; code that changes state takes and returns a record with
  the fields of the Go struct; errors are values (\<open>goerror\<close>), a panic is \<open>Panic\<close> of the type \<open>outcome\<close>, and
  the outward effects of a room or manager operation are the list of events it publishes and
  goroutines it starts, in order. Machine integers keep their width. Go maps are association lists
  without duplicate keys (\<open>gomap\<close>), whose order stands for the order of a \<open>range\<close> loop. What the program
  does not determine is an argument: the clock, generated IDs, the choice of a \<open>select\<close>, the peers'
  frames, the authenticator, and the hooks and handlers of a game, which are arbitrary functions from
  what they can see to the calls they make. Locks are left out where an operation is one critical
  section.

  \<^bold>\<open>The theories.\<close>
  \<^item> \<^verbatim>\<open>Go_Prelude\<close>, \<^verbatim>\<open>Go_Map\<close>: outcomes, machine integers, maps with their laws as locales (\<open>kv_store\<close>,
    \<open>lookup_table\<close>).
  \<^item> \<^verbatim>\<open>Wire\<close>, \<^verbatim>\<open>Schema\<close>, \<^verbatim>\<open>Schema_Props\<close>, \<^verbatim>\<open>Codec\<close>, \<^verbatim>\<open>Protocol_Theorems\<close>: the byte-level encoders and decoders
    of \<^verbatim>\<open>protocol/schema_gen.go\<close>, the enumerations of \<^verbatim>\<open>schema.go\<close>, \<open>Encode\<close>, \<open>Decode\<close> and \<open>Call\<close> of \<^verbatim>\<open>codec.go\<close>. One
    locale states what a message type promises; it is interpreted on every type, and the round
    trips, canonicity and the panics on oversized fields follow from it.
  \<^item> \<^verbatim>\<open>Event_Bus\<close>, \<^verbatim>\<open>Event_Bus_Race\<close>, \<^verbatim>\<open>Bus_Theorems\<close>: the bus, run sequentially (refining "the last call
    decides", locale \<open>pub_sub\<close>) and as an interleaving of the atomic steps of concurrent calls, where a
    subscription can be lost and the retries of a subscription are bounded.
  \<^item> \<^verbatim>\<open>Session\<close>, \<^verbatim>\<open>Command\<close>: session store and handler registry.
  \<^item> \<^verbatim>\<open>Room\<close>, \<^verbatim>\<open>Room_Module\<close>, \<^verbatim>\<open>Room_Ops\<close>, \<^verbatim>\<open>Room_Props\<close>, \<^verbatim>\<open>Room_Contract\<close>, \<^verbatim>\<open>Room_Steps\<close>, \<^verbatim>\<open>Room_Theorems\<close>: the
    room and its operations; what the manager may rely on (locale \<open>any_room\<close>); and a step relation of
    one room under concurrent callers, timers and removals, on which the player cap and the removal
    of empty rooms are proved.
  \<^item> \<^verbatim>\<open>Room_Actor\<close>, \<^verbatim>\<open>Actor_Theorems\<close>: the channel, the loop and the context behind a room, with any number of
    callers of \<open>do\<close> and \<open>Shutdown\<close>. The system refines the sequential operations: its state is that of the
    closures run one after the other; and every caller returns.
  \<^item> \<^verbatim>\<open>Manager\<close>, \<^verbatim>\<open>Manager_Props\<close>, \<^verbatim>\<open>Manager_Runs\<close>, \<^verbatim>\<open>Manager_Live\<close>, \<^verbatim>\<open>Manager_Demo\<close>, \<^verbatim>\<open>Manager_Theorems\<close>: the
    manager. Its invariant says that every singleton record is true; it holds after any sequence of calls made one
    after the other, if a connection calls for its own user, generated room IDs are new and no \<open>OnLeave\<close> hook of a
    registered type panics (a hypothesis of the theorems, \<open>quiet_leave\<close>, since a panic there makes \<open>JoinReplace\<close>
    report a join that did not happen). Messages are routed by the rooms a connection is subscribed to.
  \<^item> \<^verbatim>\<open>Manager_Race\<close>, \<^verbatim>\<open>Manager_Alone\<close>, \<^verbatim>\<open>Manager_Race_Props\<close>, \<^verbatim>\<open>Manager_Race_Demo\<close>, \<^verbatim>\<open>Manager_Race_Theorems\<close>: the
    critical sections of \<open>JoinRoom\<close>, \<open>LeaveRoom\<close> and \<open>Remove\<close> as steps of concurrent calls. A lemma
    (\<open>undisturbed_calls_are_the_operations\<close>) checks the split: a call left alone does what the sequential operation does.
    The singleton rule of the mode \<open>SingletonReject\<close> holds under every
    interleaving of orderly callers, except for a place that a \<open>LeaveRoom\<close> under way has unrecorded and not yet emptied, and two executions show where callers can break the rules.
  \<^item> \<^verbatim>\<open>Tuning\<close>, \<^verbatim>\<open>Client\<close>, \<^verbatim>\<open>Handlers\<close>, \<^verbatim>\<open>Dispatcher\<close>, \<^verbatim>\<open>Gateway\<close>, \<^verbatim>\<open>App\<close>: the connection, the state of the whole
    server (\<open>World\<close>), the built-in handlers, the dispatcher, the step relation of the server (\<open>srv_step\<close>:
    one iteration of one loop of one connection, a connect, an end of a read loop, a pending removal,
    a tick or a timer of a room, in any order), the shutdown, and the facade. The wait of the shutdown for the read
    loops (\<open>wg_Wait\<close>) takes the order in which they end as an argument, ends a loop only if its
    connection was closed, and is \<open>None\<close> if it would block for ever.
  \<^item> \<^verbatim>\<open>Connection\<close>, \<^verbatim>\<open>Connection_Props\<close>, \<^verbatim>\<open>Connection_Theorems\<close>: the goroutines of one connection, \<open>ReadLoop\<close>,
    \<open>WriteLoop\<close> and \<open>handleLoop\<close>, with program counters, deadlines, pings, failed writes and the flush on close, against
    an arbitrary peer, clock and senders. Frames and messages keep their order, the loops come to rest and
    end with the connection, and the deadline follows the last sign of life, which a ghost field (\<open>cn_heard\<close>) records apart from the
    deadline. A lemma (\<open>loops_refine_atomic_steps\<close>) checks that every step is one that the
    coarser steps of the server allow (\<open>client_move\<close>, built from \<open>read_step\<close>, \<open>write_next\<close>, \<open>handle_next\<close>). Executions
    show that the deadline bounds neither the time before a login nor a stall behind a busy handler, and that a
    login can lose its deadline to the reader.
  \<^item> \<^verbatim>\<open>Gateway_Props\<close>, \<^verbatim>\<open>Gateway_Runs\<close>, \<^verbatim>\<open>Disconnect\<close>, \<^verbatim>\<open>Handler_Props\<close>, \<^verbatim>\<open>Gateway_Demo\<close>, \<^verbatim>\<open>Gateway_Theorems\<close>, \<^verbatim>\<open>App_Theorems\<close>: the
    invariant of the running server (\<open>srv_inv\<close>): bus and connections agree, nothing happens before a
    login, queues are bounded and hold server messages, the rooms of the manager are live. It is kept by any
    registry whose handlers keep it (\<open>all_keep\<close>), and the built-in handlers do. From it: disconnect and
    shutdown run to their end and clean up. Registration through \<open>HandleRaw\<close>, \<open>Handle\<close> and \<open>RegisterRoomType\<close> gives
    an opcode one owner; registration in the registry that \<open>Commands()\<close> returns does not.

  \<^bold>\<open>Bounds.\<close> Nothing is bounded by fuel: all loops of the program are structural recursions over lists, and
  the retry loop of \<open>Subscribe\<close> has a termination proof. Lengths are limited where the code limits
  them (16-bit lengths on the wire, the send buffer, 64 queued requests).

  \<^bold>\<open>Granularity.\<close> In \<open>srv_step\<close> an operation of the manager, a dispatched message and the end of a
  read loop with its \<open>OnDisconnect\<close> are one step each. In the program the handlers of different connections and
  \<open>OnDisconnect\<close> run on goroutines of their own, so the theorems on runs of the server speak of runs in which those
  do not overlap; \<open>concurrent_subscription_can_be_lost\<close> shows that the agreement of bus and connections does
  not survive without that. The interleavings inside them are studied for the closures of one room (\<^verbatim>\<open>Room_Steps\<close>), for the
  communication behind \<open>do\<close> (\<^verbatim>\<open>Room_Actor\<close>), for the loops of one connection (\<^verbatim>\<open>Connection\<close>), for the critical sections of the manager (\<^verbatim>\<open>Manager_Race\<close>) and for one
  topic of the bus (\<^verbatim>\<open>Event_Bus_Race\<close>). In \<^verbatim>\<open>Manager_Race\<close> an operation of a room is one step, and the expiry of
  a room's timer shows only as the \<open>Remove\<close> it leads to; \<open>ShutdownAll\<close> is not among its calls. A hook that calls a blocking
  method of its own room would deadlock, and the hooks of the model make only the calls meant for them. Hooks do not get the context of the room: a hook that
  looks at a context cancelled while it runs is not represented, and \<open>rm_done\<close> turns true when the loop ends.

  \<^bold>\<open>Not modelled.\<close> The HTTP server, the upgrade to WebSockets and the socket below whole frames (\<open>setupRoutes\<close>, the
  first half of \<open>Run\<close>): calls into libraries. Of the socket \<^verbatim>\<open>Connection\<close> uses what its library documents about
  deadlines, closing and failed writes; a write is one step and takes no time. Of \<open>Run\<close>, what follows the end of
  the listener or of the context is modelled. Logging. Accessors that return a field (\<open>Bus\<close>, \<open>Sessions\<close>, \<open>Engine\<close>,
  \<open>ID\<close>, \<open>Config\<close> and the like). The chains of builder calls (\<open>option_call\<close>) have the raw \<open>HandleRaw\<close>; the typed \<open>Handle\<close> is a
  definition of its own (\<open>RoomBuilder_Handle\<close>). \<^verbatim>\<open>types.go\<close> and \<^verbatim>\<open>tools/tools.go\<close> have no behaviour.

  \<^bold>\<open>Next.\<close> The server of \<open>srv_step\<close> with the finer steps of \<^verbatim>\<open>Manager_Race\<close> and \<^verbatim>\<open>Connection\<close> in one system, so that the races
  of a disconnect with a running handler can be followed from the frames of a peer. The mode
  \<open>SingletonReplace\<close> has no theorem of its own kind: a failed join drops the record of the place it did not
  take over, so the rule does not hold even for calls one after the other.
\<close>

end
